theory Spec2Isabelle
  imports Main "HOL-Library.Word"
begin

unbundle bit_operations_syntax

section \<open>Words, sentinels and warp primitives\<close>

text \<open>
  The slab hash of \<^verbatim>\<open>SlabHashContext\<close> addresses everything by 32-bit handles
  (\<^verbatim>\<open>ptr_t\<close>, \<^verbatim>\<open>iterator_t\<close>). A warp has 32 lanes; a lane id is a natural number
  below 32. A variable that every lane holds privately (\<^verbatim>\<open>lane_active\<close>, \<^verbatim>\<open>key\<close>,
  \<^verbatim>\<open>bucket_id\<close>, \<^verbatim>\<open>iterator\<close>, \<^verbatim>\<open>mask\<close>) is a function from lane ids; a variable
  that all lanes compute alike from a ballot or a shuffle (\<^verbatim>\<open>work_queue\<close>,
  \<^verbatim>\<open>curr_slab_ptr\<close>, \<^verbatim>\<open>src_lane\<close>, \<^verbatim>\<open>lane_found\<close>) is a single value.
\<close>

type_synonym ptr_t = "32 word"
type_synonym iterator_t = "32 word"

text \<open>
  Modelled from the spec: the header that declares the sentinels and lane masks is not
  among the sources. The spec fixes \<^verbatim>\<open>EMPTY_PAIR\<close> and \<^verbatim>\<open>EMPTY_SLAB\<close> bit-exactly as
  all-ones; lanes 0..30 are pair slots and lane 31 is the next-slab pointer (class
  \<^verbatim>\<open>Slab\<close>: \<^verbatim>\<open>pair_ptrs[31]\<close>, \<^verbatim>\<open>next_slab_ptr\<close>), which gives the two lane masks.
\<close>

definition EMPTY_PAIR_PTR :: ptr_t where "EMPTY_PAIR_PTR = 0xFFFFFFFF"
definition EMPTY_SLAB_PTR :: ptr_t where "EMPTY_SLAB_PTR = 0xFFFFFFFF"
definition ACTIVE_LANES_MASK :: "32 word" where "ACTIVE_LANES_MASK = 0xFFFFFFFF"
definition PAIR_PTR_LANES_MASK :: "32 word" where "PAIR_PTR_LANES_MASK = 0x7FFFFFFF"
definition NEXT_SLAB_PTR_LANE :: nat where "NEXT_SLAB_PTR_LANE = 31"
definition WARP_WIDTH :: nat where "WARP_WIDTH = 32"

text \<open>
  \<^verbatim>\<open>__ballot_sync(mask, pred)\<close>: bit \<open>i\<close> of the result is set iff lane \<open>i\<close> is named by
  the mask and its predicate holds. \<^verbatim>\<open>__ffs\<close>: the 1-based position of the lowest set
  bit, 0 for the zero word. \<^verbatim>\<open>__shfl_sync(mask, var, srcLane, width)\<close>: every lane
  receives the value that lane \<open>srcLane mod width\<close> holds in \<open>var\<close>.
\<close>

definition ballot_sync :: "32 word \<Rightarrow> (nat \<Rightarrow> bool) \<Rightarrow> 32 word" where
  "ballot_sync m p = horner_sum of_bool 2 (map (\<lambda>i. bit m i \<and> p i) [0..<32])"

definition ffs :: "32 word \<Rightarrow> int" where
  "ffs w = (case find (bit w) [0..<32] of None \<Rightarrow> 0 | Some i \<Rightarrow> int i + 1)"

definition shfl_sync :: "(nat \<Rightarrow> 'a) \<Rightarrow> nat \<Rightarrow> nat \<Rightarrow> 'a" where
  "shfl_sync var srcLane width = var (srcLane mod width)"

definition popc :: "32 word \<Rightarrow> nat" where
  "popc w = length (filter (bit w) [0..<32])"

section \<open>Bucket index\<close>

text \<open>
  \<^verbatim>\<open>SlabHashContext::ComputeBucket\<close>: \<^verbatim>\<open>hash_fn_(key) % num_buckets_\<close> on unsigned 32-bit
  values. The hash functor is the template parameter \<^verbatim>\<open>_Hash\<close>, a parameter here too.
  The remainder by zero is undefined in C++; the model returns \<open>None\<close> there.
  The fields \<^verbatim>\<open>num_buckets_\<close> and \<^verbatim>\<open>hash_fn_\<close> lose their trailing underscore.
  The header that declares \<^verbatim>\<open>HEAD_SLAB_PTR\<close> and \<^verbatim>\<open>NULL_ITERATOR\<close> is not among the
  sources and the spec gives neither value, so the context carries both as parameters.
\<close>

record 'k SlabHashContext =
  num_buckets :: "32 word"
  hash_fn :: "'k \<Rightarrow> 32 word"
  HEAD_SLAB_PTR :: ptr_t
  NULL_ITERATOR :: iterator_t

definition ComputeBucket :: "'k SlabHashContext \<Rightarrow> 'k \<Rightarrow> 32 word option" where
  "ComputeBucket ctx key =
     (if num_buckets ctx = 0 then None else Some (hash_fn ctx key mod num_buckets ctx))"

text \<open>
  \<^verbatim>\<open>GpuSlabHashContext<KeyT, ValueT, ConcurrentMap>::computeBucket\<close>, the variant with the
  hash built in: \<^verbatim>\<open>(((hash_x_ ^ key) + hash_y_) % PRIME_DIVISOR_) % num_buckets_\<close>, all in
  \<^verbatim>\<open>uint32_t\<close>, so the addition wraps modulo \<open>2 ^ 32\<close> before the first remainder.
\<close>

definition PRIME_DIVISOR :: "32 word" where "PRIME_DIVISOR = 4294967291"

record GpuSlabHashContext =
  gpu_num_buckets :: "32 word"
  hash_x :: "32 word"
  hash_y :: "32 word"

definition gpu_hash :: "GpuSlabHashContext \<Rightarrow> 32 word \<Rightarrow> 32 word" where
  "gpu_hash ctx key = ((hash_x ctx XOR key) + hash_y ctx) mod PRIME_DIVISOR"

definition computeBucket :: "GpuSlabHashContext \<Rightarrow> 32 word \<Rightarrow> 32 word option" where
  "computeBucket ctx key =
     (if gpu_num_buckets ctx = 0 then None
      else Some ((((hash_x ctx XOR key) + hash_y ctx) mod PRIME_DIVISOR) mod gpu_num_buckets ctx))"

section \<open>Device memory\<close>

text \<open>
  The memory all warps share: the head slabs (\<^verbatim>\<open>bucket_list_head_\<close>, one slab of 32
  words per bucket), the slabs of the slab allocator, and the records of the pair
  allocator. A word is addressed by the pointer \<^verbatim>\<open>get_unit_ptr_from_list_head\<close> or
  \<^verbatim>\<open>get_unit_ptr_from_list_nodes\<close> returns; the pointer arithmetic
  \<^verbatim>\<open>base + bucket_id * BASE_UNIT_SIZE + lane_id\<close> is kept as the pair it is computed from.

  Modelled from the spec: \<^verbatim>\<open>memory_alloc.h\<close> and \<^verbatim>\<open>slab_alloc.h\<close> are not among the
  sources. The pair allocator is "an index-addressed pool of (key, value) records with
  free-list semantics": \<open>pair_heap\<close> lists the free indices, \<^verbatim>\<open>Allocate\<close> takes the
  first one and "fails with OutOfPairs when the pool is exhausted", \<^verbatim>\<open>Free\<close> puts an
  index back, \<^verbatim>\<open>extract\<close> is constant-time addressing. The slab allocator hands out
  one free slab per \<^verbatim>\<open>WarpAllocate\<close>, the same index to every lane, "fails with
  OutOfSlabs", and \<^verbatim>\<open>FreeUntouched\<close> releases a slab again; which of the free slabs
  the bitmap scan picks is left to the order of \<open>slab_heap\<close>.
\<close>

record ('k, 'v) device =
  bucket_list_head :: "32 word \<Rightarrow> nat \<Rightarrow> ptr_t"
  slab_units :: "ptr_t \<Rightarrow> nat \<Rightarrow> ptr_t"
  pair_data :: "ptr_t \<Rightarrow> 'k \<times> 'v"
  pair_heap :: "ptr_t list"
  slab_heap :: "ptr_t list"

datatype unit_ptr = list_head_unit "32 word" nat | list_node_unit ptr_t nat

datatype error = OutOfPairs | OutOfSlabs

definition get_unit_ptr_from_list_head :: "32 word \<Rightarrow> nat \<Rightarrow> unit_ptr" where
  "get_unit_ptr_from_list_head bucket_id lane_id = list_head_unit bucket_id lane_id"

definition get_unit_ptr_from_list_nodes :: "ptr_t \<Rightarrow> nat \<Rightarrow> unit_ptr" where
  "get_unit_ptr_from_list_nodes slab_ptr lane_id = list_node_unit slab_ptr lane_id"

fun deref :: "('k, 'v) device \<Rightarrow> unit_ptr \<Rightarrow> ptr_t" where
  "deref d (list_head_unit b l) = bucket_list_head d b l"
| "deref d (list_node_unit s l) = slab_units d s l"

fun store :: "('k, 'v) device \<Rightarrow> unit_ptr \<Rightarrow> ptr_t \<Rightarrow> ('k, 'v) device" where
  "store d (list_head_unit b l) x =
     d\<lparr>bucket_list_head := (bucket_list_head d)(b := (bucket_list_head d b)(l := x))\<rparr>"
| "store d (list_node_unit s l) x =
     d\<lparr>slab_units := (slab_units d)(s := (slab_units d s)(l := x))\<rparr>"

text \<open>\<^verbatim>\<open>atomicCAS(address, compare, val)\<close>: returns the old word, and stores \<open>val\<close> iff
  the old word equals \<open>compare\<close>.\<close>

definition atomicCAS ::
  "('k, 'v) device \<Rightarrow> unit_ptr \<Rightarrow> ptr_t \<Rightarrow> ptr_t \<Rightarrow> ptr_t \<times> ('k, 'v) device" where
  "atomicCAS d address compare val =
     (let old = deref d address
      in (old, if old = compare then store d address val else d))"

definition "extract" :: "('k, 'v) device \<Rightarrow> ptr_t \<Rightarrow> 'k \<times> 'v" where
  "extract d p = pair_data d p"

definition Allocate :: "('k, 'v) device \<Rightarrow> (ptr_t \<times> ('k, 'v) device) option" where
  "Allocate d = (case pair_heap d of [] \<Rightarrow> None | p # ps \<Rightarrow> Some (p, d\<lparr>pair_heap := ps\<rparr>))"

definition Free :: "ptr_t \<Rightarrow> ('k, 'v) device \<Rightarrow> ('k, 'v) device" where
  "Free p d = d\<lparr>pair_heap := p # pair_heap d\<rparr>"

definition AllocateSlab :: "('k, 'v) device \<Rightarrow> (ptr_t \<times> ('k, 'v) device) option" where
  "AllocateSlab d = (case slab_heap d of [] \<Rightarrow> None | s # ss \<Rightarrow> Some (s, d\<lparr>slab_heap := ss\<rparr>))"

definition FreeSlab :: "ptr_t \<Rightarrow> ('k, 'v) device \<Rightarrow> ('k, 'v) device" where
  "FreeSlab slab_ptr d = d\<lparr>slab_heap := slab_ptr # slab_heap d\<rparr>"

text \<open>
  Other warps run between two accesses of this warp to the shared memory. A schedule
  lists what they do to the memory at each such point, in order; \<open>yield\<close> is placed
  before every shared access after the first of an iteration and consumes one entry.
  The empty schedule is the run of one warp alone.
\<close>

type_synonym ('k, 'v) sched = "(('k, 'v) device \<Rightarrow> ('k, 'v) device) list"

definition yield :: "('k, 'v) sched \<Rightarrow> ('k, 'v) device \<Rightarrow> ('k, 'v) sched \<times> ('k, 'v) device" where
  "yield es d = (case es of [] \<Rightarrow> ([], d) | e # es' \<Rightarrow> (es', e d))"

section \<open>The warp-cooperative operations\<close>

text \<open>
  What a warp keeps across the iterations of its work-queue loop. \<open>lane_active\<close> is the
  reference parameter \<^verbatim>\<open>to_search\<close>, \<^verbatim>\<open>to_be_inserted\<close>, \<^verbatim>\<open>to_be_deleted\<close>;
  \<open>found_mask\<close> is the local \<^verbatim>\<open>mask\<close>.
\<close>

record warp_vars =
  lane_active :: "nat \<Rightarrow> bool"
  iterator :: "nat \<Rightarrow> iterator_t"
  found_mask :: "nat \<Rightarrow> bool"
  prev_work_queue :: "32 word"
  curr_slab_ptr :: ptr_t

text \<open>\<^verbatim>\<open>WarpSyncKey\<close> shuffles the key of the source lane to every lane, one \<^verbatim>\<open>int\<close>
  chunk at a time; the key type is taken to be a whole number of chunks.\<close>

definition WarpSyncKey :: "(nat \<Rightarrow> 'k) \<Rightarrow> nat \<Rightarrow> 'k" where
  "WarpSyncKey key lane_id = shfl_sync key lane_id WARP_WIDTH"

definition WarpFindKey :: "('k, 'v) device \<Rightarrow> 'k \<Rightarrow> (nat \<Rightarrow> ptr_t) \<Rightarrow> int" where
  "WarpFindKey d key ptr =
     ffs (ballot_sync PAIR_PTR_LANES_MASK
            (\<lambda>lane_id. (push_bit lane_id 1 AND PAIR_PTR_LANES_MASK) \<noteq> 0
                        \<and> ptr lane_id \<noteq> EMPTY_PAIR_PTR
                        \<and> fst (extract d (ptr lane_id)) = key)) - 1"

definition WarpFindEmpty :: "(nat \<Rightarrow> ptr_t) \<Rightarrow> int" where
  "WarpFindEmpty ptr =
     ffs (ballot_sync PAIR_PTR_LANES_MASK (\<lambda>lane_id. ptr lane_id = EMPTY_PAIR_PTR)) - 1"

text \<open>The read every lane makes of its word of the current slab.\<close>

definition read_unit_data ::
  "'k SlabHashContext \<Rightarrow> ('k, 'v) device \<Rightarrow> ptr_t \<Rightarrow> 32 word \<Rightarrow> nat \<Rightarrow> ptr_t" where
  "read_unit_data ctx d curr_slab src_bucket lane_id =
     (if curr_slab = HEAD_SLAB_PTR ctx then deref d (get_unit_ptr_from_list_head src_bucket lane_id)
      else deref d (get_unit_ptr_from_list_nodes curr_slab lane_id))"

definition unit_ptr_of :: "'k SlabHashContext \<Rightarrow> ptr_t \<Rightarrow> 32 word \<Rightarrow> nat \<Rightarrow> unit_ptr" where
  "unit_ptr_of ctx curr_slab src_bucket lane =
     (if curr_slab = HEAD_SLAB_PTR ctx then get_unit_ptr_from_list_head src_bucket lane
      else get_unit_ptr_from_list_nodes curr_slab lane)"

subsection \<open>Search\<close>

definition Search_body ::
  "'k SlabHashContext \<Rightarrow> (nat \<Rightarrow> 32 word) \<Rightarrow> (nat \<Rightarrow> 'k) \<Rightarrow> 32 word \<Rightarrow> warp_vars
     \<Rightarrow> ('k, 'v) device \<Rightarrow> warp_vars" where
  "Search_body ctx bucket_id query_key work_queue st d =
     (let curr_slab = (if prev_work_queue st \<noteq> work_queue then HEAD_SLAB_PTR ctx
                  else curr_slab_ptr st);
          src_lane = nat (ffs work_queue - 1);
          src_bucket = shfl_sync bucket_id src_lane WARP_WIDTH;
          src_key = WarpSyncKey query_key src_lane;
          unit_data = read_unit_data ctx d curr_slab src_bucket;
          lane_found = WarpFindKey d src_key unit_data
      in if lane_found \<ge> 0 then
           let found_pair_internal_ptr = shfl_sync unit_data (nat lane_found) WARP_WIDTH
           in st\<lparr>lane_active := (lane_active st)(src_lane := False),
                 iterator := (iterator st)(src_lane := found_pair_internal_ptr),
                 found_mask := (found_mask st)(src_lane := True),
                 prev_work_queue := work_queue, curr_slab_ptr := curr_slab\<rparr>
         else
           let next_slab_ptr = shfl_sync unit_data NEXT_SLAB_PTR_LANE WARP_WIDTH
           in if next_slab_ptr = EMPTY_SLAB_PTR then
                st\<lparr>lane_active := (lane_active st)(src_lane := False),
                    prev_work_queue := work_queue, curr_slab_ptr := curr_slab\<rparr>
              else st\<lparr>prev_work_queue := work_queue, curr_slab_ptr := next_slab_ptr\<rparr>)"

partial_function (option) Search_loop ::
  "'k SlabHashContext \<Rightarrow> (nat \<Rightarrow> 32 word) \<Rightarrow> (nat \<Rightarrow> 'k) \<Rightarrow> ('k, 'v) sched \<Rightarrow> warp_vars
     \<Rightarrow> ('k, 'v) device \<Rightarrow> (warp_vars \<times> ('k, 'v) sched \<times> ('k, 'v) device) option" where
  "Search_loop ctx bucket_id query_key es st d =
     (let work_queue = ballot_sync ACTIVE_LANES_MASK (lane_active st)
      in if work_queue = 0 then Some (st, es, d)
         else let (es', d') = yield es d
              in Search_loop ctx bucket_id query_key es'
                   (Search_body ctx bucket_id query_key work_queue st d') d')"

definition Search ::
  "'k SlabHashContext \<Rightarrow> (nat \<Rightarrow> bool) \<Rightarrow> (nat \<Rightarrow> 32 word) \<Rightarrow> (nat \<Rightarrow> 'k) \<Rightarrow> ('k, 'v) sched
     \<Rightarrow> ('k, 'v) device \<Rightarrow> (warp_vars \<times> ('k, 'v) sched \<times> ('k, 'v) device) option" where
  "Search ctx to_search bucket_id query_key es d =
     Search_loop ctx bucket_id query_key es
       \<lparr>lane_active = to_search, iterator = (\<lambda>_. NULL_ITERATOR ctx), found_mask = (\<lambda>_. False),
        prev_work_queue = 0, curr_slab_ptr = HEAD_SLAB_PTR ctx\<rparr> d"

subsection \<open>Insert\<close>

text \<open>
  Before the loop every lane that is to insert allocates a pair record and writes its
  key and value into it. The lanes do so concurrently; the model takes them in lane
  order. The source does not test the index \<^verbatim>\<open>Allocate\<close> returns; what that is when
  the pool is exhausted is decided by the missing allocator, so the run ends with
  \<open>OutOfPairs\<close> there. \<^verbatim>\<open>prealloc_pair_internal_ptr\<close> starts as \<^verbatim>\<open>EMPTY_PAIR_PTR\<close>.
\<close>

fun prealloc_lanes ::
  "nat list \<Rightarrow> (nat \<Rightarrow> bool) \<Rightarrow> (nat \<Rightarrow> 'k) \<Rightarrow> (nat \<Rightarrow> 'v) \<Rightarrow> (nat \<Rightarrow> ptr_t) \<Rightarrow> ('k, 'v) device
     \<Rightarrow> error + (nat \<Rightarrow> ptr_t) \<times> ('k, 'v) device" where
  "prealloc_lanes [] to_be_inserted key val pre d = Inr (pre, d)"
| "prealloc_lanes (lane_id # ls) to_be_inserted key val pre d =
     (if to_be_inserted lane_id then
        (case Allocate d of
           None \<Rightarrow> Inl OutOfPairs
         | Some (p, d1) \<Rightarrow>
             prealloc_lanes ls to_be_inserted key val (pre(lane_id := p))
               (d1\<lparr>pair_data := (pair_data d1)(p := (key lane_id, val lane_id))\<rparr>))
      else prealloc_lanes ls to_be_inserted key val pre d)"

text \<open>
  One iteration of the loop of \<^verbatim>\<open>Insert\<close>. The statements under
  \<^verbatim>\<open>if (lane_id == src_lane)\<close> update the variables of lane \<open>src_lane\<close> only; the CAS of
  Branch 3.2 is made by lane 31 whether or not that lane is active.
\<close>

definition Insert_body ::
  "'k SlabHashContext \<Rightarrow> (nat \<Rightarrow> 32 word) \<Rightarrow> (nat \<Rightarrow> 'k) \<Rightarrow> (nat \<Rightarrow> ptr_t) \<Rightarrow> 32 word
     \<Rightarrow> ('k, 'v) sched \<Rightarrow> warp_vars \<Rightarrow> ('k, 'v) device
     \<Rightarrow> error + warp_vars \<times> ('k, 'v) sched \<times> ('k, 'v) device" where
  "Insert_body ctx bucket_id key prealloc_pair_internal_ptr work_queue es st d =
     (let curr_slab = (if prev_work_queue st \<noteq> work_queue then HEAD_SLAB_PTR ctx
                       else curr_slab_ptr st);
          src_lane = nat (ffs work_queue - 1);
          src_bucket = shfl_sync bucket_id src_lane WARP_WIDTH;
          src_key = WarpSyncKey key src_lane;
          unit_data = read_unit_data ctx d curr_slab src_bucket;
          lane_found = WarpFindKey d src_key unit_data;
          lane_empty = WarpFindEmpty unit_data;
          st0 = st\<lparr>prev_work_queue := work_queue, curr_slab_ptr := curr_slab\<rparr>
      in if lane_found \<ge> 0 then
           let (es1, d1) = yield es d
           in Inr (st0\<lparr>lane_active := (lane_active st)(src_lane := False)\<rparr>, es1,
                   Free (prealloc_pair_internal_ptr src_lane) d1)
         else if lane_empty \<ge> 0 then
           let unit_data_ptr = unit_ptr_of ctx curr_slab src_bucket (nat lane_empty);
               (es1, d1) = yield es d;
               (old_pair_internal_ptr, d2) =
                  atomicCAS d1 unit_data_ptr EMPTY_PAIR_PTR (prealloc_pair_internal_ptr src_lane)
           in if old_pair_internal_ptr = EMPTY_PAIR_PTR then
                Inr (st0\<lparr>lane_active := (lane_active st)(src_lane := False),
                         iterator := (iterator st)(src_lane := prealloc_pair_internal_ptr src_lane),
                         found_mask := (found_mask st)(src_lane := True)\<rparr>, es1, d2)
              else Inr (st0, es1, d2)
         else
           let next_slab_ptr = shfl_sync unit_data NEXT_SLAB_PTR_LANE WARP_WIDTH
           in if next_slab_ptr \<noteq> EMPTY_SLAB_PTR then
                Inr (st0\<lparr>curr_slab_ptr := next_slab_ptr\<rparr>, es, d)
              else
                let (es1, d1) = yield es d
                in case AllocateSlab d1 of
                     None \<Rightarrow> Inl OutOfSlabs
                   | Some (new_next_slab_ptr, d2) \<Rightarrow>
                       let unit_data_ptr = unit_ptr_of ctx curr_slab src_bucket NEXT_SLAB_PTR_LANE;
                           (es2, d3) = yield es1 d2;
                           (old_next_slab_ptr, d4) =
                              atomicCAS d3 unit_data_ptr EMPTY_SLAB_PTR new_next_slab_ptr
                       in if old_next_slab_ptr \<noteq> EMPTY_SLAB_PTR then
                            let (es3, d5) = yield es2 d4
                            in Inr (st0, es3, FreeSlab new_next_slab_ptr d5)
                          else Inr (st0, es2, d4))"

partial_function (option) Insert_loop ::
  "'k SlabHashContext \<Rightarrow> (nat \<Rightarrow> 32 word) \<Rightarrow> (nat \<Rightarrow> 'k) \<Rightarrow> (nat \<Rightarrow> ptr_t) \<Rightarrow> ('k, 'v) sched
     \<Rightarrow> warp_vars \<Rightarrow> ('k, 'v) device
     \<Rightarrow> (error + warp_vars \<times> ('k, 'v) sched \<times> ('k, 'v) device) option" where
  "Insert_loop ctx bucket_id key prealloc_pair_internal_ptr es st d =
     (let work_queue = ballot_sync ACTIVE_LANES_MASK (lane_active st)
      in if work_queue = 0 then Some (Inr (st, es, d))
         else let (es0, d0) = yield es d
              in case Insert_body ctx bucket_id key prealloc_pair_internal_ptr work_queue es0 st d0 of
                   Inl e \<Rightarrow> Some (Inl e)
                 | Inr (st', es', d') \<Rightarrow>
                     Insert_loop ctx bucket_id key prealloc_pair_internal_ptr es' st' d')"

definition Insert ::
  "'k SlabHashContext \<Rightarrow> (nat \<Rightarrow> bool) \<Rightarrow> (nat \<Rightarrow> 32 word) \<Rightarrow> (nat \<Rightarrow> 'k) \<Rightarrow> (nat \<Rightarrow> 'v)
     \<Rightarrow> ('k, 'v) sched \<Rightarrow> ('k, 'v) device
     \<Rightarrow> (error + warp_vars \<times> ('k, 'v) sched \<times> ('k, 'v) device) option" where
  "Insert ctx to_be_inserted bucket_id key val es d =
     (case prealloc_lanes [0..<32] to_be_inserted key val (\<lambda>_. EMPTY_PAIR_PTR) d of
        Inl e \<Rightarrow> Some (Inl e)
      | Inr (prealloc_pair_internal_ptr, d0) \<Rightarrow>
          Insert_loop ctx bucket_id key prealloc_pair_internal_ptr es
            \<lparr>lane_active = to_be_inserted, iterator = (\<lambda>_. NULL_ITERATOR ctx),
             found_mask = (\<lambda>_. False), prev_work_queue = 0,
             curr_slab_ptr = HEAD_SLAB_PTR ctx\<rparr> d0)"

subsection \<open>Remove\<close>

text \<open>
  One iteration of the loop of \<^verbatim>\<open>Remove\<close>. In Branch 1 the serviced lane reads the
  slot again (\<^verbatim>\<open>pair_to_delete = *unit_data_ptr\<close>) and uses that word as the comparand
  of its CAS; what it frees is \<^verbatim>\<open>src_pair_internal_ptr\<close>, the word the warp read at
  the top of the iteration. In the branch for a chain that ends without a match the
  assignment \<^verbatim>\<open>to_be_deleted = false\<close> stands under no \<^verbatim>\<open>lane_id == src_lane\<close> test, so
  every lane executes it.
\<close>

definition Remove_body ::
  "'k SlabHashContext \<Rightarrow> (nat \<Rightarrow> 32 word) \<Rightarrow> (nat \<Rightarrow> 'k) \<Rightarrow> 32 word
     \<Rightarrow> ('k, 'v) sched \<Rightarrow> warp_vars \<Rightarrow> ('k, 'v) device
     \<Rightarrow> warp_vars \<times> ('k, 'v) sched \<times> ('k, 'v) device" where
  "Remove_body ctx bucket_id key work_queue es st d =
     (let curr_slab = (if prev_work_queue st \<noteq> work_queue then HEAD_SLAB_PTR ctx
                       else curr_slab_ptr st);
          src_lane = nat (ffs work_queue - 1);
          src_bucket = shfl_sync bucket_id src_lane WARP_WIDTH;
          src_key = WarpSyncKey key src_lane;
          unit_data = read_unit_data ctx d curr_slab src_bucket;
          lane_found = WarpFindKey d src_key unit_data;
          st0 = st\<lparr>prev_work_queue := work_queue, curr_slab_ptr := curr_slab\<rparr>
      in if lane_found \<ge> 0 then
           let src_pair_internal_ptr = shfl_sync unit_data (nat lane_found) WARP_WIDTH;
               unit_data_ptr = unit_ptr_of ctx curr_slab src_bucket (nat lane_found);
               (es1, d1) = yield es d;
               pair_to_delete = deref d1 unit_data_ptr;
               (es2, d2) = yield es1 d1;
               (old_key_value_pair, d3) = atomicCAS d2 unit_data_ptr pair_to_delete EMPTY_PAIR_PTR
           in if old_key_value_pair = pair_to_delete then
                let (es3, d4) = yield es2 d3
                in (st0\<lparr>lane_active := (lane_active st)(src_lane := False),
                        found_mask := (found_mask st)(src_lane := True)\<rparr>, es3,
                    Free src_pair_internal_ptr d4)
              else (st0\<lparr>lane_active := (lane_active st)(src_lane := False)\<rparr>, es2, d3)
         else
           let next_slab_ptr = shfl_sync unit_data NEXT_SLAB_PTR_LANE WARP_WIDTH
           in if next_slab_ptr = EMPTY_SLAB_PTR then
                (st0\<lparr>lane_active := (\<lambda>_. False)\<rparr>, es, d)
              else (st0\<lparr>curr_slab_ptr := next_slab_ptr\<rparr>, es, d))"

partial_function (option) Remove_loop ::
  "'k SlabHashContext \<Rightarrow> (nat \<Rightarrow> 32 word) \<Rightarrow> (nat \<Rightarrow> 'k) \<Rightarrow> ('k, 'v) sched
     \<Rightarrow> warp_vars \<Rightarrow> ('k, 'v) device
     \<Rightarrow> (warp_vars \<times> ('k, 'v) sched \<times> ('k, 'v) device) option" where
  "Remove_loop ctx bucket_id key es st d =
     (let work_queue = ballot_sync ACTIVE_LANES_MASK (lane_active st)
      in if work_queue = 0 then Some (st, es, d)
         else let (es0, d0) = yield es d;
                  (st', es', d') = Remove_body ctx bucket_id key work_queue es0 st d0
              in Remove_loop ctx bucket_id key es' st' d')"

definition Remove ::
  "'k SlabHashContext \<Rightarrow> (nat \<Rightarrow> bool) \<Rightarrow> (nat \<Rightarrow> 32 word) \<Rightarrow> (nat \<Rightarrow> 'k)
     \<Rightarrow> ('k, 'v) sched \<Rightarrow> ('k, 'v) device
     \<Rightarrow> (warp_vars \<times> ('k, 'v) sched \<times> ('k, 'v) device) option" where
  "Remove ctx to_be_deleted bucket_id key es d =
     Remove_loop ctx bucket_id key es
       \<lparr>lane_active = to_be_deleted, iterator = (\<lambda>_. NULL_ITERATOR ctx),
        found_mask = (\<lambda>_. False), prev_work_queue = 0,
        curr_slab_ptr = HEAD_SLAB_PTR ctx\<rparr> d"

subsection \<open>The kernels, one warp at a time\<close>

text \<open>
  \<^verbatim>\<open>SearchKernel\<close> as the warp whose lane 0 is thread \<open>tid0\<close> (a multiple of 32) runs it.
  \<^verbatim>\<open>num_queries\<close> is the length of \<open>keys\<close>. A warp with \<open>tid0 \<ge> num_queries\<close> returns at
  once. A lane past the input keeps \<open>lane_active = false\<close>, \<open>bucket_id = 0\<close> and an
  uninitialised key (\<open>uninit\<close>). Each thread below \<open>num_queries\<close> writes its own element
  of \<^verbatim>\<open>founds\<close> and \<^verbatim>\<open>values\<close>; \<^verbatim>\<open>_Value(0)\<close> is the zero of the value type. With no
  bucket the remainder in \<^verbatim>\<open>ComputeBucket\<close> is undefined and the kernel has no result.
\<close>

definition SearchKernel ::
  "'k SlabHashContext \<Rightarrow> 'k list \<Rightarrow> (nat \<Rightarrow> 'k) \<Rightarrow> nat \<Rightarrow> ('k, 'v::zero) sched \<Rightarrow> ('k, 'v) device
     \<Rightarrow> 8 word list \<Rightarrow> 'v list
     \<Rightarrow> (8 word list \<times> 'v list \<times> ('k, 'v) sched \<times> ('k, 'v) device) option" where
  "SearchKernel ctx keys uninit tid0 es d founds vals =
     (let num_queries = length keys
      in if tid0 \<ge> num_queries then Some (founds, vals, es, d)
         else if num_buckets ctx = 0 then None
         else
           let lane_active = (\<lambda>lane_id. tid0 + lane_id < num_queries);
               key = (\<lambda>lane_id. if tid0 + lane_id < num_queries then keys ! (tid0 + lane_id)
                                 else uninit lane_id);
               bucket_id = (\<lambda>lane_id. if tid0 + lane_id < num_queries
                                       then the (ComputeBucket ctx (key lane_id)) else 0)
           in case Search ctx lane_active bucket_id key es d of
                None \<Rightarrow> None
              | Some (st, es', d') \<Rightarrow>
                  Some (map (\<lambda>tid. if tid0 \<le> tid \<and> tid < tid0 + 32 \<and> tid < num_queries
                                    then of_bool (found_mask st (tid - tid0)) else founds ! tid)
                          [0..<length founds],
                        map (\<lambda>tid. if tid0 \<le> tid \<and> tid < tid0 + 32 \<and> tid < num_queries
                                    then (if found_mask st (tid - tid0)
                                          then snd (extract d' (iterator st (tid - tid0))) else 0)
                                    else vals ! tid)
                          [0..<length vals],
                        es', d'))"

section \<open>Specification-level notions\<close>

text \<open>
  What the spec says of one slab: a pair slot (lanes 0..30) matches a key when it is not
  empty and the record it names holds that key; the lowest matching, the lowest empty
  and the lowest active lane are the ones the warp picks.
\<close>

definition slot_matches :: "('k, 'v) device \<Rightarrow> 'k \<Rightarrow> (nat \<Rightarrow> ptr_t) \<Rightarrow> nat \<Rightarrow> bool" where
  "slot_matches d key units l \<longleftrightarrow> units l \<noteq> EMPTY_PAIR_PTR \<and> fst (pair_data d (units l)) = key"

definition lowest_match :: "('k, 'v) device \<Rightarrow> 'k \<Rightarrow> (nat \<Rightarrow> ptr_t) \<Rightarrow> nat option" where
  "lowest_match d key units = find (slot_matches d key units) [0..<31]"

definition lowest_empty :: "(nat \<Rightarrow> ptr_t) \<Rightarrow> nat option" where
  "lowest_empty units = find (\<lambda>l. units l = EMPTY_PAIR_PTR) [0..<31]"

definition lowest_active :: "(nat \<Rightarrow> bool) \<Rightarrow> nat option" where
  "lowest_active active = find active [0..<32]"

text \<open>
  The chain of a bucket, as the spec describes it: from the slab \<open>c\<close> (the head slab when
  \<open>c\<close> is \<open>HEAD_SLAB_PTR\<close>) slot 31 names the next slab, until it holds \<open>EMPTY_SLAB\<close>.
  \<open>chain_from ctx d b c ss\<close> says that \<open>ss\<close> are the slabs after \<open>c\<close>, in order; a slab
  index is never the reserved \<open>HEAD_SLAB_PTR\<close>. \<open>chain_lookup\<close> is the spec's Search: the
  first slab of the chain with a matching pair slot, the lowest such slot in it; its
  second component is the slab at which the walk stops.
\<close>

fun chain_from ::
  "'k SlabHashContext \<Rightarrow> ('k, 'v) device \<Rightarrow> 32 word \<Rightarrow> ptr_t \<Rightarrow> ptr_t list \<Rightarrow> bool" where
  "chain_from ctx d b c [] \<longleftrightarrow> read_unit_data ctx d c b 31 = EMPTY_SLAB_PTR"
| "chain_from ctx d b c (s # ss) \<longleftrightarrow>
     read_unit_data ctx d c b 31 = s \<and> s \<noteq> EMPTY_SLAB_PTR \<and> s \<noteq> HEAD_SLAB_PTR ctx
     \<and> chain_from ctx d b s ss"

fun chain_lookup ::
  "'k SlabHashContext \<Rightarrow> ('k, 'v) device \<Rightarrow> 32 word \<Rightarrow> 'k \<Rightarrow> ptr_t \<Rightarrow> ptr_t list
     \<Rightarrow> ptr_t option \<times> ptr_t" where
  "chain_lookup ctx d b key c [] =
     (case lowest_match d key (read_unit_data ctx d c b) of
        Some l \<Rightarrow> (Some (read_unit_data ctx d c b l), c)
      | None \<Rightarrow> (None, c))"
| "chain_lookup ctx d b key c (s # ss) =
     (case lowest_match d key (read_unit_data ctx d c b) of
        Some l \<Rightarrow> (Some (read_unit_data ctx d c b l), c)
      | None \<Rightarrow> chain_lookup ctx d b key s ss)"

text \<open>The variables of a warp once lane \<open>s\<close> has been serviced by a Search whose walk
  gave \<open>res\<close> and stopped at slab \<open>stop\<close>.\<close>

definition search_done ::
  "warp_vars \<Rightarrow> nat \<Rightarrow> 32 word \<Rightarrow> ptr_t option \<times> ptr_t \<Rightarrow> warp_vars" where
  "search_done st s wq r =
     st\<lparr>lane_active := (lane_active st)(s := False),
        iterator := (case fst r of Some p \<Rightarrow> (iterator st)(s := p) | None \<Rightarrow> iterator st),
        found_mask := (case fst r of Some p \<Rightarrow> (found_mask st)(s := True) | None \<Rightarrow> found_mask st),
        prev_work_queue := wq, curr_slab_ptr := snd r\<rparr>"

subsection \<open>A small table for concrete runs\<close>

text \<open>
  One bucket, keys and values of 32 bits, the identity as hash. \<open>table_one\<close> holds the
  single pair \<open>(1, 10)\<close> in record 0, referenced by slot 0 of the head slab.
\<close>

definition ctx1 :: "32 word SlabHashContext" where
  "ctx1 = \<lparr>num_buckets = 1, hash_fn = (\<lambda>k. k), HEAD_SLAB_PTR = 0xFFFFFFFE,
           NULL_ITERATOR = 0xFFFFFFFF\<rparr>"

definition table_one :: "(32 word, 32 word) device" where
  "table_one =
     \<lparr>bucket_list_head = (\<lambda>b l. if l = 0 then 0 else 0xFFFFFFFF),
      slab_units = (\<lambda>s l. 0xFFFFFFFF),
      pair_data = (\<lambda>p. if p = 0 then (1, 10) else (0, 0)),
      pair_heap = [1, 2, 3],
      slab_heap = [0, 1]\<rparr>"

text \<open>A warp whose lanes 1 and 3 are active, before its first iteration.\<close>

definition warp_1_3 :: warp_vars where
  "warp_1_3 = \<lparr>lane_active = (\<lambda>l. l = 1 \<or> l = 3), iterator = (\<lambda>l. 0xFFFFFFFF),
               found_mask = (\<lambda>l. False), prev_work_queue = 0, curr_slab_ptr = 0xFFFFFFFE\<rparr>"

text \<open>
  A pair index is published when some pair slot (lanes 0..30) of a head slab or of a
  slab of the allocator holds it. \<open>insert_inv\<close> is what a warp alone keeps true of its
  inserting lanes from the first iteration of the loop of Insert on: the records keep
  the key and value written before the loop, and a lane is either still active, or
  inactive with its record published and \<open>mask = true\<close>, or inactive with its record
  back in the free list and \<open>mask = false\<close>.
\<close>

fun unit_lane :: "unit_ptr \<Rightarrow> nat" where
  "unit_lane (list_head_unit b l) = l"
| "unit_lane (list_node_unit s l) = l"

definition pair_slot_holds :: "('k, 'v) device \<Rightarrow> ptr_t \<Rightarrow> bool" where
  "pair_slot_holds d p \<longleftrightarrow> (\<exists>q. unit_lane q < 31 \<and> deref d q = p)"

definition insert_inv ::
  "(nat \<Rightarrow> bool) \<Rightarrow> (nat \<Rightarrow> 'k) \<Rightarrow> (nat \<Rightarrow> 'v) \<Rightarrow> (nat \<Rightarrow> ptr_t) \<Rightarrow> warp_vars
     \<Rightarrow> ('k, 'v) device \<Rightarrow> bool" where
  "insert_inv to_be_inserted key val pre st d \<longleftrightarrow>
     (\<forall>l<32. (lane_active st l \<longrightarrow> to_be_inserted l) \<and>
        (to_be_inserted l \<longrightarrow>
           pre l \<noteq> EMPTY_PAIR_PTR \<and> pair_data d (pre l) = (key l, val l) \<and>
           (if lane_active st l then \<not> found_mask st l
            else if found_mask st l then iterator st l = pre l \<and> pair_slot_holds d (pre l)
            else pre l \<in> set (pair_heap d))))"

text \<open>
  Slot 31 of a slab is its next-slab pointer. \<open>keeps_next d d'\<close>: every next-slab
  pointer that is not \<open>EMPTY_SLAB\<close> in \<open>d\<close> holds the same word in \<open>d'\<close>. A schedule keeps
  the next-slab pointers when each of its steps does, whatever memory it is applied to.
\<close>

definition keeps_next :: "('k, 'v) device \<Rightarrow> ('k, 'v) device \<Rightarrow> bool" where
  "keeps_next d d' \<longleftrightarrow>
     (\<forall>q. unit_lane q = 31 \<and> deref d q \<noteq> EMPTY_SLAB_PTR \<longrightarrow> deref d' q = deref d q)"

definition sched_keeps_next :: "('k, 'v) sched \<Rightarrow> bool" where
  "sched_keeps_next es \<longleftrightarrow> (\<forall>e\<in>set es. \<forall>d. keeps_next d (e d))"

text \<open>
  A head slab whose 31 pair slots are taken by the records 0..30 (record \<open>p\<close> holds the
  key \<open>p + 100\<close>) and whose next-slab pointer is still empty; and the step of another
  warp that publishes slab 7 there by the CAS of Branch 3.2.
\<close>

definition table_full :: "(32 word, 32 word) device" where
  "table_full =
     \<lparr>bucket_list_head = (\<lambda>b l. if l < 31 then of_nat l else 0xFFFFFFFF),
      slab_units = (\<lambda>s l. 0xFFFFFFFF),
      pair_data = (\<lambda>p. (p + 100, 0)),
      pair_heap = [40, 41],
      slab_heap = [0, 1]\<rparr>"

definition publish_7 :: "(32 word, 32 word) device \<Rightarrow> (32 word, 32 word) device" where
  "publish_7 d = snd (atomicCAS d (list_head_unit 0 31) EMPTY_SLAB_PTR 7)"

text \<open>
  What a Remove of key 1 by another warp does to \<open>table_one\<close>: it clears pair slot 0 of the
  head slab of bucket 0 and gives pair record 0 back to the allocator.
\<close>

definition remove_by_other_warp :: "(32 word, 32 word) device \<Rightarrow> (32 word, 32 word) device" where
  "remove_by_other_warp d = Free 0 (store d (list_head_unit 0 0) EMPTY_PAIR_PTR)"

text \<open>
  \<open>table_full_5\<close> is \<open>table_full\<close> after a warp has inserted (5, 50) with lane 0: pair
  record 40 holds (5, 50), slab 0 is linked from slot 31 of the head slab and holds record
  40 in its pair slot 0. \<open>table_hole\<close> is that table after a warp has removed key 100, the
  entry of pair slot 0 of the head slab: the slot is empty and record 0 is free again.
\<close>

definition table_full_5 :: "(32 word, 32 word) device" where
  "table_full_5 =
     store (store (table_full\<lparr>pair_heap := [41],
                               pair_data := (pair_data table_full)(40 := (5, 50)),
                               slab_heap := [1]\<rparr>)
              (list_head_unit 0 31) 0)
       (list_node_unit 0 0) 40"

definition table_hole :: "(32 word, 32 word) device" where
  "table_hole = Free 0 (store table_full_5 (list_head_unit 0 0) EMPTY_PAIR_PTR)"

text \<open>The table before the first insertion: no slot is set, no record and no slab is in use.\<close>

definition table_empty :: "(32 word, 32 word) device" where
  "table_empty =
     \<lparr>bucket_list_head = (\<lambda>b l. 0xFFFFFFFF),
      slab_units = (\<lambda>s l. 0xFFFFFFFF),
      pair_data = (\<lambda>p. (0, 0)),
      pair_heap = [0, 1, 2, 3],
      slab_heap = [0, 1]\<rparr>"

text \<open>\<open>table_empty\<close> after a warp has inserted (1, 10) with lane 0: record 0 holds (1, 10) and
  sits in pair slot 0 of the head slab of bucket 0.\<close>

definition table_1 :: "(32 word, 32 word) device" where
  "table_1 =
     store (table_empty\<lparr>pair_heap := [1, 2, 3],
                         pair_data := (pair_data table_empty)(0 := (1, 10))\<rparr>)
       (list_head_unit 0 0) 0"

subsection \<open>The load factor\<close>

text \<open>
  Modelled from the spec: \<^verbatim>\<open>slab_alloc.h\<close> is not among the sources. Of the slab
  allocator the diagnostic reads \<^verbatim>\<open>NUM_MEM_BLOCKS_PER_SUPER_BLOCK_\<close>,
  \<^verbatim>\<open>num_super_blocks_\<close> and the bitmaps ("each memory block has a 32-bit bitmap");
  \<open>bitmap a i tid\<close> is the word behind \<^verbatim>\<open>get_ptr_for_bitmap(i, tid)\<close>. The two
  counts are taken as \<^verbatim>\<open>uint32_t\<close>, as is \<^verbatim>\<open>WARP_WIDTH\<close> (the sibling
  \<^verbatim>\<open>slab_hash.cuh\<close> declares \<^verbatim>\<open>static constexpr uint32_t WARP_WIDTH_ = 32\<close>).
\<close>

record SlabAllocContext =
  NUM_MEM_BLOCKS_PER_SUPER_BLOCK :: "32 word"
  num_super_blocks :: "32 word"
  bitmap :: "nat \<Rightarrow> nat \<Rightarrow> 32 word"

text \<open>
  \<^verbatim>\<open>bucket_count_kernel\<close>, one warp per bucket: \<open>wid\<close> is the warp
  (\<^verbatim>\<open>tid >> 5\<close>), \<open>src_unit_data\<close> is the per-lane word, \<open>count\<close> and \<open>next\<close> are
  the same in every lane. The loop follows the next pointers and does not return on a
  chain that never reaches \<^verbatim>\<open>EMPTY_SLAB_PTR\<close>.
\<close>

partial_function (option) bucket_count_loop ::
  "('k, 'v) device \<Rightarrow> 32 word \<Rightarrow> ptr_t \<Rightarrow> 32 word option" where
  "bucket_count_loop d count next =
     (if next \<noteq> EMPTY_SLAB_PTR then
        let src_unit_data = (\<lambda>lane_id. deref d (get_unit_ptr_from_list_nodes next lane_id))
        in bucket_count_loop d
             (count + of_nat (popc (ballot_sync PAIR_PTR_LANES_MASK
                                      (\<lambda>lane_id. src_unit_data lane_id \<noteq> EMPTY_PAIR_PTR))))
             (shfl_sync src_unit_data 31 32)
      else Some count)"

definition bucket_count_kernel ::
  "('k, 'v) device \<Rightarrow> (nat \<Rightarrow> 32 word) \<Rightarrow> 32 word \<Rightarrow> 32 word \<Rightarrow> (nat \<Rightarrow> 32 word) option" where
  "bucket_count_kernel d d_count_result n_buckets wid =
     (if wid \<ge> n_buckets then Some d_count_result
      else
        let src_unit_data = (\<lambda>lane_id. deref d (get_unit_ptr_from_list_head wid lane_id));
            count = 0 + of_nat (popc (ballot_sync PAIR_PTR_LANES_MASK
                                        (\<lambda>lane_id. src_unit_data lane_id \<noteq> EMPTY_PAIR_PTR)));
            next = shfl_sync src_unit_data 31 32
        in case bucket_count_loop d count next of
             None \<Rightarrow> None
           | Some count' \<Rightarrow> Some (d_count_result(unat wid := count')))"

text \<open>
  \<^verbatim>\<open>compute_stats_allocators\<close>, one thread: the \<^verbatim>\<open>atomicAdd\<close>s of the threads add
  up in any order.
\<close>

definition compute_stats_allocators ::
  "SlabAllocContext \<Rightarrow> (nat \<Rightarrow> 32 word) \<Rightarrow> 32 word \<Rightarrow> (nat \<Rightarrow> 32 word)" where
  "compute_stats_allocators a d_count_super_block tid =
     (let num_bitmaps = NUM_MEM_BLOCKS_PER_SUPER_BLOCK a * 32
      in if tid \<ge> num_bitmaps then d_count_super_block
         else fold (\<lambda>i c. c(i := c i + of_nat (popc (bitmap a i (unat tid)))))
                [0..<unat (num_super_blocks a)] d_count_super_block)"

text \<open>
  \<^verbatim>\<open>SlabHash::ComputeLoadFactor\<close>. A kernel launch \<^verbatim>\<open><<<num_blocks, blocksize>>>\<close> runs
  the kernel for every thread of the grid: for the warps \<open>0 ..< num_blocks * 4\<close> of
  \<^verbatim>\<open>bucket_count_kernel\<close> and the threads \<open>0 ..< num_cuda_blocks * 128\<close> of
  \<^verbatim>\<open>compute_stats_allocators\<close>; the table is not written meanwhile. The two
  \<^verbatim>\<open>int\<close> totals are 32-bit words; \<^verbatim>\<open>int * size_t\<close> converts the signed total to
  64 bits. The result is a \<^verbatim>\<open>double\<close>: the conversion \<^verbatim>\<open>double(size_t)\<close> and the
  division of two doubles are the parameters \<open>to_double\<close> and \<open>fdiv\<close>.
\<close>

definition ComputeLoadFactor ::
  "(64 word \<Rightarrow> 'f) \<Rightarrow> ('f \<Rightarrow> 'f \<Rightarrow> 'f) \<Rightarrow> nat \<Rightarrow> nat \<Rightarrow> 32 word \<Rightarrow> SlabAllocContext
     \<Rightarrow> ('k, 'v) device \<Rightarrow> 'f option" where
  "ComputeLoadFactor to_double fdiv sizeof_Key sizeof_Value n_buckets dynamic_alloc d =
     (let blocksize = 128 :: 32 word;
          num_blocks = (n_buckets * 32 + blocksize - 1) div blocksize
      in case fold (\<lambda>wid r. case r of None \<Rightarrow> None
                               | Some c \<Rightarrow> bucket_count_kernel d c n_buckets (of_nat wid))
                [0..<unat num_blocks * 4] (Some (\<lambda>_. 0)) of
           None \<Rightarrow> None
         | Some h_bucket_count \<Rightarrow>
             let total_elements_stored =
                   fold (\<lambda>i t. t + h_bucket_count i) [0..<unat n_buckets] (0 :: 32 word);
                 num_mem_units = NUM_MEM_BLOCKS_PER_SUPER_BLOCK dynamic_alloc * 32;
                 num_cuda_blocks = (num_mem_units + blocksize - 1) div blocksize;
                 h_count_super_blocks =
                   fold (\<lambda>tid c. compute_stats_allocators dynamic_alloc c (of_nat tid))
                     [0..<unat num_cuda_blocks * 128] (\<lambda>_. 0);
                 total_mem_units =
                   fold (\<lambda>i t. t + h_count_super_blocks i)
                     [0..<unat (num_super_blocks dynamic_alloc)] n_buckets
             in Some (fdiv
                  (to_double (scast total_elements_stored * of_nat (sizeof_Key + sizeof_Value)))
                  (to_double (ucast (total_mem_units * of_nat WARP_WIDTH) * of_nat 4))))"

text \<open>
  The quantities the spec names. \<open>is_chain d next ss\<close>: \<open>ss\<close> are the slabs reached from
  the next pointer \<open>next\<close>, up to the slab whose slot 31 is \<open>EMPTY_SLAB_PTR\<close>.
  \<open>count_pairs\<close>: the non-empty pair slots (lanes 0..30) of one slab.
  \<open>bucket_elements\<close>: those of the head slab of a bucket and of the slabs \<open>ss\<close>.
  \<open>set_bits\<close>: the set bits of the bitmaps \<open>0 ..< n\<close> of super block \<open>i\<close>.
\<close>

fun is_chain :: "('k, 'v) device \<Rightarrow> ptr_t \<Rightarrow> ptr_t list \<Rightarrow> bool" where
  "is_chain d next [] \<longleftrightarrow> next = EMPTY_SLAB_PTR"
| "is_chain d next (s # ss) \<longleftrightarrow> next = s \<and> s \<noteq> EMPTY_SLAB_PTR \<and> is_chain d (slab_units d s 31) ss"

definition count_pairs :: "(nat \<Rightarrow> ptr_t) \<Rightarrow> nat" where
  "count_pairs units = length (filter (\<lambda>l. units l \<noteq> EMPTY_PAIR_PTR) [0..<31])"

definition bucket_elements :: "('k, 'v) device \<Rightarrow> 32 word \<Rightarrow> ptr_t list \<Rightarrow> nat" where
  "bucket_elements d b ss =
     count_pairs (bucket_list_head d b) + sum_list (map (\<lambda>s. count_pairs (slab_units d s)) ss)"

definition set_bits :: "SlabAllocContext \<Rightarrow> nat \<Rightarrow> nat \<Rightarrow> nat" where
  "set_bits a n i = sum_list (map (\<lambda>tid. popc (bitmap a i tid)) [0..<n])"

definition total_elements :: "('k, 'v) device \<Rightarrow> 32 word \<Rightarrow> (nat \<Rightarrow> ptr_t list) \<Rightarrow> nat" where
  "total_elements d n_buckets nodes =
     sum_list (map (\<lambda>b. bucket_elements d (of_nat b) (nodes b)) [0..<unat n_buckets])"

definition total_slabs :: "SlabAllocContext \<Rightarrow> 32 word \<Rightarrow> nat" where
  "total_slabs a n_buckets =
     unat n_buckets +
     sum_list (map (set_bits a (unat (NUM_MEM_BLOCKS_PER_SUPER_BLOCK a * 32)))
                 [0..<unat (num_super_blocks a)])"

text \<open>An allocator with one super block of one memory block, whose first bitmap has bit 0
  set and whose other bitmaps are zero.\<close>

definition alloc_one :: SlabAllocContext where
  "alloc_one = \<lparr>NUM_MEM_BLOCKS_PER_SUPER_BLOCK = 1, num_super_blocks = 1,
                bitmap = (\<lambda>i tid. if tid = 0 then 1 else 0)\<rparr>"

text \<open>
  Another warp that holds pair record 3 with (7, 70) publishes it in pair slot 1 of the
  head slab of bucket 0, by the CAS of Branch 2.
\<close>

definition take_slot_1 :: "(32 word, 32 word) device \<Rightarrow> (32 word, 32 word) device" where
  "take_slot_1 d =
     snd (atomicCAS (d\<lparr>pair_data := (pair_data d)(3 := (7, 70)),
                       pair_heap := removeAll 3 (pair_heap d)\<rparr>)
            (list_head_unit 0 1) EMPTY_PAIR_PTR 3)"

text \<open>
  For concrete runs of \<open>ComputeLoadFactor\<close>: \<open>operand\<close> keeps the integer that is converted
  to \<^verbatim>\<open>double\<close>, so that with list append for the division the result lists the
  numerator and the denominator. \<open>no_nodes\<close>: every chain is its head slab alone.
\<close>

definition operand :: "64 word \<Rightarrow> nat list" where
  "operand w = [unat w]"

definition no_nodes :: "nat \<Rightarrow> ptr_t list" where
  "no_nodes b = []"

section \<open>Properties of the warp primitives\<close>

lemma bit_ballot_sync: "bit (ballot_sync m p) i \<longleftrightarrow> i < 32 \<and> bit m i \<and> p i"
  by (auto simp add: ballot_sync_def bit_horner_sum_bit_word_iff)

lemma ballot_sync_eq_0_iff: "ballot_sync m p = 0 \<longleftrightarrow> (\<forall>i<32. \<not> (bit m i \<and> p i))"
  by (auto simp add: bit_eq_iff bit_ballot_sync)

lemma ballot_sync_eq_iff:
  "ballot_sync m p = ballot_sync m q \<longleftrightarrow> (\<forall>i<32. bit m i \<longrightarrow> p i = q i)"
  by (auto simp add: bit_eq_iff bit_ballot_sync)

lemma bit_ACTIVE_LANES_MASK: "bit ACTIVE_LANES_MASK i \<longleftrightarrow> i < 32"
proof -
  have "ACTIVE_LANES_MASK = mask 32" by (simp add: ACTIVE_LANES_MASK_def mask_eq_exp_minus_1)
  moreover have "bit (mask 32 :: 32 word) i \<longleftrightarrow> i < 32" by (simp only: bit_mask_iff) simp
  ultimately show ?thesis by (simp only:)
qed

lemma bit_PAIR_PTR_LANES_MASK: "bit PAIR_PTR_LANES_MASK i \<longleftrightarrow> i < 31"
proof -
  have "PAIR_PTR_LANES_MASK = mask 31" by (simp add: PAIR_PTR_LANES_MASK_def mask_eq_exp_minus_1)
  moreover have "bit (mask 31 :: 32 word) i \<longleftrightarrow> i < 31" by (simp only: bit_mask_iff) auto
  ultimately show ?thesis by (simp only:)
qed

lemma find_upt_None: "find P [0..<n] = None \<longleftrightarrow> (\<forall>i<n. \<not> P i)"
  by (auto simp add: find_None_iff)

lemma find_upt_Some: "find P [0..<n] = Some i \<longleftrightarrow> i < n \<and> P i \<and> (\<forall>j<i. \<not> P j)"
  by (auto simp add: find_Some_iff)

lemma word32_eq_0_iff: "(w :: 32 word) = 0 \<longleftrightarrow> (\<forall>i<32. \<not> bit w i)"
  by (auto simp add: bit_eq_iff dest: bit_imp_le_length)

lemma ffs_eq_0_iff: "ffs w = 0 \<longleftrightarrow> w = 0"
  by (auto simp add: ffs_def find_upt_None find_upt_Some word32_eq_0_iff split: option.splits)

lemma ffs_lane:
  assumes "w \<noteq> 0"
  shows "nat (ffs w - 1) < 32" and "bit w (nat (ffs w - 1))" and "\<forall>j < nat (ffs w - 1). \<not> bit w j"
    and "ffs w - 1 \<ge> 0"
proof -
  from assms obtain i where i: "find (bit w) [0..<32] = Some i"
    by (cases "find (bit w) [0..<32]") (auto simp add: find_upt_None word32_eq_0_iff)
  then have "ffs w - 1 = int i" by (simp add: ffs_def)
  with i show "nat (ffs w - 1) < 32" "bit w (nat (ffs w - 1))" "\<forall>j < nat (ffs w - 1). \<not> bit w j" "ffs w - 1 \<ge> 0"
    by (simp_all add: find_upt_Some)
qed

lemma ffs_nonneg: "ffs w \<ge> 0"
  by (simp add: ffs_def split: option.splits)

lemma ffs_minus_1_nonneg: "ffs w - 1 \<ge> 0 \<longleftrightarrow> w \<noteq> 0"
  using ffs_nonneg[of w] ffs_eq_0_iff[of w] by linarith


lemma select_lane_in_mask:
  assumes "i < 32"
  shows "(2 ^ i AND PAIR_PTR_LANES_MASK) \<noteq> 0 \<longleftrightarrow> i < 31"
proof -
  have e: "bit (2 ^ i :: 32 word) n \<longleftrightarrow> n = i \<and> i < 32" for n
    by (auto simp add: bit_exp_iff)
  have b: "bit (2 ^ i AND PAIR_PTR_LANES_MASK) n \<longleftrightarrow> n = i \<and> i < 31" for n
    using assms by (auto simp add: bit_and_iff bit_PAIR_PTR_LANES_MASK e)
  show ?thesis
  proof
    assume "2 ^ i AND PAIR_PTR_LANES_MASK \<noteq> 0"
    then obtain n where "bit (2 ^ i AND PAIR_PTR_LANES_MASK) n"
      by (auto simp add: word32_eq_0_iff)
    then show "i < 31" by (simp add: b)
  next
    assume "i < 31"
    then have "bit (2 ^ i AND PAIR_PTR_LANES_MASK) i" by (simp add: b)
    then show "2 ^ i AND PAIR_PTR_LANES_MASK \<noteq> 0" by auto
  qed
qed

lemma bit_WarpFindKey_ballot:
  "bit (ballot_sync PAIR_PTR_LANES_MASK
            (\<lambda>lane_id. (push_bit lane_id 1 AND PAIR_PTR_LANES_MASK) \<noteq> 0
                        \<and> ptr lane_id \<noteq> EMPTY_PAIR_PTR
                        \<and> fst (extract d (ptr lane_id)) = key)) i
   \<longleftrightarrow> i < 31 \<and> ptr i \<noteq> EMPTY_PAIR_PTR \<and> fst (pair_data d (ptr i)) = key"
  using select_lane_in_mask[of i]
  by (auto simp add: bit_ballot_sync bit_PAIR_PTR_LANES_MASK extract_def)

lemma ffs_find:
  assumes "\<And>i. bit w i \<longleftrightarrow> i < n \<and> P i" and "n \<le> 32"
  shows "ffs w - 1 = (case find P [0..<n] of None \<Rightarrow> - 1 | Some l \<Rightarrow> int l)"
proof (cases "find P [0..<n]")
  case None
  then have "w = 0" using assms by (auto simp add: find_upt_None word32_eq_0_iff)
  with None show ?thesis by (simp add: ffs_eq_0_iff)
next
  case (Some l)
  then have l: "l < n" "P l" "\<forall>j<l. \<not> P j" by (simp_all add: find_upt_Some)
  then have "find (bit w) [0..<32] = Some l"
    using assms by (auto simp add: find_upt_Some)
  with Some show ?thesis by (simp add: ffs_def)
qed

lemma WarpFindKey_lowest_match:
  "WarpFindKey d key units = (case lowest_match d key units of None \<Rightarrow> - 1 | Some l \<Rightarrow> int l)"
  unfolding WarpFindKey_def lowest_match_def
  by (rule ffs_find) (simp_all del: push_bit_of_1 add: bit_WarpFindKey_ballot slot_matches_def)

lemma WarpFindEmpty_lowest_empty:
  "WarpFindEmpty units = (case lowest_empty units of None \<Rightarrow> - 1 | Some l \<Rightarrow> int l)"
  unfolding WarpFindEmpty_def lowest_empty_def
  by (rule ffs_find) (auto simp add: bit_ballot_sync bit_PAIR_PTR_LANES_MASK)

lemma src_lane_lowest_active:
  "ffs (ballot_sync ACTIVE_LANES_MASK active) - 1 =
     (case lowest_active active of None \<Rightarrow> - 1 | Some l \<Rightarrow> int l)"
  unfolding lowest_active_def
  by (rule ffs_find) (auto simp add: bit_ballot_sync bit_ACTIVE_LANES_MASK)

lemma work_queue_eq_0_iff:
  "ballot_sync ACTIVE_LANES_MASK active = 0 \<longleftrightarrow> lowest_active active = None"
  by (auto simp add: ballot_sync_eq_0_iff bit_ACTIVE_LANES_MASK lowest_active_def find_upt_None)

section \<open>The bucket index\<close>

text \<open>
  C9. The bucket index of a key is \<open>hash key mod num_buckets\<close>; with the built-in hash
  it is \<open>((x XOR key) + y) mod 4294967291\<close> taken in 32-bit arithmetic (the sum wraps
  modulo \<open>2 ^ 32\<close> first), then \<open>mod num_buckets\<close>. For a table with at least one
  bucket the index is below \<open>num_buckets\<close>, and equal keys give equal indices.
\<close>

theorem ComputeBucket_index:
  "ComputeBucket ctx key =
     (if num_buckets ctx = 0 then None else Some (hash_fn ctx key mod num_buckets ctx))
   \<and> (num_buckets ctx \<noteq> 0 \<longrightarrow>
        (\<exists>b. ComputeBucket ctx key = Some b \<and> b < num_buckets ctx
             \<and> unat b = unat (hash_fn ctx key) mod unat (num_buckets ctx)))
   \<and> (key = key' \<longrightarrow> ComputeBucket ctx key = ComputeBucket ctx key')
   \<and> (gpu_num_buckets g \<noteq> 0 \<longrightarrow>
        (\<exists>b. computeBucket g k = Some b \<and> b = gpu_hash g k mod gpu_num_buckets g
             \<and> b < gpu_num_buckets g
             \<and> unat b = unat (gpu_hash g k) mod unat (gpu_num_buckets g)))
   \<and> unat (gpu_hash g k) = ((unat (hash_x g XOR k) + unat (hash_y g)) mod 2 ^ 32) mod 4294967291
   \<and> (k = k' \<longrightarrow> computeBucket g k = computeBucket g k')"
proof -
  have lt: "x mod y < y" if "y \<noteq> 0" for x y :: "32 word"
    using that by (simp add: word_mod_less_divisor word_neq_0_conv)
  have h: "unat (gpu_hash g k) = ((unat (hash_x g XOR k) + unat (hash_y g)) mod 2 ^ 32) mod 4294967291"
    by (simp add: gpu_hash_def PRIME_DIVISOR_def unat_mod unat_word_ariths)
  show ?thesis
    using h by (simp add: ComputeBucket_def computeBucket_def gpu_hash_def lt unat_mod)
qed

theorem ComputeBucket_index_witness:
  "num_buckets \<lparr>num_buckets = 7, hash_fn = (\<lambda>k::32 word. k + 3), HEAD_SLAB_PTR = 0xFFFFFFFE, NULL_ITERATOR = 0xFFFFFFFF\<rparr> \<noteq> 0
   \<and> ComputeBucket \<lparr>num_buckets = 7, hash_fn = (\<lambda>k::32 word. k + 3), HEAD_SLAB_PTR = 0xFFFFFFFE, NULL_ITERATOR = 0xFFFFFFFF\<rparr> 10 = Some 6
   \<and> gpu_num_buckets \<lparr>gpu_num_buckets = 7, hash_x = 0, hash_y = 1\<rparr> \<noteq> 0
   \<and> computeBucket \<lparr>gpu_num_buckets = 7, hash_x = 0, hash_y = 1\<rparr> 0xFFFFFFFF = Some 0
   \<and> unat (gpu_hash \<lparr>gpu_num_buckets = 7, hash_x = 0, hash_y = 1\<rparr> 0xFFFFFFFF) = 0"
  using ComputeBucket_index [of "\<lparr>num_buckets = 7, hash_fn = (\<lambda>k::32 word. k + 3), HEAD_SLAB_PTR = 0xFFFFFFFE, NULL_ITERATOR = 0xFFFFFFFF\<rparr>"
      10 10 "\<lparr>gpu_num_buckets = 7, hash_x = 0, hash_y = 1\<rparr>" "0xFFFFFFFF" "0xFFFFFFFF"]
  by (simp add: unat_eq_0)

section \<open>Search\<close>

lemma yield_Nil [simp]: "yield [] d = ([], d)"
  by (simp add: yield_def)

lemma yield_Cons [simp]: "yield (e # es) d = (es, e d)"
  by (simp add: yield_def)

lemma lowest_active_Some:
  assumes "lowest_active active = Some s"
  shows "s < 32" and "active s" and "\<forall>j. j < s \<longrightarrow> \<not> active j"
    and "ballot_sync ACTIVE_LANES_MASK active \<noteq> 0"
    and "nat (ffs (ballot_sync ACTIVE_LANES_MASK active) - 1) = s"
  using assms
  by (simp_all add: src_lane_lowest_active work_queue_eq_0_iff)
     (simp_all add: lowest_active_def find_upt_Some)

lemma lowest_match_Some:
  assumes "lowest_match d key units = Some l"
  shows "l < 31" and "slot_matches d key units l" and "\<forall>j<l. \<not> slot_matches d key units j"
  using assms by (simp_all add: lowest_match_def find_upt_Some)

lemma shfl_sync_lane [simp]: "l < 32 \<Longrightarrow> shfl_sync var l WARP_WIDTH = var l"
  by (simp add: shfl_sync_def WARP_WIDTH_def)

lemma Search_loop_done:
  "lowest_active (lane_active st) = None \<Longrightarrow> Search_loop ctx bucket_id key es st d = Some (st, es, d)"
  by (subst Search_loop.simps) (simp add: work_queue_eq_0_iff)

lemma Search_loop_step:
  "lowest_active (lane_active st) = Some s \<Longrightarrow>
   Search_loop ctx bucket_id key [] st d =
   Search_loop ctx bucket_id key []
     (Search_body ctx bucket_id key (ballot_sync ACTIVE_LANES_MASK (lane_active st)) st d) d"
  by (subst Search_loop.simps) (simp add: work_queue_eq_0_iff)

lemma Search_body_found:
  assumes "lowest_active (lane_active st) = Some s"
    and "wq = ballot_sync ACTIVE_LANES_MASK (lane_active st)"
    and "c = (if prev_work_queue st \<noteq> wq then HEAD_SLAB_PTR ctx else curr_slab_ptr st)"
    and "lowest_match d (key s) (read_unit_data ctx d c (bucket_id s)) = Some l"
  shows "Search_body ctx bucket_id key wq st d =
         search_done st s wq (Some (read_unit_data ctx d c (bucket_id s) l), c)"
proof -
  note a = lowest_active_Some[OF assms(1)]
  from lowest_match_Some(1)[OF assms(4)] have l: "l < 32" by simp
  show ?thesis
    using assms(2-4) a l
    by (simp add: Search_body_def Let_def WarpSyncKey_def WarpFindKey_lowest_match search_done_def)
qed

lemma Search_body_not_found:
  assumes "lowest_active (lane_active st) = Some s"
    and "wq = ballot_sync ACTIVE_LANES_MASK (lane_active st)"
    and "c = (if prev_work_queue st \<noteq> wq then HEAD_SLAB_PTR ctx else curr_slab_ptr st)"
    and "lowest_match d (key s) (read_unit_data ctx d c (bucket_id s)) = None"
  shows "Search_body ctx bucket_id key wq st d =
         (if read_unit_data ctx d c (bucket_id s) 31 = EMPTY_SLAB_PTR then search_done st s wq (None, c)
          else st\<lparr>prev_work_queue := wq, curr_slab_ptr := read_unit_data ctx d c (bucket_id s) 31\<rparr>)"
proof -
  note a = lowest_active_Some[OF assms(1)]
  show ?thesis
    using assms(2-4) a
    by (simp add: Search_body_def Let_def WarpSyncKey_def WarpFindKey_lowest_match search_done_def
        NEXT_SLAB_PTR_LANE_def)
qed

lemma Search_walk:
  assumes "lowest_active (lane_active st) = Some s"
    and "wq = ballot_sync ACTIVE_LANES_MASK (lane_active st)"
    and "c = (if prev_work_queue st \<noteq> wq then HEAD_SLAB_PTR ctx else curr_slab_ptr st)"
    and "chain_from ctx d (bucket_id s) c ss"
  shows "Search_loop ctx bucket_id key [] st d =
         Search_loop ctx bucket_id key []
           (search_done st s wq (chain_lookup ctx d (bucket_id s) (key s) c ss)) d"
  using assms
proof (induction ss arbitrary: st c)
  case Nil
  have L: "Search_loop ctx bucket_id key [] st d =
           Search_loop ctx bucket_id key [] (Search_body ctx bucket_id key wq st d) d"
    unfolding Nil(2) by (rule Search_loop_step[OF Nil(1)])
  from Nil(4) have nx: "read_unit_data ctx d c (bucket_id s) 31 = EMPTY_SLAB_PTR" by simp
  show ?case
  proof (cases "lowest_match d (key s) (read_unit_data ctx d c (bucket_id s))")
    case None
    have B: "Search_body ctx bucket_id key wq st d = search_done st s wq (None, c)"
      using Search_body_not_found[where key=key and bucket_id=bucket_id, OF Nil(1-3) None] nx
      by simp
    show ?thesis unfolding L B using None by simp
  next
    case (Some l)
    show ?thesis unfolding L Search_body_found[where key=key and bucket_id=bucket_id, OF Nil(1-3) Some]
      using Some by simp
  qed
next
  case (Cons s' ss)
  have L: "Search_loop ctx bucket_id key [] st d =
           Search_loop ctx bucket_id key [] (Search_body ctx bucket_id key wq st d) d"
    unfolding Cons.prems(2) by (rule Search_loop_step[OF Cons.prems(1)])
  show ?case
  proof (cases "lowest_match d (key s) (read_unit_data ctx d c (bucket_id s))")
    case (Some l)
    show ?thesis
      unfolding L Search_body_found[where key=key and bucket_id=bucket_id, OF Cons.prems(1-3) Some]
      using Some by simp
  next
    case None
    let ?st1 = "st\<lparr>prev_work_queue := wq, curr_slab_ptr := s'\<rparr>"
    from Cons.prems(4) have nx: "read_unit_data ctx d c (bucket_id s) 31 = s'" "s' \<noteq> EMPTY_SLAB_PTR"
      and ch: "chain_from ctx d (bucket_id s) s' ss" by simp_all
    have B: "Search_body ctx bucket_id key wq st d = ?st1"
      using Search_body_not_found[where key=key and bucket_id=bucket_id, OF Cons.prems(1-3) None] nx
      by simp
    have "Search_loop ctx bucket_id key [] ?st1 d =
          Search_loop ctx bucket_id key []
            (search_done ?st1 s wq (chain_lookup ctx d (bucket_id s) (key s) s' ss)) d"
    proof (rule Cons.IH)
      show "lowest_active (lane_active ?st1) = Some s" using Cons.prems(1) by simp
      show "wq = ballot_sync ACTIVE_LANES_MASK (lane_active ?st1)" using Cons.prems(2) by simp
      show "s' = (if prev_work_queue ?st1 \<noteq> wq then HEAD_SLAB_PTR ctx else curr_slab_ptr ?st1)"
        by simp
      show "chain_from ctx d (bucket_id s) s' ss" by (rule ch)
    qed
    moreover have "search_done ?st1 s wq r = search_done st s wq r" for r
      by (cases "fst r") (simp_all add: search_done_def)
    ultimately show ?thesis unfolding L B using None by simp
  qed
qed


lemma lowest_active_None: "lowest_active active = None \<longleftrightarrow> (\<forall>l<32. \<not> active l)"
  by (simp add: lowest_active_def find_upt_None)

lemma search_done_simps [simp]:
  "lane_active (search_done st s wq r) = (lane_active st)(s := False)"
  "prev_work_queue (search_done st s wq r) = wq"
  "curr_slab_ptr (search_done st s wq r) = snd r"
  "iterator (search_done st s wq r) l =
     (if l = s then (case fst r of Some p \<Rightarrow> p | None \<Rightarrow> iterator st l) else iterator st l)"
  "found_mask (search_done st s wq r) l =
     (if l = s then (case fst r of Some p \<Rightarrow> True | None \<Rightarrow> found_mask st l) else found_mask st l)"
  by (cases "fst r"; simp add: search_done_def)+

lemma Search_loop_all:
  assumes "\<forall>l<32. lane_active st l \<longrightarrow>
             chain_from ctx d (bucket_id l) (HEAD_SLAB_PTR ctx) (nodes l)"
    and "lowest_active (lane_active st) \<noteq> None \<longrightarrow>
           prev_work_queue st \<noteq> ballot_sync ACTIVE_LANES_MASK (lane_active st)"
  shows "\<exists>st'. Search_loop ctx bucket_id key [] st d = Some (st', [], d) \<and>
      (\<forall>l<32. \<not> lane_active st' l \<and>
         iterator st' l =
           (if lane_active st l
            then (case fst (chain_lookup ctx d (bucket_id l) (key l) (HEAD_SLAB_PTR ctx) (nodes l))
                  of Some p \<Rightarrow> p | None \<Rightarrow> iterator st l)
            else iterator st l) \<and>
         found_mask st' l =
           (if lane_active st l
            then (case fst (chain_lookup ctx d (bucket_id l) (key l) (HEAD_SLAB_PTR ctx) (nodes l))
                  of Some p \<Rightarrow> True | None \<Rightarrow> found_mask st l)
            else found_mask st l))"
  using assms
proof (induction "card {l. l < 32 \<and> lane_active st l}" arbitrary: st)
  case 0
  have "finite {l. l < 32 \<and> lane_active st l}" by simp
  with 0(1) have "{l. l < 32 \<and> lane_active st l} = {}" by simp
  then have none: "\<forall>l<32. \<not> lane_active st l" by blast
  then have "lowest_active (lane_active st) = None" by (simp add: lowest_active_None)
  then have "Search_loop ctx bucket_id key [] st d = Some (st, [], d)" by (rule Search_loop_done)
  with none show ?case by simp
next
  case (Suc n)
  let ?A = "{l. l < 32 \<and> lane_active st l}"
  let ?wq = "ballot_sync ACTIVE_LANES_MASK (lane_active st)"
  from Suc(2) have "card ?A = Suc n" by (rule sym)
  then have "?A \<noteq> {}" by (metis card.empty nat.distinct(1))
  then have "lowest_active (lane_active st) \<noteq> None" by (auto simp add: lowest_active_None)
  then obtain s where s: "lowest_active (lane_active st) = Some s" by auto
  note a = lowest_active_Some[OF s]
  from Suc.prems(2) s have pv: "prev_work_queue st \<noteq> ?wq" by simp
  let ?r = "chain_lookup ctx d (bucket_id s) (key s) (HEAD_SLAB_PTR ctx) (nodes s)"
  let ?st1 = "search_done st s ?wq ?r"
  have W: "Search_loop ctx bucket_id key [] st d = Search_loop ctx bucket_id key [] ?st1 d"
  proof (rule Search_walk[OF s refl])
    show "HEAD_SLAB_PTR ctx = (if prev_work_queue st \<noteq> ?wq then HEAD_SLAB_PTR ctx else curr_slab_ptr st)"
      using pv by simp
    show "chain_from ctx d (bucket_id s) (HEAD_SLAB_PTR ctx) (nodes s)"
      using Suc.prems(1) a(1,2) by simp
  qed
  have A1: "{l. l < 32 \<and> lane_active ?st1 l} = ?A - {s}" by auto
  have "s \<in> ?A" using a(1,2) by simp
  with Suc(2) A1 have card: "n = card {l. l < 32 \<and> lane_active ?st1 l}" by simp
  have ne: "prev_work_queue ?st1 \<noteq> ballot_sync ACTIVE_LANES_MASK (lane_active ?st1)"
    using a(1,2) by (auto simp add: ballot_sync_eq_iff bit_ACTIVE_LANES_MASK)
  have "\<exists>st'. Search_loop ctx bucket_id key [] ?st1 d = Some (st', [], d) \<and>
      (\<forall>l<32. \<not> lane_active st' l \<and>
         iterator st' l =
           (if lane_active ?st1 l
            then (case fst (chain_lookup ctx d (bucket_id l) (key l) (HEAD_SLAB_PTR ctx) (nodes l))
                  of Some p \<Rightarrow> p | None \<Rightarrow> iterator ?st1 l)
            else iterator ?st1 l) \<and>
         found_mask st' l =
           (if lane_active ?st1 l
            then (case fst (chain_lookup ctx d (bucket_id l) (key l) (HEAD_SLAB_PTR ctx) (nodes l))
                  of Some p \<Rightarrow> True | None \<Rightarrow> found_mask ?st1 l)
            else found_mask ?st1 l))"
  proof (rule Suc(1)[OF card])
    show "\<forall>l<32. lane_active ?st1 l \<longrightarrow> chain_from ctx d (bucket_id l) (HEAD_SLAB_PTR ctx) (nodes l)"
      using Suc.prems(1) by simp
    show "lowest_active (lane_active ?st1) \<noteq> None \<longrightarrow>
          prev_work_queue ?st1 \<noteq> ballot_sync ACTIVE_LANES_MASK (lane_active ?st1)"
      using ne by simp
  qed
  then obtain st' where st': "Search_loop ctx bucket_id key [] ?st1 d = Some (st', [], d)"
    and r: "\<forall>l<32. \<not> lane_active st' l \<and>
         iterator st' l =
           (if lane_active ?st1 l
            then (case fst (chain_lookup ctx d (bucket_id l) (key l) (HEAD_SLAB_PTR ctx) (nodes l))
                  of Some p \<Rightarrow> p | None \<Rightarrow> iterator ?st1 l)
            else iterator ?st1 l) \<and>
         found_mask st' l =
           (if lane_active ?st1 l
            then (case fst (chain_lookup ctx d (bucket_id l) (key l) (HEAD_SLAB_PTR ctx) (nodes l))
                  of Some p \<Rightarrow> True | None \<Rightarrow> found_mask ?st1 l)
            else found_mask ?st1 l)" by blast
  have "\<forall>l<32. \<not> lane_active st' l \<and>
         iterator st' l =
           (if lane_active st l
            then (case fst (chain_lookup ctx d (bucket_id l) (key l) (HEAD_SLAB_PTR ctx) (nodes l))
                  of Some p \<Rightarrow> p | None \<Rightarrow> iterator st l)
            else iterator st l) \<and>
         found_mask st' l =
           (if lane_active st l
            then (case fst (chain_lookup ctx d (bucket_id l) (key l) (HEAD_SLAB_PTR ctx) (nodes l))
                  of Some p \<Rightarrow> True | None \<Rightarrow> found_mask st l)
            else found_mask st l)"
  proof (intro allI impI)
    fix l :: nat assume l: "l < 32"
    show "\<not> lane_active st' l \<and>
         iterator st' l =
           (if lane_active st l
            then (case fst (chain_lookup ctx d (bucket_id l) (key l) (HEAD_SLAB_PTR ctx) (nodes l))
                  of Some p \<Rightarrow> p | None \<Rightarrow> iterator st l)
            else iterator st l) \<and>
         found_mask st' l =
           (if lane_active st l
            then (case fst (chain_lookup ctx d (bucket_id l) (key l) (HEAD_SLAB_PTR ctx) (nodes l))
                  of Some p \<Rightarrow> True | None \<Rightarrow> found_mask st l)
            else found_mask st l)"
      using r[rule_format, OF l] a(2) by (cases "l = s") (simp_all cong: option.case_cong)
  qed
  with W st' show ?case by simp
qed


lemma Search_returns_lookup:
  assumes "\<forall>l<32. to_search l \<longrightarrow> chain_from ctx d (bucket_id l) (HEAD_SLAB_PTR ctx) (nodes l)"
  shows "\<exists>st'. Search ctx to_search bucket_id key [] d = Some (st', [], d) \<and>
      (\<forall>l<32. \<not> lane_active st' l \<and>
         (iterator st' l, found_mask st' l) =
           (if to_search l
            then (case fst (chain_lookup ctx d (bucket_id l) (key l) (HEAD_SLAB_PTR ctx) (nodes l))
                  of Some p \<Rightarrow> (p, True) | None \<Rightarrow> (NULL_ITERATOR ctx, False))
            else (NULL_ITERATOR ctx, False)))"
proof -
  let ?st0 = "\<lparr>lane_active = to_search, iterator = (\<lambda>_. NULL_ITERATOR ctx),
               found_mask = (\<lambda>_. False), prev_work_queue = 0,
               curr_slab_ptr = HEAD_SLAB_PTR ctx\<rparr>"
  have p: "lowest_active (lane_active ?st0) \<noteq> None \<longrightarrow>
           prev_work_queue ?st0 \<noteq> ballot_sync ACTIVE_LANES_MASK (lane_active ?st0)"
    using work_queue_eq_0_iff[of to_search] by auto
  have c: "\<forall>l<32. lane_active ?st0 l \<longrightarrow> chain_from ctx d (bucket_id l) (HEAD_SLAB_PTR ctx) (nodes l)"
    using assms by simp
  from Search_loop_all[where key=key, OF c p] obtain st'
    where L: "Search_loop ctx bucket_id key [] ?st0 d = Some (st', [], d)"
      and r: "\<forall>l<32. \<not> lane_active st' l \<and>
         iterator st' l =
           (if lane_active ?st0 l
            then (case fst (chain_lookup ctx d (bucket_id l) (key l) (HEAD_SLAB_PTR ctx) (nodes l))
                  of Some p \<Rightarrow> p | None \<Rightarrow> iterator ?st0 l)
            else iterator ?st0 l) \<and>
         found_mask st' l =
           (if lane_active ?st0 l
            then (case fst (chain_lookup ctx d (bucket_id l) (key l) (HEAD_SLAB_PTR ctx) (nodes l))
                  of Some p \<Rightarrow> True | None \<Rightarrow> found_mask ?st0 l)
            else found_mask ?st0 l)" by blast
  have "\<forall>l<32. \<not> lane_active st' l \<and>
         (iterator st' l, found_mask st' l) =
           (if to_search l
            then (case fst (chain_lookup ctx d (bucket_id l) (key l) (HEAD_SLAB_PTR ctx) (nodes l))
                  of Some p \<Rightarrow> (p, True) | None \<Rightarrow> (NULL_ITERATOR ctx, False))
            else (NULL_ITERATOR ctx, False))"
  proof (intro allI impI)
    fix l :: nat assume "l < 32"
    from r[rule_format, OF this]
    show "\<not> lane_active st' l \<and>
         (iterator st' l, found_mask st' l) =
           (if to_search l
            then (case fst (chain_lookup ctx d (bucket_id l) (key l) (HEAD_SLAB_PTR ctx) (nodes l))
                  of Some p \<Rightarrow> (p, True) | None \<Rightarrow> (NULL_ITERATOR ctx, False))
            else (NULL_ITERATOR ctx, False))"
      by (cases "fst (chain_lookup ctx d (bucket_id l) (key l) (HEAD_SLAB_PTR ctx) (nodes l))")
         simp_all
  qed
  with L show ?thesis unfolding Search_def by blast
qed


lemma lowest_active_eqI:
  "s < 32 \<Longrightarrow> active s \<Longrightarrow> (\<And>j. j < s \<Longrightarrow> \<not> active j) \<Longrightarrow> lowest_active active = Some s"
  by (simp add: lowest_active_def find_upt_Some)

lemma lowest_match_eqI:
  "l < 31 \<Longrightarrow> slot_matches d key units l \<Longrightarrow> (\<And>j. j < l \<Longrightarrow> \<not> slot_matches d key units j)
   \<Longrightarrow> lowest_match d key units = Some l"
  by (simp add: lowest_match_def find_upt_Some)

lemma lowest_match_NoneI:
  "(\<And>j. j < 31 \<Longrightarrow> \<not> slot_matches d key units j) \<Longrightarrow> lowest_match d key units = None"
  by (simp add: lowest_match_def find_upt_None)

lemma lowest_empty_eqI:
  "l < 31 \<Longrightarrow> units l = EMPTY_PAIR_PTR \<Longrightarrow> (\<And>j. j < l \<Longrightarrow> units j \<noteq> EMPTY_PAIR_PTR)
   \<Longrightarrow> lowest_empty units = Some l"
  by (simp add: lowest_empty_def find_upt_Some)

lemma lowest_empty_NoneI:
  "(\<And>j. j < 31 \<Longrightarrow> units j \<noteq> EMPTY_PAIR_PTR) \<Longrightarrow> lowest_empty units = None"
  by (simp add: lowest_empty_def find_upt_None)

text \<open>
  C3. For every query key Search walks the chain of the key's bucket. When a pair slot
  (lanes 0..30) of the slab at hand holds a non-empty pair index whose record has the
  query key, the serviced lane returns the pair index of the lowest such slot with
  \<open>mask = true\<close>; when the chain ends in \<open>EMPTY_SLAB\<close> without a match it returns
  \<open>(NULL_ITERATOR, false)\<close>. A lane that is not to search returns \<open>(NULL_ITERATOR, false)\<close>
  too. The kernel then writes \<open>founds[tid] = 1\<close> and the stored value for a query that
  was found, and \<open>founds[tid] = 0\<close> and the value \<open>0\<close> otherwise. The run is that of one
  warp with no other warp writing the table meanwhile (empty schedule), on chains that
  end.
\<close>

theorem Search_lowest_match:
  "((\<forall>l<32. to_search l \<longrightarrow> chain_from ctx d (bucket_id l) (HEAD_SLAB_PTR ctx) (nodes l)) \<longrightarrow>
    (\<exists>st'. Search ctx to_search bucket_id key [] d = Some (st', [], d) \<and>
      (\<forall>l<32. \<not> lane_active st' l \<and>
         (iterator st' l, found_mask st' l) =
           (if to_search l
            then (case fst (chain_lookup ctx d (bucket_id l) (key l) (HEAD_SLAB_PTR ctx) (nodes l))
                  of Some p \<Rightarrow> (p, True) | None \<Rightarrow> (NULL_ITERATOR ctx, False))
            else (NULL_ITERATOR ctx, False)))))
   \<and> (tid0 < length keys \<and> num_buckets ctx \<noteq> 0
        \<and> length founds = length keys \<and> length vals = length keys
        \<and> (\<forall>l<32. tid0 + l < length keys \<longrightarrow>
              chain_from ctx d (hash_fn ctx (keys ! (tid0 + l)) mod num_buckets ctx)
                (HEAD_SLAB_PTR ctx) (nodes l)) \<longrightarrow>
       (\<exists>founds' vals'.
          SearchKernel ctx keys uninit tid0 [] d founds vals = Some (founds', vals', [], d) \<and>
          (\<forall>l<32. tid0 + l < length keys \<longrightarrow>
             (founds' ! (tid0 + l), vals' ! (tid0 + l)) =
               (case fst (chain_lookup ctx d (hash_fn ctx (keys ! (tid0 + l)) mod num_buckets ctx)
                            (keys ! (tid0 + l)) (HEAD_SLAB_PTR ctx) (nodes l))
                of Some p \<Rightarrow> (1, snd (pair_data d p)) | None \<Rightarrow> (0, 0)))))"
proof (intro conjI impI)
  assume "\<forall>l<32. to_search l \<longrightarrow> chain_from ctx d (bucket_id l) (HEAD_SLAB_PTR ctx) (nodes l)"
  then show "\<exists>st'. Search ctx to_search bucket_id key [] d = Some (st', [], d) \<and>
      (\<forall>l<32. \<not> lane_active st' l \<and>
         (iterator st' l, found_mask st' l) =
           (if to_search l
            then (case fst (chain_lookup ctx d (bucket_id l) (key l) (HEAD_SLAB_PTR ctx) (nodes l))
                  of Some p \<Rightarrow> (p, True) | None \<Rightarrow> (NULL_ITERATOR ctx, False))
            else (NULL_ITERATOR ctx, False)))"
    by (rule Search_returns_lookup)
next
  assume a: "tid0 < length keys \<and> num_buckets ctx \<noteq> 0
        \<and> length founds = length keys \<and> length vals = length keys
        \<and> (\<forall>l<32. tid0 + l < length keys \<longrightarrow>
              chain_from ctx d (hash_fn ctx (keys ! (tid0 + l)) mod num_buckets ctx)
                (HEAD_SLAB_PTR ctx) (nodes l))"
  let ?n = "length keys"
  let ?active = "\<lambda>lane_id. tid0 + lane_id < ?n"
  let ?key = "\<lambda>lane_id. if tid0 + lane_id < ?n then keys ! (tid0 + lane_id) else uninit lane_id"
  let ?bucket = "\<lambda>lane_id. if tid0 + lane_id < ?n then the (ComputeBucket ctx (?key lane_id)) else 0"
  have ch: "\<forall>l<32. ?active l \<longrightarrow> chain_from ctx d (?bucket l) (HEAD_SLAB_PTR ctx) (nodes l)"
    using a by (simp add: ComputeBucket_def)
  from Search_returns_lookup[where key="?key", OF ch] obtain st'
    where S: "Search ctx ?active ?bucket ?key [] d = Some (st', [], d)"
      and r: "\<forall>l<32. \<not> lane_active st' l \<and>
         (iterator st' l, found_mask st' l) =
           (if ?active l
            then (case fst (chain_lookup ctx d (?bucket l) (?key l) (HEAD_SLAB_PTR ctx) (nodes l))
                  of Some p \<Rightarrow> (p, True) | None \<Rightarrow> (NULL_ITERATOR ctx, False))
            else (NULL_ITERATOR ctx, False))" by blast
  let ?founds' = "map (\<lambda>tid. if tid0 \<le> tid \<and> tid < tid0 + 32 \<and> tid < ?n
                                    then of_bool (found_mask st' (tid - tid0)) else founds ! tid)
                          [0..<length founds]"
  let ?vals' = "map (\<lambda>tid. if tid0 \<le> tid \<and> tid < tid0 + 32 \<and> tid < ?n
                                    then (if found_mask st' (tid - tid0)
                                          then snd (extract d (iterator st' (tid - tid0))) else 0)
                                    else vals ! tid)
                          [0..<length vals]"
  have K: "SearchKernel ctx keys uninit tid0 [] d founds vals = Some (?founds', ?vals', [], d)"
    using a S by (simp add: SearchKernel_def Let_def)
  have "\<forall>l<32. tid0 + l < length keys \<longrightarrow>
             (?founds' ! (tid0 + l), ?vals' ! (tid0 + l)) =
               (case fst (chain_lookup ctx d (hash_fn ctx (keys ! (tid0 + l)) mod num_buckets ctx)
                            (keys ! (tid0 + l)) (HEAD_SLAB_PTR ctx) (nodes l))
                of Some p \<Rightarrow> (1, snd (pair_data d p)) | None \<Rightarrow> (0, 0))"
  proof (intro allI impI)
    fix l :: nat assume l: "l < 32" and t: "tid0 + l < length keys"
    from r[rule_format, OF l] t a
    show "(?founds' ! (tid0 + l), ?vals' ! (tid0 + l)) =
               (case fst (chain_lookup ctx d (hash_fn ctx (keys ! (tid0 + l)) mod num_buckets ctx)
                            (keys ! (tid0 + l)) (HEAD_SLAB_PTR ctx) (nodes l))
                of Some p \<Rightarrow> (1, snd (pair_data d p)) | None \<Rightarrow> (0, 0))"
      by (cases "fst (chain_lookup ctx d (hash_fn ctx (keys ! (tid0 + l)) mod num_buckets ctx)
                            (keys ! (tid0 + l)) (HEAD_SLAB_PTR ctx) (nodes l))")
         (simp_all add: ComputeBucket_def extract_def l)
  qed
  with K show "\<exists>founds' vals'.
          SearchKernel ctx keys uninit tid0 [] d founds vals = Some (founds', vals', [], d) \<and>
          (\<forall>l<32. tid0 + l < length keys \<longrightarrow>
             (founds' ! (tid0 + l), vals' ! (tid0 + l)) =
               (case fst (chain_lookup ctx d (hash_fn ctx (keys ! (tid0 + l)) mod num_buckets ctx)
                            (keys ! (tid0 + l)) (HEAD_SLAB_PTR ctx) (nodes l))
                of Some p \<Rightarrow> (1, snd (pair_data d p)) | None \<Rightarrow> (0, 0)))"
    by blast
qed


lemma table_one_head:
  "read_unit_data ctx1 table_one (HEAD_SLAB_PTR ctx1) b l = (if l = 0 then 0 else 0xFFFFFFFF)"
  by (simp add: read_unit_data_def ctx1_def table_one_def get_unit_ptr_from_list_head_def)

lemma table_one_lookup_1:
  "chain_lookup ctx1 table_one b 1 (HEAD_SLAB_PTR ctx1) [] = (Some 0, HEAD_SLAB_PTR ctx1)"
proof -
  have "lowest_match table_one 1 (read_unit_data ctx1 table_one (HEAD_SLAB_PTR ctx1) b) = Some 0"
    by (rule lowest_match_eqI) (simp_all add: slot_matches_def table_one_head EMPTY_PAIR_PTR_def, simp add: table_one_def)
  then show ?thesis by (simp add: table_one_head)
qed

lemma table_one_lookup_4:
  "chain_lookup ctx1 table_one b 4 (HEAD_SLAB_PTR ctx1) [] = (None, HEAD_SLAB_PTR ctx1)"
proof -
  have "lowest_match table_one 4 (read_unit_data ctx1 table_one (HEAD_SLAB_PTR ctx1) b) = None"
    by (rule lowest_match_NoneI) (simp add: slot_matches_def table_one_head EMPTY_PAIR_PTR_def table_one_def)
  then show ?thesis by simp
qed

theorem Search_lowest_match_witness:
  "chain_from ctx1 table_one 0 (HEAD_SLAB_PTR ctx1) []
   \<and> (\<exists>st'. Search ctx1 (\<lambda>l. l < 2) (\<lambda>l. 0) (\<lambda>l. if l = 0 then 1 else 4) [] table_one
              = Some (st', [], table_one)
            \<and> (iterator st' 0, found_mask st' 0) = (0, True)
            \<and> (iterator st' 1, found_mask st' 1) = (0xFFFFFFFF, False))
   \<and> (0 < length [1, 4 :: 32 word] \<and> num_buckets ctx1 \<noteq> 0)
   \<and> (\<exists>founds' vals'.
         SearchKernel ctx1 [1, 4] (\<lambda>l. 0) 0 [] table_one [7, 7] [9, 9]
           = Some (founds', vals', [], table_one)
         \<and> (founds' ! 0, vals' ! 0) = (1, 10) \<and> (founds' ! 1, vals' ! 1) = (0, 0))"
proof -
  have ch: "chain_from ctx1 table_one b (HEAD_SLAB_PTR ctx1) []" for b
    by (simp add: table_one_head EMPTY_SLAB_PTR_def)
  note T = Search_lowest_match[of "\<lambda>l. l < 2" ctx1 table_one "\<lambda>l. 0" "\<lambda>l. []"
      "\<lambda>l. if l = 0 then 1 else 4" 0 "[1, 4]" "[7, 7]" "[9, 9]" "\<lambda>l. 0"]
  have nb: "num_buckets ctx1 \<noteq> 0" by (simp add: ctx1_def)
  from T ch obtain st' where
    S: "Search ctx1 (\<lambda>l. l < 2) (\<lambda>l. 0) (\<lambda>l. if l = 0 then 1 else 4) [] table_one = Some (st', [], table_one)"
    and r: "\<forall>l<32. \<not> lane_active st' l \<and>
         (iterator st' l, found_mask st' l) =
           (if l < 2
            then (case fst (chain_lookup ctx1 table_one 0 (if l = 0 then 1 else 4) (HEAD_SLAB_PTR ctx1) [])
                  of Some p \<Rightarrow> (p, True) | None \<Rightarrow> (NULL_ITERATOR ctx1, False))
            else (NULL_ITERATOR ctx1, False))"
    by auto
  from r[rule_format, of 0] r[rule_format, of 1]
  have s: "(iterator st' 0, found_mask st' 0) = (0, True)"
          "(iterator st' 1, found_mask st' 1) = (0xFFFFFFFF, False)"
    by (simp_all add: table_one_lookup_1 table_one_lookup_4 del: chain_lookup.simps)
       (simp_all add: ctx1_def)
  from T ch nb obtain founds' vals' where
    K: "SearchKernel ctx1 [1, 4] (\<lambda>l. 0) 0 [] table_one [7, 7] [9, 9] = Some (founds', vals', [], table_one)"
    and k: "\<forall>l<32. 0 + l < length [1, 4 :: 32 word] \<longrightarrow>
             (founds' ! (0 + l), vals' ! (0 + l)) =
               (case fst (chain_lookup ctx1 table_one (hash_fn ctx1 ([1, 4] ! (0 + l)) mod num_buckets ctx1)
                            ([1, 4] ! (0 + l)) (HEAD_SLAB_PTR ctx1) [])
                of Some p \<Rightarrow> (1, snd (pair_data table_one p)) | None \<Rightarrow> (0, 0))"
    by auto
  from k[rule_format, of 0] k[rule_format, of 1]
  have f: "(founds' ! 0, vals' ! 0) = (1, 10)" "(founds' ! 1, vals' ! 1) = (0, 0)"
    by (simp_all add: table_one_lookup_1 table_one_lookup_4 del: chain_lookup.simps)
       (simp_all add: table_one_def)
  from ch S s nb K f show ?thesis by auto
qed

section \<open>Insert and Remove: one iteration\<close>

lemma lowest_empty_Some:
  assumes "lowest_empty units = Some l"
  shows "l < 31" and "units l = EMPTY_PAIR_PTR" and "\<forall>j. j < l \<longrightarrow> units j \<noteq> EMPTY_PAIR_PTR"
  using assms by (simp_all add: lowest_empty_def find_upt_Some)

lemma atomicCAS_eq:
  "atomicCAS d p c v = (deref d p, if deref d p = c then store d p v else d)"
  by (simp add: atomicCAS_def Let_def)

lemma Insert_body_duplicate:
  assumes "lowest_active (lane_active st) = Some s"
    and "wq = ballot_sync ACTIVE_LANES_MASK (lane_active st)"
    and "c = (if prev_work_queue st \<noteq> wq then HEAD_SLAB_PTR ctx else curr_slab_ptr st)"
    and "lowest_match d (key s) (read_unit_data ctx d c (bucket_id s)) = Some l"
  shows "Insert_body ctx bucket_id key pre wq es st d =
         Inr (st\<lparr>lane_active := (lane_active st)(s := False),
                 prev_work_queue := wq, curr_slab_ptr := c\<rparr>,
              fst (yield es d), Free (pre s) (snd (yield es d)))"
proof -
  note a = lowest_active_Some[OF assms(1)]
  show ?thesis
    using assms(2-4) a
    by (simp add: Insert_body_def Let_def WarpSyncKey_def WarpFindKey_lowest_match split_beta)
qed

lemma Insert_body_empty_slot:
  assumes "lowest_active (lane_active st) = Some s"
    and "wq = ballot_sync ACTIVE_LANES_MASK (lane_active st)"
    and "c = (if prev_work_queue st \<noteq> wq then HEAD_SLAB_PTR ctx else curr_slab_ptr st)"
    and "lowest_match d (key s) (read_unit_data ctx d c (bucket_id s)) = None"
    and "lowest_empty (read_unit_data ctx d c (bucket_id s)) = Some l"
  shows "Insert_body ctx bucket_id key pre wq es st d =
         (let d1 = snd (yield es d); p = unit_ptr_of ctx c (bucket_id s) l
          in if deref d1 p = EMPTY_PAIR_PTR
             then Inr (st\<lparr>lane_active := (lane_active st)(s := False),
                          iterator := (iterator st)(s := pre s),
                          found_mask := (found_mask st)(s := True),
                          prev_work_queue := wq, curr_slab_ptr := c\<rparr>,
                       fst (yield es d), store d1 p (pre s))
             else Inr (st\<lparr>prev_work_queue := wq, curr_slab_ptr := c\<rparr>, fst (yield es d), d1))"
proof -
  note a = lowest_active_Some[OF assms(1)]
  show ?thesis
    using assms(2-5) a
    by (simp add: Insert_body_def Let_def WarpSyncKey_def WarpFindKey_lowest_match
        WarpFindEmpty_lowest_empty split_beta atomicCAS_eq)
qed

lemma Insert_body_next_slab:
  assumes "lowest_active (lane_active st) = Some s"
    and "wq = ballot_sync ACTIVE_LANES_MASK (lane_active st)"
    and "c = (if prev_work_queue st \<noteq> wq then HEAD_SLAB_PTR ctx else curr_slab_ptr st)"
    and "lowest_match d (key s) (read_unit_data ctx d c (bucket_id s)) = None"
    and "lowest_empty (read_unit_data ctx d c (bucket_id s)) = None"
    and "read_unit_data ctx d c (bucket_id s) 31 \<noteq> EMPTY_SLAB_PTR"
  shows "Insert_body ctx bucket_id key pre wq es st d =
         Inr (st\<lparr>prev_work_queue := wq,
                 curr_slab_ptr := read_unit_data ctx d c (bucket_id s) 31\<rparr>, es, d)"
proof -
  note a = lowest_active_Some[OF assms(1)]
  show ?thesis
    using assms(2-6) a
    by (simp add: Insert_body_def Let_def WarpSyncKey_def WarpFindKey_lowest_match
        WarpFindEmpty_lowest_empty NEXT_SLAB_PTR_LANE_def)
qed

lemma Insert_body_extend:
  assumes "lowest_active (lane_active st) = Some s"
    and "wq = ballot_sync ACTIVE_LANES_MASK (lane_active st)"
    and "c = (if prev_work_queue st \<noteq> wq then HEAD_SLAB_PTR ctx else curr_slab_ptr st)"
    and "lowest_match d (key s) (read_unit_data ctx d c (bucket_id s)) = None"
    and "lowest_empty (read_unit_data ctx d c (bucket_id s)) = None"
    and "read_unit_data ctx d c (bucket_id s) 31 = EMPTY_SLAB_PTR"
  shows "Insert_body ctx bucket_id key pre wq es st d =
         (let (es1, d1) = yield es d
          in case AllocateSlab d1 of
               None \<Rightarrow> Inl OutOfSlabs
             | Some (new_slab, d2) \<Rightarrow>
                 let p = unit_ptr_of ctx c (bucket_id s) 31;
                     (es2, d3) = yield es1 d2
                 in if deref d3 p \<noteq> EMPTY_SLAB_PTR
                    then Inr (st\<lparr>prev_work_queue := wq, curr_slab_ptr := c\<rparr>,
                              fst (yield es2 d3), FreeSlab new_slab (snd (yield es2 d3)))
                    else Inr (st\<lparr>prev_work_queue := wq, curr_slab_ptr := c\<rparr>,
                              es2, store d3 p new_slab))"
proof -
  note a = lowest_active_Some[OF assms(1)]
  show ?thesis
    using assms(2-6) a
    by (simp add: Insert_body_def Let_def WarpSyncKey_def WarpFindKey_lowest_match
        WarpFindEmpty_lowest_empty NEXT_SLAB_PTR_LANE_def split_beta atomicCAS_eq
        split: option.splits)
qed

lemma Remove_body_found:
  assumes "lowest_active (lane_active st) = Some s"
    and "wq = ballot_sync ACTIVE_LANES_MASK (lane_active st)"
    and "c = (if prev_work_queue st \<noteq> wq then HEAD_SLAB_PTR ctx else curr_slab_ptr st)"
    and "lowest_match d (key s) (read_unit_data ctx d c (bucket_id s)) = Some l"
  shows "Remove_body ctx bucket_id key wq es st d =
         (let p = unit_ptr_of ctx c (bucket_id s) l;
              (es1, d1) = yield es d;
              pair_to_delete = deref d1 p;
              (es2, d2) = yield es1 d1
          in if deref d2 p = pair_to_delete
             then (st\<lparr>lane_active := (lane_active st)(s := False),
                      found_mask := (found_mask st)(s := True),
                      prev_work_queue := wq, curr_slab_ptr := c\<rparr>,
                   fst (yield es2 (store d2 p EMPTY_PAIR_PTR)),
                   Free (read_unit_data ctx d c (bucket_id s) l)
                     (snd (yield es2 (store d2 p EMPTY_PAIR_PTR))))
             else (st\<lparr>lane_active := (lane_active st)(s := False),
                      prev_work_queue := wq, curr_slab_ptr := c\<rparr>, es2, d2))"
proof -
  note a = lowest_active_Some[OF assms(1)]
  from lowest_match_Some(1)[OF assms(4)] have l: "l < 32" by simp
  show ?thesis
    using assms(2-4) a l
    by (simp add: Remove_body_def Let_def WarpSyncKey_def WarpFindKey_lowest_match
        split_beta atomicCAS_eq)
qed

lemma Remove_body_not_found:
  assumes "lowest_active (lane_active st) = Some s"
    and "wq = ballot_sync ACTIVE_LANES_MASK (lane_active st)"
    and "c = (if prev_work_queue st \<noteq> wq then HEAD_SLAB_PTR ctx else curr_slab_ptr st)"
    and "lowest_match d (key s) (read_unit_data ctx d c (bucket_id s)) = None"
  shows "Remove_body ctx bucket_id key wq es st d =
         (if read_unit_data ctx d c (bucket_id s) 31 = EMPTY_SLAB_PTR
          then (st\<lparr>lane_active := (\<lambda>_. False), prev_work_queue := wq, curr_slab_ptr := c\<rparr>, es, d)
          else (st\<lparr>prev_work_queue := wq,
                   curr_slab_ptr := read_unit_data ctx d c (bucket_id s) 31\<rparr>, es, d))"
proof -
  note a = lowest_active_Some[OF assms(1)]
  show ?thesis
    using assms(2-4) a
    by (simp add: Remove_body_def Let_def WarpSyncKey_def WarpFindKey_lowest_match
        NEXT_SLAB_PTR_LANE_def)
qed

lemma Insert_loop_done:
  "lowest_active (lane_active st) = None \<Longrightarrow>
   Insert_loop ctx bucket_id key pre es st d = Some (Inr (st, es, d))"
  by (subst Insert_loop.simps) (simp add: work_queue_eq_0_iff)

lemma Insert_loop_step:
  "lowest_active (lane_active st) = Some s \<Longrightarrow>
   Insert_loop ctx bucket_id key pre es st d =
   (case Insert_body ctx bucket_id key pre (ballot_sync ACTIVE_LANES_MASK (lane_active st))
           (fst (yield es d)) st (snd (yield es d)) of
      Inl e \<Rightarrow> Some (Inl e)
    | Inr (st', es', d') \<Rightarrow> Insert_loop ctx bucket_id key pre es' st' d')"
  by (subst Insert_loop.simps) (simp add: work_queue_eq_0_iff split_beta)

lemma Remove_loop_done:
  "lowest_active (lane_active st) = None \<Longrightarrow>
   Remove_loop ctx bucket_id key es st d = Some (st, es, d)"
  by (subst Remove_loop.simps) (simp add: work_queue_eq_0_iff)

lemma Remove_loop_step:
  "lowest_active (lane_active st) = Some s \<Longrightarrow>
   Remove_loop ctx bucket_id key es st d =
   (case Remove_body ctx bucket_id key (ballot_sync ACTIVE_LANES_MASK (lane_active st))
           (fst (yield es d)) st (snd (yield es d)) of
      (st', es', d') \<Rightarrow> Remove_loop ctx bucket_id key es' st' d')"
  by (subst Remove_loop.simps) (simp add: work_queue_eq_0_iff split_beta Let_def)

lemma Search_body_cases:
  assumes "lowest_active (lane_active st) = Some s"
    and "wq = ballot_sync ACTIVE_LANES_MASK (lane_active st)"
    and "c = (if prev_work_queue st \<noteq> wq then HEAD_SLAB_PTR ctx else curr_slab_ptr st)"
  shows "Search_body ctx bucket_id key wq st d =
         (case lowest_match d (key s) (read_unit_data ctx d c (bucket_id s)) of
            Some l \<Rightarrow> search_done st s wq (Some (read_unit_data ctx d c (bucket_id s) l), c)
          | None \<Rightarrow>
              if read_unit_data ctx d c (bucket_id s) 31 = EMPTY_SLAB_PTR
              then search_done st s wq (None, c)
              else st\<lparr>prev_work_queue := wq,
                      curr_slab_ptr := read_unit_data ctx d c (bucket_id s) 31\<rparr>)"
proof (cases "lowest_match d (key s) (read_unit_data ctx d c (bucket_id s))")
  case None
  with Search_body_not_found[where key=key and bucket_id=bucket_id, OF assms None]
  show ?thesis by simp
next
  case (Some l)
  with Search_body_found[where key=key and bucket_id=bucket_id, OF assms Some]
  show ?thesis by simp
qed

lemma Insert_body_cases:
  assumes "lowest_active (lane_active st) = Some s"
    and "wq = ballot_sync ACTIVE_LANES_MASK (lane_active st)"
    and "c = (if prev_work_queue st \<noteq> wq then HEAD_SLAB_PTR ctx else curr_slab_ptr st)"
  shows "Insert_body ctx bucket_id key pre wq es st d =
         (case lowest_match d (key s) (read_unit_data ctx d c (bucket_id s)) of
            Some l \<Rightarrow>
              Inr (st\<lparr>lane_active := (lane_active st)(s := False),
                      prev_work_queue := wq, curr_slab_ptr := c\<rparr>,
                   fst (yield es d), Free (pre s) (snd (yield es d)))
          | None \<Rightarrow>
              (case lowest_empty (read_unit_data ctx d c (bucket_id s)) of
                 Some l \<Rightarrow>
                   (let d1 = snd (yield es d); p = unit_ptr_of ctx c (bucket_id s) l
                    in if deref d1 p = EMPTY_PAIR_PTR
                       then Inr (st\<lparr>lane_active := (lane_active st)(s := False),
                                    iterator := (iterator st)(s := pre s),
                                    found_mask := (found_mask st)(s := True),
                                    prev_work_queue := wq, curr_slab_ptr := c\<rparr>,
                                 fst (yield es d), store d1 p (pre s))
                       else Inr (st\<lparr>prev_work_queue := wq, curr_slab_ptr := c\<rparr>,
                                 fst (yield es d), d1))
               | None \<Rightarrow>
                   if read_unit_data ctx d c (bucket_id s) 31 \<noteq> EMPTY_SLAB_PTR
                   then Inr (st\<lparr>prev_work_queue := wq,
                                curr_slab_ptr := read_unit_data ctx d c (bucket_id s) 31\<rparr>, es, d)
                   else
                     (let (es1, d1) = yield es d
                      in case AllocateSlab d1 of
                           None \<Rightarrow> Inl OutOfSlabs
                         | Some (new_slab, d2) \<Rightarrow>
                             let p = unit_ptr_of ctx c (bucket_id s) 31;
                                 (es2, d3) = yield es1 d2
                             in if deref d3 p \<noteq> EMPTY_SLAB_PTR
                                then Inr (st\<lparr>prev_work_queue := wq, curr_slab_ptr := c\<rparr>,
                                          fst (yield es2 d3),
                                          FreeSlab new_slab (snd (yield es2 d3)))
                                else Inr (st\<lparr>prev_work_queue := wq, curr_slab_ptr := c\<rparr>,
                                          es2, store d3 p new_slab))))"
proof (cases "lowest_match d (key s) (read_unit_data ctx d c (bucket_id s))")
  case (Some l)
  with Insert_body_duplicate[where key=key and bucket_id=bucket_id, OF assms Some]
  show ?thesis by simp
next
  case None
  note m = this
  show ?thesis
  proof (cases "lowest_empty (read_unit_data ctx d c (bucket_id s))")
    case (Some l)
    with m Insert_body_empty_slot[where key=key and bucket_id=bucket_id, OF assms m Some]
    show ?thesis by simp
  next
    case None
    note e = this
    show ?thesis
    proof (cases "read_unit_data ctx d c (bucket_id s) 31 = EMPTY_SLAB_PTR")
      case True
      with m e Insert_body_extend[where key=key and bucket_id=bucket_id, OF assms m e True]
      show ?thesis by simp
    next
      case False
      with m e Insert_body_next_slab[where key=key and bucket_id=bucket_id, OF assms m e False]
      show ?thesis by simp
    qed
  qed
qed

lemma Remove_body_cases:
  assumes "lowest_active (lane_active st) = Some s"
    and "wq = ballot_sync ACTIVE_LANES_MASK (lane_active st)"
    and "c = (if prev_work_queue st \<noteq> wq then HEAD_SLAB_PTR ctx else curr_slab_ptr st)"
  shows "Remove_body ctx bucket_id key wq es st d =
         (case lowest_match d (key s) (read_unit_data ctx d c (bucket_id s)) of
            Some l \<Rightarrow>
              (let p = unit_ptr_of ctx c (bucket_id s) l;
                   (es1, d1) = yield es d;
                   pair_to_delete = deref d1 p;
                   (es2, d2) = yield es1 d1
               in if deref d2 p = pair_to_delete
                  then (st\<lparr>lane_active := (lane_active st)(s := False),
                           found_mask := (found_mask st)(s := True),
                           prev_work_queue := wq, curr_slab_ptr := c\<rparr>,
                        fst (yield es2 (store d2 p EMPTY_PAIR_PTR)),
                        Free (read_unit_data ctx d c (bucket_id s) l)
                          (snd (yield es2 (store d2 p EMPTY_PAIR_PTR))))
                  else (st\<lparr>lane_active := (lane_active st)(s := False),
                           prev_work_queue := wq, curr_slab_ptr := c\<rparr>, es2, d2))
          | None \<Rightarrow>
              if read_unit_data ctx d c (bucket_id s) 31 = EMPTY_SLAB_PTR
              then (st\<lparr>lane_active := (\<lambda>_. False), prev_work_queue := wq,
                       curr_slab_ptr := c\<rparr>, es, d)
              else (st\<lparr>prev_work_queue := wq,
                       curr_slab_ptr := read_unit_data ctx d c (bucket_id s) 31\<rparr>, es, d))"
proof (cases "lowest_match d (key s) (read_unit_data ctx d c (bucket_id s))")
  case None
  with Remove_body_not_found[where key=key and bucket_id=bucket_id, OF assms None]
  show ?thesis by simp
next
  case (Some l)
  with Remove_body_found[where key=key and bucket_id=bucket_id, OF assms Some]
  show ?thesis by simp
qed

section \<open>The work-sharing skeleton\<close>

lemma work_queue_src_lane:
  assumes "ballot_sync ACTIVE_LANES_MASK active \<noteq> 0"
  shows "lowest_active active = Some (nat (ffs (ballot_sync ACTIVE_LANES_MASK active) - 1))"
proof -
  from assms obtain s where s: "lowest_active active = Some s"
    by (auto simp add: work_queue_eq_0_iff)
  with lowest_active_Some(5)[OF s] show ?thesis by simp
qed

text \<open>
  C7. The skeleton the loops of Insert, Search and Remove share. With \<open>wq\<close> the ballot of
  the active lanes: the loop returns exactly when \<open>wq = 0\<close>, and runs one more iteration
  otherwise. In that iteration the serviced lane \<open>src\<close> is the lowest set bit of \<open>wq\<close>:
  an active lane with no active lane below it. The iteration uses the bucket and key of
  lane \<open>src\<close> and of no other lane (two warps that agree on lane \<open>src\<close> do the same), and
  it acts as from the current slab \<open>restart\<close>, which is the head marker when \<open>wq\<close>
  differs from the ballot of the previous iteration and the current slab pointer
  otherwise. The results (\<open>iterator\<close>, \<open>mask\<close>) of every lane but \<open>src\<close> stay as they
  are, and in Search and Insert so does its active flag; in Remove it does too, except
  in the branch for a chain without a match, which clears the flag of every lane (see C6).
  The last three conjuncts say what the iteration does: it reads the slab \<open>restart\<close> of
  the bucket of lane \<open>src\<close>, looks for the key of lane \<open>src\<close> in it, and each of the three
  bodies equals its branches written out for lane \<open>src\<close>, under every schedule of the
  other warps.
\<close>

theorem wcws_skeleton:
  assumes "wq = ballot_sync ACTIVE_LANES_MASK (lane_active st)"
    and "src = nat (ffs wq - 1)"
    and "restart = (if prev_work_queue st \<noteq> wq then HEAD_SLAB_PTR ctx else curr_slab_ptr st)"
  shows
   "(wq = 0 \<longrightarrow>
       Search_loop ctx bucket_id key es st d = Some (st, es, d)
     \<and> Insert_loop ctx bucket_id key pre es st d = Some (Inr (st, es, d))
     \<and> Remove_loop ctx bucket_id key es st d = Some (st, es, d))
  \<and> (wq \<noteq> 0 \<longrightarrow>
       Search_loop ctx bucket_id key es st d =
         Search_loop ctx bucket_id key (fst (yield es d))
           (Search_body ctx bucket_id key wq st (snd (yield es d))) (snd (yield es d))
     \<and> Insert_loop ctx bucket_id key pre es st d =
         (case Insert_body ctx bucket_id key pre wq (fst (yield es d)) st (snd (yield es d)) of
            Inl e \<Rightarrow> Some (Inl e)
          | Inr (st', es', d') \<Rightarrow> Insert_loop ctx bucket_id key pre es' st' d')
     \<and> Remove_loop ctx bucket_id key es st d =
         (case Remove_body ctx bucket_id key wq (fst (yield es d)) st (snd (yield es d)) of
            (st', es', d') \<Rightarrow> Remove_loop ctx bucket_id key es' st' d')
     \<and> src < 32 \<and> lane_active st src \<and> (\<forall>j. j < src \<longrightarrow> \<not> lane_active st j)
     \<and> (bucket_id src = bucket_id' src \<and> key src = key' src \<and> pre src = pre' src \<longrightarrow>
          Search_body ctx bucket_id key wq st d = Search_body ctx bucket_id' key' wq st d
        \<and> Insert_body ctx bucket_id key pre wq es st d = Insert_body ctx bucket_id' key' pre' wq es st d
        \<and> Remove_body ctx bucket_id key wq es st d = Remove_body ctx bucket_id' key' wq es st d)
     \<and> Search_body ctx bucket_id key wq st d =
         Search_body ctx bucket_id key wq (st\<lparr>prev_work_queue := wq, curr_slab_ptr := restart\<rparr>) d
     \<and> Insert_body ctx bucket_id key pre wq es st d =
         Insert_body ctx bucket_id key pre wq es (st\<lparr>prev_work_queue := wq, curr_slab_ptr := restart\<rparr>) d
     \<and> Remove_body ctx bucket_id key wq es st d =
         Remove_body ctx bucket_id key wq es (st\<lparr>prev_work_queue := wq, curr_slab_ptr := restart\<rparr>) d
     \<and> (\<forall>l. l \<noteq> src \<longrightarrow>
          lane_active (Search_body ctx bucket_id key wq st d) l = lane_active st l
        \<and> iterator (Search_body ctx bucket_id key wq st d) l = iterator st l
        \<and> found_mask (Search_body ctx bucket_id key wq st d) l = found_mask st l
        \<and> (\<forall>r. Insert_body ctx bucket_id key pre wq es st d = Inr r \<longrightarrow>
              lane_active (fst r) l = lane_active st l
            \<and> iterator (fst r) l = iterator st l
            \<and> found_mask (fst r) l = found_mask st l)
        \<and> iterator (fst (Remove_body ctx bucket_id key wq es st d)) l = iterator st l
        \<and> found_mask (fst (Remove_body ctx bucket_id key wq es st d)) l = found_mask st l)
     \<and> (\<forall>l. l \<noteq> src \<longrightarrow>
          lane_active (fst (Remove_body ctx bucket_id key wq es st d)) l =
            (if lowest_match d (key src) (read_unit_data ctx d restart (bucket_id src)) = None
                \<and> read_unit_data ctx d restart (bucket_id src) 31 = EMPTY_SLAB_PTR
             then False else lane_active st l))
     \<and> Search_body ctx bucket_id key wq st d =
         (case lowest_match d (key src) (read_unit_data ctx d restart (bucket_id src)) of
            Some l \<Rightarrow> search_done st src wq (Some (read_unit_data ctx d restart (bucket_id src) l), restart)
          | None \<Rightarrow>
              if read_unit_data ctx d restart (bucket_id src) 31 = EMPTY_SLAB_PTR
              then search_done st src wq (None, restart)
              else st\<lparr>prev_work_queue := wq,
                      curr_slab_ptr := read_unit_data ctx d restart (bucket_id src) 31\<rparr>)
     \<and> Insert_body ctx bucket_id key pre wq es st d =
         (case lowest_match d (key src) (read_unit_data ctx d restart (bucket_id src)) of
            Some l \<Rightarrow>
              Inr (st\<lparr>lane_active := (lane_active st)(src := False),
                      prev_work_queue := wq, curr_slab_ptr := restart\<rparr>,
                   fst (yield es d), Free (pre src) (snd (yield es d)))
          | None \<Rightarrow>
              (case lowest_empty (read_unit_data ctx d restart (bucket_id src)) of
                 Some l \<Rightarrow>
                   (let d1 = snd (yield es d); p = unit_ptr_of ctx restart (bucket_id src) l
                    in if deref d1 p = EMPTY_PAIR_PTR
                       then Inr (st\<lparr>lane_active := (lane_active st)(src := False),
                                    iterator := (iterator st)(src := pre src),
                                    found_mask := (found_mask st)(src := True),
                                    prev_work_queue := wq, curr_slab_ptr := restart\<rparr>,
                                 fst (yield es d), store d1 p (pre src))
                       else Inr (st\<lparr>prev_work_queue := wq, curr_slab_ptr := restart\<rparr>,
                                 fst (yield es d), d1))
               | None \<Rightarrow>
                   if read_unit_data ctx d restart (bucket_id src) 31 \<noteq> EMPTY_SLAB_PTR
                   then Inr (st\<lparr>prev_work_queue := wq,
                                curr_slab_ptr := read_unit_data ctx d restart (bucket_id src) 31\<rparr>,
                             es, d)
                   else
                     (let (es1, d1) = yield es d
                      in case AllocateSlab d1 of
                           None \<Rightarrow> Inl OutOfSlabs
                         | Some (new_slab, d2) \<Rightarrow>
                             let p = unit_ptr_of ctx restart (bucket_id src) 31;
                                 (es2, d3) = yield es1 d2
                             in if deref d3 p \<noteq> EMPTY_SLAB_PTR
                                then Inr (st\<lparr>prev_work_queue := wq, curr_slab_ptr := restart\<rparr>,
                                          fst (yield es2 d3),
                                          FreeSlab new_slab (snd (yield es2 d3)))
                                else Inr (st\<lparr>prev_work_queue := wq, curr_slab_ptr := restart\<rparr>,
                                          es2, store d3 p new_slab))))
     \<and> Remove_body ctx bucket_id key wq es st d =
         (case lowest_match d (key src) (read_unit_data ctx d restart (bucket_id src)) of
            Some l \<Rightarrow>
              (let p = unit_ptr_of ctx restart (bucket_id src) l;
                   (es1, d1) = yield es d;
                   pair_to_delete = deref d1 p;
                   (es2, d2) = yield es1 d1
               in if deref d2 p = pair_to_delete
                  then (st\<lparr>lane_active := (lane_active st)(src := False),
                           found_mask := (found_mask st)(src := True),
                           prev_work_queue := wq, curr_slab_ptr := restart\<rparr>,
                        fst (yield es2 (store d2 p EMPTY_PAIR_PTR)),
                        Free (read_unit_data ctx d restart (bucket_id src) l)
                          (snd (yield es2 (store d2 p EMPTY_PAIR_PTR))))
                  else (st\<lparr>lane_active := (lane_active st)(src := False),
                           prev_work_queue := wq, curr_slab_ptr := restart\<rparr>, es2, d2))
          | None \<Rightarrow>
              if read_unit_data ctx d restart (bucket_id src) 31 = EMPTY_SLAB_PTR
              then (st\<lparr>lane_active := (\<lambda>_. False), prev_work_queue := wq,
                       curr_slab_ptr := restart\<rparr>, es, d)
              else (st\<lparr>prev_work_queue := wq,
                       curr_slab_ptr := read_unit_data ctx d restart (bucket_id src) 31\<rparr>, es, d)))"
proof (intro conjI impI)
  assume z: "wq = 0"
  then have n: "lowest_active (lane_active st) = None"
    using assms(1) by (simp add: work_queue_eq_0_iff)
  show "Search_loop ctx bucket_id key es st d = Some (st, es, d)"
    by (rule Search_loop_done[OF n])
  show "Insert_loop ctx bucket_id key pre es st d = Some (Inr (st, es, d))"
    by (rule Insert_loop_done[OF n])
  show "Remove_loop ctx bucket_id key es st d = Some (st, es, d)"
    by (rule Remove_loop_done[OF n])
next
  assume nz: "wq \<noteq> 0"
  then have s: "lowest_active (lane_active st) = Some src"
    using assms(1,2) work_queue_src_lane[of "lane_active st"] by simp
  note a = lowest_active_Some[OF s]
  show "Search_loop ctx bucket_id key es st d =
         Search_loop ctx bucket_id key (fst (yield es d))
           (Search_body ctx bucket_id key wq st (snd (yield es d))) (snd (yield es d))"
    using nz assms(1) by (subst Search_loop.simps) (simp add: Let_def split_beta)
  show "Insert_loop ctx bucket_id key pre es st d =
         (case Insert_body ctx bucket_id key pre wq (fst (yield es d)) st (snd (yield es d)) of
            Inl e \<Rightarrow> Some (Inl e)
          | Inr (st', es', d') \<Rightarrow> Insert_loop ctx bucket_id key pre es' st' d')"
    unfolding assms(1) by (rule Insert_loop_step[OF s])
  show "Remove_loop ctx bucket_id key es st d =
         (case Remove_body ctx bucket_id key wq (fst (yield es d)) st (snd (yield es d)) of
            (st', es', d') \<Rightarrow> Remove_loop ctx bucket_id key es' st' d')"
    unfolding assms(1) by (rule Remove_loop_step[OF s])
  show "src < 32" by (rule a(1))
  show "lane_active st src" by (rule a(2))
  show "\<forall>j. j < src \<longrightarrow> \<not> lane_active st j" using a(3) by simp
  have src: "nat (ffs wq - 1) = src" using assms(2) by simp
  {
    assume e: "bucket_id src = bucket_id' src \<and> key src = key' src \<and> pre src = pre' src"
    show "Search_body ctx bucket_id key wq st d = Search_body ctx bucket_id' key' wq st d"
      using e a(1) by (simp add: Search_body_def src WarpSyncKey_def Let_def split_beta cong: option.case_cong)
    show "Insert_body ctx bucket_id key pre wq es st d = Insert_body ctx bucket_id' key' pre' wq es st d"
      using e a(1) by (simp add: Insert_body_def src WarpSyncKey_def Let_def split_beta cong: option.case_cong)
    show "Remove_body ctx bucket_id key wq es st d = Remove_body ctx bucket_id' key' wq es st d"
      using e a(1) by (simp add: Remove_body_def src WarpSyncKey_def Let_def split_beta cong: option.case_cong)
  }
  show "Search_body ctx bucket_id key wq st d =
         Search_body ctx bucket_id key wq (st\<lparr>prev_work_queue := wq, curr_slab_ptr := restart\<rparr>) d"
    using assms(3) by (simp add: Search_body_def Let_def split_beta cong: option.case_cong)
  show "Insert_body ctx bucket_id key pre wq es st d =
         Insert_body ctx bucket_id key pre wq es (st\<lparr>prev_work_queue := wq, curr_slab_ptr := restart\<rparr>) d"
    using assms(3) by (simp add: Insert_body_def Let_def split_beta cong: option.case_cong)
  show "Remove_body ctx bucket_id key wq es st d =
         Remove_body ctx bucket_id key wq es (st\<lparr>prev_work_queue := wq, curr_slab_ptr := restart\<rparr>) d"
    using assms(3) by (simp add: Remove_body_def Let_def split_beta cong: option.case_cong)
  show "\<forall>l. l \<noteq> src \<longrightarrow>
          lane_active (Search_body ctx bucket_id key wq st d) l = lane_active st l
        \<and> iterator (Search_body ctx bucket_id key wq st d) l = iterator st l
        \<and> found_mask (Search_body ctx bucket_id key wq st d) l = found_mask st l
        \<and> (\<forall>r. Insert_body ctx bucket_id key pre wq es st d = Inr r \<longrightarrow>
              lane_active (fst r) l = lane_active st l
            \<and> iterator (fst r) l = iterator st l
            \<and> found_mask (fst r) l = found_mask st l)
        \<and> iterator (fst (Remove_body ctx bucket_id key wq es st d)) l = iterator st l
        \<and> found_mask (fst (Remove_body ctx bucket_id key wq es st d)) l = found_mask st l"
  proof (intro allI impI conjI)
    fix l assume l: "l \<noteq> src"
    show "lane_active (Search_body ctx bucket_id key wq st d) l = lane_active st l"
      "iterator (Search_body ctx bucket_id key wq st d) l = iterator st l"
      "found_mask (Search_body ctx bucket_id key wq st d) l = found_mask st l"
      using l by (simp_all add: Search_body_def src Let_def)
    show "iterator (fst (Remove_body ctx bucket_id key wq es st d)) l = iterator st l"
      "found_mask (fst (Remove_body ctx bucket_id key wq es st d)) l = found_mask st l"
      using l by (simp_all add: Remove_body_def src Let_def split_beta)
    fix r assume r: "Insert_body ctx bucket_id key pre wq es st d = Inr r"
    show "lane_active (fst r) l = lane_active st l"
      "iterator (fst r) l = iterator st l"
      "found_mask (fst r) l = found_mask st l"
      using l r by (auto simp add: Insert_body_def src Let_def split_beta split: if_splits option.splits)
  qed
  show "Search_body ctx bucket_id key wq st d =
         (case lowest_match d (key src) (read_unit_data ctx d restart (bucket_id src)) of
            Some l \<Rightarrow> search_done st src wq (Some (read_unit_data ctx d restart (bucket_id src) l), restart)
          | None \<Rightarrow>
              if read_unit_data ctx d restart (bucket_id src) 31 = EMPTY_SLAB_PTR
              then search_done st src wq (None, restart)
              else st\<lparr>prev_work_queue := wq,
                      curr_slab_ptr := read_unit_data ctx d restart (bucket_id src) 31\<rparr>)"
    by (rule Search_body_cases[OF s assms(1,3)])
  show "Insert_body ctx bucket_id key pre wq es st d =
         (case lowest_match d (key src) (read_unit_data ctx d restart (bucket_id src)) of
            Some l \<Rightarrow>
              Inr (st\<lparr>lane_active := (lane_active st)(src := False),
                      prev_work_queue := wq, curr_slab_ptr := restart\<rparr>,
                   fst (yield es d), Free (pre src) (snd (yield es d)))
          | None \<Rightarrow>
              (case lowest_empty (read_unit_data ctx d restart (bucket_id src)) of
                 Some l \<Rightarrow>
                   (let d1 = snd (yield es d); p = unit_ptr_of ctx restart (bucket_id src) l
                    in if deref d1 p = EMPTY_PAIR_PTR
                       then Inr (st\<lparr>lane_active := (lane_active st)(src := False),
                                    iterator := (iterator st)(src := pre src),
                                    found_mask := (found_mask st)(src := True),
                                    prev_work_queue := wq, curr_slab_ptr := restart\<rparr>,
                                 fst (yield es d), store d1 p (pre src))
                       else Inr (st\<lparr>prev_work_queue := wq, curr_slab_ptr := restart\<rparr>,
                                 fst (yield es d), d1))
               | None \<Rightarrow>
                   if read_unit_data ctx d restart (bucket_id src) 31 \<noteq> EMPTY_SLAB_PTR
                   then Inr (st\<lparr>prev_work_queue := wq,
                                curr_slab_ptr := read_unit_data ctx d restart (bucket_id src) 31\<rparr>,
                             es, d)
                   else
                     (let (es1, d1) = yield es d
                      in case AllocateSlab d1 of
                           None \<Rightarrow> Inl OutOfSlabs
                         | Some (new_slab, d2) \<Rightarrow>
                             let p = unit_ptr_of ctx restart (bucket_id src) 31;
                                 (es2, d3) = yield es1 d2
                             in if deref d3 p \<noteq> EMPTY_SLAB_PTR
                                then Inr (st\<lparr>prev_work_queue := wq, curr_slab_ptr := restart\<rparr>,
                                          fst (yield es2 d3),
                                          FreeSlab new_slab (snd (yield es2 d3)))
                                else Inr (st\<lparr>prev_work_queue := wq, curr_slab_ptr := restart\<rparr>,
                                          es2, store d3 p new_slab))))"
    by (rule Insert_body_cases[OF s assms(1,3)])
  have R: "Remove_body ctx bucket_id key wq es st d =
         (case lowest_match d (key src) (read_unit_data ctx d restart (bucket_id src)) of
            Some l \<Rightarrow>
              (let p = unit_ptr_of ctx restart (bucket_id src) l;
                   (es1, d1) = yield es d;
                   pair_to_delete = deref d1 p;
                   (es2, d2) = yield es1 d1
               in if deref d2 p = pair_to_delete
                  then (st\<lparr>lane_active := (lane_active st)(src := False),
                           found_mask := (found_mask st)(src := True),
                           prev_work_queue := wq, curr_slab_ptr := restart\<rparr>,
                        fst (yield es2 (store d2 p EMPTY_PAIR_PTR)),
                        Free (read_unit_data ctx d restart (bucket_id src) l)
                          (snd (yield es2 (store d2 p EMPTY_PAIR_PTR))))
                  else (st\<lparr>lane_active := (lane_active st)(src := False),
                           prev_work_queue := wq, curr_slab_ptr := restart\<rparr>, es2, d2))
          | None \<Rightarrow>
              if read_unit_data ctx d restart (bucket_id src) 31 = EMPTY_SLAB_PTR
              then (st\<lparr>lane_active := (\<lambda>_. False), prev_work_queue := wq,
                       curr_slab_ptr := restart\<rparr>, es, d)
              else (st\<lparr>prev_work_queue := wq,
                       curr_slab_ptr := read_unit_data ctx d restart (bucket_id src) 31\<rparr>, es, d))"
    by (rule Remove_body_cases[OF s assms(1,3)])
  show "Remove_body ctx bucket_id key wq es st d =
         (case lowest_match d (key src) (read_unit_data ctx d restart (bucket_id src)) of
            Some l \<Rightarrow>
              (let p = unit_ptr_of ctx restart (bucket_id src) l;
                   (es1, d1) = yield es d;
                   pair_to_delete = deref d1 p;
                   (es2, d2) = yield es1 d1
               in if deref d2 p = pair_to_delete
                  then (st\<lparr>lane_active := (lane_active st)(src := False),
                           found_mask := (found_mask st)(src := True),
                           prev_work_queue := wq, curr_slab_ptr := restart\<rparr>,
                        fst (yield es2 (store d2 p EMPTY_PAIR_PTR)),
                        Free (read_unit_data ctx d restart (bucket_id src) l)
                          (snd (yield es2 (store d2 p EMPTY_PAIR_PTR))))
                  else (st\<lparr>lane_active := (lane_active st)(src := False),
                           prev_work_queue := wq, curr_slab_ptr := restart\<rparr>, es2, d2))
          | None \<Rightarrow>
              if read_unit_data ctx d restart (bucket_id src) 31 = EMPTY_SLAB_PTR
              then (st\<lparr>lane_active := (\<lambda>_. False), prev_work_queue := wq,
                       curr_slab_ptr := restart\<rparr>, es, d)
              else (st\<lparr>prev_work_queue := wq,
                       curr_slab_ptr := read_unit_data ctx d restart (bucket_id src) 31\<rparr>, es, d))"
    by (rule R)
  show "\<forall>l. l \<noteq> src \<longrightarrow>
          lane_active (fst (Remove_body ctx bucket_id key wq es st d)) l =
            (if lowest_match d (key src) (read_unit_data ctx d restart (bucket_id src)) = None
                \<and> read_unit_data ctx d restart (bucket_id src) 31 = EMPTY_SLAB_PTR
             then False else lane_active st l)"
    by (cases "lowest_match d (key src) (read_unit_data ctx d restart (bucket_id src))")
       (simp_all add: R Let_def split_beta)
qed


lemma warp_1_3_ballot: "ballot_sync ACTIVE_LANES_MASK (lane_active warp_1_3) = 10"
  by (simp add: ballot_sync_def ACTIVE_LANES_MASK_def warp_1_3_def upt_rec)

lemma ffs_10: "nat (ffs 10 - 1) = 1"
  by (simp add: ffs_def upt_rec)

lemma table_one_match_1:
  "lowest_match table_one 1 (read_unit_data ctx1 table_one (HEAD_SLAB_PTR ctx1) b) = Some 0"
  by (rule lowest_match_eqI)
     (simp_all add: slot_matches_def table_one_head EMPTY_PAIR_PTR_def, simp add: table_one_def)

lemma table_one_no_match_4:
  "lowest_match table_one 4 (read_unit_data ctx1 table_one (HEAD_SLAB_PTR ctx1) b) = None"
  by (rule lowest_match_NoneI)
     (simp add: slot_matches_def table_one_head EMPTY_PAIR_PTR_def table_one_def)

theorem wcws_skeleton_witness:
  "(10 :: 32 word) = ballot_sync ACTIVE_LANES_MASK (lane_active warp_1_3)
   \<and> (1 :: nat) = nat (ffs 10 - 1)
   \<and> (10 :: 32 word) \<noteq> 0
   \<and> lane_active warp_1_3 1 \<and> \<not> lane_active warp_1_3 0
   \<and> Search_loop ctx1 (\<lambda>l. 0) (\<lambda>l. if l = 1 then 1 else 4) [] warp_1_3 table_one =
       Search_loop ctx1 (\<lambda>l. 0) (\<lambda>l. if l = 1 then 1 else 4) []
         (Search_body ctx1 (\<lambda>l. 0) (\<lambda>l. if l = 1 then 1 else 4) 10 warp_1_3 table_one) table_one
   \<and> lane_active (Search_body ctx1 (\<lambda>l. 0) (\<lambda>l. if l = 1 then 1 else 4) 10 warp_1_3 table_one) 3
   \<and> Search_body ctx1 (\<lambda>l. 0) (\<lambda>l. if l = 1 then 1 else 4) 10 warp_1_3 table_one =
       search_done warp_1_3 1 10 (Some 0, HEAD_SLAB_PTR ctx1)
   \<and> \<not> lane_active (Search_body ctx1 (\<lambda>l. 0) (\<lambda>l. if l = 1 then 1 else 4) 10 warp_1_3 table_one) 1
   \<and> found_mask (Search_body ctx1 (\<lambda>l. 0) (\<lambda>l. if l = 1 then 1 else 4) 10 warp_1_3 table_one) 1
   \<and> iterator (Search_body ctx1 (\<lambda>l. 0) (\<lambda>l. if l = 1 then 1 else 4) 10 warp_1_3 table_one) 1 = 0
   \<and> Remove_body ctx1 (\<lambda>l. 0) (\<lambda>l. if l = 1 then 1 else 4) 10 [] warp_1_3 table_one =
       (warp_1_3\<lparr>lane_active := (lane_active warp_1_3)(1 := False),
                  found_mask := (found_mask warp_1_3)(1 := True),
                  prev_work_queue := 10, curr_slab_ptr := HEAD_SLAB_PTR ctx1\<rparr>, [],
        Free 0 (store table_one (list_head_unit 0 0) EMPTY_PAIR_PTR))
   \<and> \<not> lane_active (fst (Remove_body ctx1 (\<lambda>l. 0) (\<lambda>l. if l = 1 then 4 else 1) 10 []
                             warp_1_3 table_one)) 3"
proof -
  have w: "(10 :: 32 word) = ballot_sync ACTIVE_LANES_MASK (lane_active warp_1_3)"
    by (simp add: warp_1_3_ballot)
  have s: "(1 :: nat) = nat (ffs 10 - 1)" by (simp add: ffs_10)
  have r: "HEAD_SLAB_PTR ctx1 =
           (if prev_work_queue warp_1_3 \<noteq> 10 then HEAD_SLAB_PTR ctx1 else curr_slab_ptr warp_1_3)"
    by (simp add: warp_1_3_def)
  have nz: "(10 :: 32 word) \<noteq> 0" by simp
  note T = wcws_skeleton[OF w s r, of "\<lambda>l. 0" "\<lambda>l. if l = 1 then 1 else 4" "[]" table_one
      "\<lambda>l. 1" "\<lambda>l. 0" "\<lambda>l. if l = 1 then 1 else 4" "\<lambda>l. 1", THEN conjunct2, rule_format, OF nz]
  have a3: "lane_active warp_1_3 3" by (simp add: warp_1_3_def)
  note L = T[THEN conjunct1]
  note T4 = T[THEN conjunct2, THEN conjunct2, THEN conjunct2, THEN conjunct2]
  note a1 = T4[THEN conjunct1]
  note a0 = T4[THEN conjunct2, THEN conjunct1]
  note T8 = T4[THEN conjunct2, THEN conjunct2, THEN conjunct2, THEN conjunct2]
  note T9 = T8[THEN conjunct2, THEN conjunct2]
  note o = T9[THEN conjunct1, rule_format, of 3, THEN conjunct1]
  note T11 = T9[THEN conjunct2, THEN conjunct2]
  note SB = T11[THEN conjunct1]
  note RB = T11[THEN conjunct2, THEN conjunct2]
  from o a3 have l3: "lane_active (Search_body ctx1 (\<lambda>l. 0) (\<lambda>l. if l = 1 then 1 else 4) 10 warp_1_3 table_one) 3"
    by simp
  from a0 have l0: "\<not> lane_active warp_1_3 0" by simp
  from SB have sb: "Search_body ctx1 (\<lambda>l. 0) (\<lambda>l. if l = 1 then 1 else 4) 10 warp_1_3 table_one =
       search_done warp_1_3 1 10 (Some 0, HEAD_SLAB_PTR ctx1)"
    by (simp add: table_one_match_1 table_one_head)
  have u: "unit_ptr_of ctx1 (HEAD_SLAB_PTR ctx1) 0 0 = list_head_unit 0 0"
    by (simp add: unit_ptr_of_def get_unit_ptr_from_list_head_def)
  from RB have rb: "Remove_body ctx1 (\<lambda>l. 0) (\<lambda>l. if l = 1 then 1 else 4) 10 [] warp_1_3 table_one =
       (warp_1_3\<lparr>lane_active := (lane_active warp_1_3)(1 := False),
                  found_mask := (found_mask warp_1_3)(1 := True),
                  prev_work_queue := 10, curr_slab_ptr := HEAD_SLAB_PTR ctx1\<rparr>, [],
        Free 0 (store table_one (list_head_unit 0 0) EMPTY_PAIR_PTR))"
    by (simp add: table_one_match_1 table_one_head u Let_def del: store.simps)
  note T' = wcws_skeleton[OF w s r, of "\<lambda>l. 0" "\<lambda>l. if l = 1 then 4 else 1" "[]" table_one
      "\<lambda>l. 1" "\<lambda>l. 0" "\<lambda>l. if l = 1 then 4 else 1" "\<lambda>l. 1", THEN conjunct2, rule_format, OF nz]
  note T4' = T'[THEN conjunct2, THEN conjunct2, THEN conjunct2, THEN conjunct2]
  note T8' = T4'[THEN conjunct2, THEN conjunct2, THEN conjunct2, THEN conjunct2]
  note o' = T8'[THEN conjunct2, THEN conjunct2, THEN conjunct2, THEN conjunct1, rule_format, of 3]
  from o' have r3: "\<not> lane_active (fst (Remove_body ctx1 (\<lambda>l. 0) (\<lambda>l. if l = 1 then 4 else 1) 10 []
                             warp_1_3 table_one)) 3"
    by (simp add: table_one_no_match_4 table_one_head EMPTY_SLAB_PTR_def)
  have f: "\<not> lane_active (search_done warp_1_3 1 10 (Some 0, HEAD_SLAB_PTR ctx1)) 1"
    "found_mask (search_done warp_1_3 1 10 (Some 0, HEAD_SLAB_PTR ctx1)) 1"
    "iterator (search_done warp_1_3 1 10 (Some 0, HEAD_SLAB_PTR ctx1)) 1 = 0"
    by (simp_all add: search_done_def)
  from w s nz a1 l0 L l3 sb f rb r3 show ?thesis by (simp only: sb) simp
qed

section \<open>Insert: the pre-allocation\<close>

lemma prealloc_lanes_spec:
  assumes "prealloc_lanes ls active key val pre d = Inr (pre', d')"
    and "distinct ls" and "distinct (pair_heap d)"
  shows "\<exists>used. pair_heap d = used @ pair_heap d'
        \<and> length used = length (filter active ls)
        \<and> (\<forall>l. l \<in> set ls \<and> active l \<longrightarrow>
              pre' l \<in> set used \<and> pair_data d' (pre' l) = (key l, val l))
        \<and> (\<forall>l. \<not> (l \<in> set ls \<and> active l) \<longrightarrow> pre' l = pre l)
        \<and> (\<forall>l l'. l \<in> set ls \<and> active l \<and> l' \<in> set ls \<and> active l' \<and> pre' l = pre' l'
              \<longrightarrow> l = l')
        \<and> (\<forall>p. p \<notin> set used \<longrightarrow> pair_data d' p = pair_data d p)
        \<and> bucket_list_head d' = bucket_list_head d \<and> slab_units d' = slab_units d
        \<and> slab_heap d' = slab_heap d"
  using assms
proof (induction ls arbitrary: pre d)
  case Nil
  then show ?case by simp
next
  case (Cons a ls)
  show ?case
  proof (cases "active a")
    case False
    with Cons.prems have r: "prealloc_lanes ls active key val pre d = Inr (pre', d')"
      and dl: "distinct ls" and an: "a \<notin> set ls" by simp_all
    from Cons.IH[OF r dl Cons.prems(3)] obtain used where
      u: "pair_heap d = used @ pair_heap d'"
         "length used = length (filter active ls)"
         "\<forall>l. l \<in> set ls \<and> active l \<longrightarrow> pre' l \<in> set used \<and> pair_data d' (pre' l) = (key l, val l)"
         "\<forall>l. \<not> (l \<in> set ls \<and> active l) \<longrightarrow> pre' l = pre l"
         "\<forall>l l'. l \<in> set ls \<and> active l \<and> l' \<in> set ls \<and> active l' \<and> pre' l = pre' l' \<longrightarrow> l = l'"
         "\<forall>p. p \<notin> set used \<longrightarrow> pair_data d' p = pair_data d p"
         "bucket_list_head d' = bucket_list_head d \<and> slab_units d' = slab_units d
           \<and> slab_heap d' = slab_heap d"
      by blast
    show ?thesis
    proof (intro exI[of _ used] conjI)
      show "pair_heap d = used @ pair_heap d'" by (rule u(1))
      show "length used = length (filter active (a # ls))" using u(2) False by simp
      show "\<forall>l. l \<in> set (a # ls) \<and> active l \<longrightarrow>
              pre' l \<in> set used \<and> pair_data d' (pre' l) = (key l, val l)"
        using u(3) False by auto
      show "\<forall>l. \<not> (l \<in> set (a # ls) \<and> active l) \<longrightarrow> pre' l = pre l"
        using u(4) False by auto
      show "\<forall>l l'. l \<in> set (a # ls) \<and> active l \<and> l' \<in> set (a # ls) \<and> active l' \<and> pre' l = pre' l'
              \<longrightarrow> l = l'"
        using u(5) False by auto
      show "\<forall>p. p \<notin> set used \<longrightarrow> pair_data d' p = pair_data d p" by (rule u(6))
      show "bucket_list_head d' = bucket_list_head d" "slab_units d' = slab_units d"
        "slab_heap d' = slab_heap d" using u(7) by simp_all
    qed
  next
    case True
    from Cons.prems(1) True obtain p ps where hp: "pair_heap d = p # ps"
      by (cases "pair_heap d") (simp_all add: Allocate_def)
    let ?d2 = "d\<lparr>pair_heap := ps, pair_data := (pair_data d)(p := (key a, val a))\<rparr>"
    from Cons.prems(1) True hp
    have r: "prealloc_lanes ls active key val (pre(a := p)) ?d2 = Inr (pre', d')"
      by (simp add: Allocate_def)
    from Cons.prems(2) have dl: "distinct ls" and an: "a \<notin> set ls" by simp_all
    from Cons.prems(3) hp have dp: "distinct (pair_heap ?d2)" and pn: "p \<notin> set ps" by simp_all
    from Cons.IH[OF r dl dp] obtain used where
      u: "pair_heap ?d2 = used @ pair_heap d'"
         "length used = length (filter active ls)"
         "\<forall>l. l \<in> set ls \<and> active l \<longrightarrow> pre' l \<in> set used \<and> pair_data d' (pre' l) = (key l, val l)"
         "\<forall>l. \<not> (l \<in> set ls \<and> active l) \<longrightarrow> pre' l = (pre(a := p)) l"
         "\<forall>l l'. l \<in> set ls \<and> active l \<and> l' \<in> set ls \<and> active l' \<and> pre' l = pre' l' \<longrightarrow> l = l'"
         "\<forall>p. p \<notin> set used \<longrightarrow> pair_data d' p = pair_data ?d2 p"
         "bucket_list_head d' = bucket_list_head ?d2 \<and> slab_units d' = slab_units ?d2
           \<and> slab_heap d' = slab_heap ?d2"
      by blast
    from u(1) have ps: "ps = used @ pair_heap d'" by simp
    with pn have pu: "p \<notin> set used" by simp
    from u(4) an have pa: "pre' a = p" by simp
    from u(6) pu have da: "pair_data d' p = (key a, val a)" by simp
    show ?thesis
    proof (intro exI[of _ "p # used"] conjI)
      show "pair_heap d = (p # used) @ pair_heap d'" using hp ps by simp
      show "length (p # used) = length (filter active (a # ls))" using u(2) True by simp
      show "\<forall>l. l \<in> set (a # ls) \<and> active l \<longrightarrow>
              pre' l \<in> set (p # used) \<and> pair_data d' (pre' l) = (key l, val l)"
        using u(3) pa da by auto
      show "\<forall>l. \<not> (l \<in> set (a # ls) \<and> active l) \<longrightarrow> pre' l = pre l"
        using u(4) True by auto
      show "\<forall>l l'. l \<in> set (a # ls) \<and> active l \<and> l' \<in> set (a # ls) \<and> active l' \<and> pre' l = pre' l'
              \<longrightarrow> l = l'"
        using u(5) u(3) pa pu by auto
      show "\<forall>q. q \<notin> set (p # used) \<longrightarrow> pair_data d' q = pair_data d q"
        using u(6) by simp
      show "bucket_list_head d' = bucket_list_head d" "slab_units d' = slab_units d"
        "slab_heap d' = slab_heap d" using u(7) by simp_all
    qed
  qed
qed

lemma prealloc_lanes_succeeds:
  "length (filter active ls) \<le> length (pair_heap d) \<Longrightarrow>
   \<exists>r. prealloc_lanes ls active key val pre d = Inr r"
proof (induction ls arbitrary: pre d)
  case Nil
  then show ?case by simp
next
  case (Cons a ls)
  show ?case
  proof (cases "active a")
    case False
    with Cons show ?thesis by simp
  next
    case True
    with Cons.prems obtain p ps where hp: "pair_heap d = p # ps"
      by (cases "pair_heap d") simp_all
    with Cons.prems True
    have "length (filter active ls) \<le>
          length (pair_heap (d\<lparr>pair_heap := ps, pair_data := (pair_data d)(p := (key a, val a))\<rparr>))"
      by simp
    from Cons.IH[OF this] hp True show ?thesis by (simp add: Allocate_def)
  qed
qed

section \<open>Insert: records are allocated first and freed on the duplicate branch\<close>

lemma deref_store: "deref (store d p x) q = (if q = p then x else deref d q)"
  by (cases p; cases q) auto

lemma store_frame [simp]:
  "pair_heap (store d p x) = pair_heap d" "pair_data (store d p x) = pair_data d"
  "slab_heap (store d p x) = slab_heap d"
  by (cases p; simp)+

lemma unit_lane_unit_ptr_of [simp]: "unit_lane (unit_ptr_of ctx c b l) = l"
  by (simp add: unit_ptr_of_def get_unit_ptr_from_list_head_def get_unit_ptr_from_list_nodes_def)

lemma read_unit_data_deref: "read_unit_data ctx d c b l = deref d (unit_ptr_of ctx c b l)"
  by (simp add: read_unit_data_def unit_ptr_of_def)

lemma pair_slot_holds_store:
  assumes "pair_slot_holds d p" and "p \<noteq> w" and "deref d q = w"
  shows "pair_slot_holds (store d q x) p"
proof -
  from assms(1) obtain r where r: "unit_lane r < 31" "deref d r = p"
    by (auto simp add: pair_slot_holds_def)
  with assms(2,3) have "r \<noteq> q" by auto
  with r have "deref (store d q x) r = p" by (simp add: deref_store)
  with r(1) show ?thesis by (auto simp add: pair_slot_holds_def)
qed

lemma pair_slot_holds_store_next:
  assumes "pair_slot_holds d p" and "unit_lane q = 31"
  shows "pair_slot_holds (store d q x) p"
proof -
  from assms(1) obtain r where r: "unit_lane r < 31" "deref d r = p"
    by (auto simp add: pair_slot_holds_def)
  with assms(2) have "r \<noteq> q" by auto
  with r have "deref (store d q x) r = p" by (simp add: deref_store)
  with r(1) show ?thesis by (auto simp add: pair_slot_holds_def)
qed

lemma pair_slot_holds_frame:
  "bucket_list_head d' = bucket_list_head d \<Longrightarrow> slab_units d' = slab_units d \<Longrightarrow>
   pair_slot_holds d' p = pair_slot_holds d p"
proof -
  assume a: "bucket_list_head d' = bucket_list_head d" "slab_units d' = slab_units d"
  have "deref d' q = deref d q" for q using a by (cases q) simp_all
  then show ?thesis by (simp add: pair_slot_holds_def)
qed


lemma deref_frame [simp]:
  "deref (d\<lparr>pair_heap := h\<rparr>) q = deref d q"
  "deref (d\<lparr>slab_heap := h\<rparr>) q = deref d q"
  "deref (d\<lparr>pair_data := x\<rparr>) q = deref d q"
  by (cases q; simp)+

lemma pair_slot_holds_heaps [simp]:
  "pair_slot_holds (d\<lparr>pair_heap := h\<rparr>) p = pair_slot_holds d p"
  "pair_slot_holds (d\<lparr>slab_heap := h\<rparr>) p = pair_slot_holds d p"
  by (simp_all add: pair_slot_holds_def)

lemma insert_inv_frame:
  assumes "insert_inv tbi key val pre st d"
    and "lane_active st' = lane_active st" "iterator st' = iterator st"
    and "found_mask st' = found_mask st" and "pair_data d' = pair_data d"
    and "set (pair_heap d) \<subseteq> set (pair_heap d')"
    and "\<And>p. p \<noteq> EMPTY_PAIR_PTR \<Longrightarrow> pair_slot_holds d p \<Longrightarrow> pair_slot_holds d' p"
  shows "insert_inv tbi key val pre st' d'"
  using assms unfolding insert_inv_def by (auto split: if_splits)

lemma insert_inv_retire:
  assumes "insert_inv tbi key val pre st d" and "s < 32" and "lane_active st s"
    and "lane_active st' = (lane_active st)(s := False)"
    and "\<And>l. l \<noteq> s \<Longrightarrow> iterator st' l = iterator st l"
    and "\<And>l. l \<noteq> s \<Longrightarrow> found_mask st' l = found_mask st l"
    and "pair_data d' = pair_data d"
    and "set (pair_heap d) \<subseteq> set (pair_heap d')"
    and "\<And>p. p \<noteq> EMPTY_PAIR_PTR \<Longrightarrow> pair_slot_holds d p \<Longrightarrow> pair_slot_holds d' p"
    and "if found_mask st' s then iterator st' s = pre s \<and> pair_slot_holds d' (pre s)
         else pre s \<in> set (pair_heap d')"
  shows "insert_inv tbi key val pre st' d'"
  unfolding insert_inv_def
proof (intro allI impI)
  fix l :: nat assume l: "l < 32"
  from assms(1) l have i: "(lane_active st l \<longrightarrow> tbi l) \<and>
        (tbi l \<longrightarrow>
           pre l \<noteq> EMPTY_PAIR_PTR \<and> pair_data d (pre l) = (key l, val l) \<and>
           (if lane_active st l then \<not> found_mask st l
            else if found_mask st l then iterator st l = pre l \<and> pair_slot_holds d (pre l)
            else pre l \<in> set (pair_heap d)))"
    unfolding insert_inv_def by blast
  show "(lane_active st' l \<longrightarrow> tbi l) \<and>
        (tbi l \<longrightarrow>
           pre l \<noteq> EMPTY_PAIR_PTR \<and> pair_data d' (pre l) = (key l, val l) \<and>
           (if lane_active st' l then \<not> found_mask st' l
            else if found_mask st' l then iterator st' l = pre l \<and> pair_slot_holds d' (pre l)
            else pre l \<in> set (pair_heap d')))"
  proof (cases "l = s")
    case True
    with i assms(3,4,7,10) show ?thesis by simp
  next
    case False
    with i assms(4) assms(5)[OF False] assms(6)[OF False] assms(7,8) assms(9)[of "pre l"]
    show ?thesis by (auto split: if_splits)
  qed
qed

lemma Insert_body_keeps_inv:
  assumes s: "lowest_active (lane_active st) = Some s"
    and inv: "insert_inv tbi key val pre st d"
    and b: "Insert_body ctx bucket_id key pre (ballot_sync ACTIVE_LANES_MASK (lane_active st)) [] st d
            = Inr (st', es', d')"
  shows "es' = [] \<and> insert_inv tbi key val pre st' d'"
proof -
  define wq where "wq = ballot_sync ACTIVE_LANES_MASK (lane_active st)"
  define c where "c = (if prev_work_queue st \<noteq> wq then HEAD_SLAB_PTR ctx else curr_slab_ptr st)"
  define u where "u = read_unit_data ctx d c (bucket_id s)"
  note a = lowest_active_Some[OF s]
  from b have b': "Insert_body ctx bucket_id key pre wq [] st d = Inr (st', es', d')"
    by (simp only: wq_def)
  from inv a(1,2) have nm: "\<not> found_mask st s"
    unfolding insert_inv_def by auto
  show ?thesis
  proof (cases "lowest_match d (key s) u")
    case (Some l)
    then have m: "lowest_match d (key s) (read_unit_data ctx d c (bucket_id s)) = Some l"
      by (simp add: u_def)
    have "Insert_body ctx bucket_id key pre wq [] st d =
          Inr (st\<lparr>lane_active := (lane_active st)(s := False),
                 prev_work_queue := wq, curr_slab_ptr := c\<rparr>,
              fst (yield [] d), Free (pre s) (snd (yield [] d)))"
      by (rule Insert_body_duplicate[where key=key and bucket_id=bucket_id, OF s wq_def c_def m])
    with b' have r: "st' = st\<lparr>lane_active := (lane_active st)(s := False),
                 prev_work_queue := wq, curr_slab_ptr := c\<rparr>" "es' = []" "d' = Free (pre s) d"
      by auto
    have "insert_inv tbi key val pre st' d'"
      by (rule insert_inv_retire[OF inv a(1) a(2)])
         (use nm in \<open>auto simp add: r Free_def\<close>)
    with r show ?thesis by simp
  next
    case None
    then have m: "lowest_match d (key s) (read_unit_data ctx d c (bucket_id s)) = None"
      by (simp add: u_def)
    show ?thesis
    proof (cases "lowest_empty u")
      case (Some l)
      then have le: "lowest_empty (read_unit_data ctx d c (bucket_id s)) = Some l"
        by (simp add: u_def)
      note e = lowest_empty_Some[OF le]
      define p where "p = unit_ptr_of ctx c (bucket_id s) l"
      from e(2) have de: "deref d p = EMPTY_PAIR_PTR" by (simp add: read_unit_data_deref p_def)
      have pl: "unit_lane p = l" by (simp add: p_def)
      from Insert_body_empty_slot[where key=key and bucket_id=bucket_id, OF s wq_def c_def m le,
          of pre "[]"] de
      have "Insert_body ctx bucket_id key pre wq [] st d =
            Inr (st\<lparr>lane_active := (lane_active st)(s := False),
                          iterator := (iterator st)(s := pre s),
                          found_mask := (found_mask st)(s := True),
                          prev_work_queue := wq, curr_slab_ptr := c\<rparr>, [], store d p (pre s))"
        by (simp add: Let_def p_def)
      with b' have r: "st' = st\<lparr>lane_active := (lane_active st)(s := False),
                          iterator := (iterator st)(s := pre s),
                          found_mask := (found_mask st)(s := True),
                          prev_work_queue := wq, curr_slab_ptr := c\<rparr>"
        "es' = []" "d' = store d p (pre s)"
        by auto
      have "insert_inv tbi key val pre st' d'"
      proof (rule insert_inv_retire[OF inv a(1) a(2)])
        show "if found_mask st' s then iterator st' s = pre s \<and> pair_slot_holds d' (pre s)
              else pre s \<in> set (pair_heap d')"
          using e(1) pl by (auto simp add: r pair_slot_holds_def deref_store intro!: exI[of _ p])
        show "\<And>q. q \<noteq> EMPTY_PAIR_PTR \<Longrightarrow> pair_slot_holds d q \<Longrightarrow> pair_slot_holds d' q"
          unfolding r by (rule pair_slot_holds_store[OF _ _ de])
      qed (simp_all add: r)
      with r show ?thesis by simp
    next
      case en: None
      then have le: "lowest_empty (read_unit_data ctx d c (bucket_id s)) = None"
        by (simp add: u_def)
      show ?thesis
      proof (cases "u 31 = EMPTY_SLAB_PTR")
        case False
        then have nx: "read_unit_data ctx d c (bucket_id s) 31 \<noteq> EMPTY_SLAB_PTR"
          by (simp add: u_def)
        have "Insert_body ctx bucket_id key pre wq [] st d =
              Inr (st\<lparr>prev_work_queue := wq,
                 curr_slab_ptr := read_unit_data ctx d c (bucket_id s) 31\<rparr>, [], d)"
          by (rule Insert_body_next_slab[where key=key and bucket_id=bucket_id,
                OF s wq_def c_def m le nx])
        with b' have r: "st' = st\<lparr>prev_work_queue := wq,
                 curr_slab_ptr := read_unit_data ctx d c (bucket_id s) 31\<rparr>" "es' = []" "d' = d"
          by auto
        have "insert_inv tbi key val pre st' d'"
          by (rule insert_inv_frame[OF inv]) (simp_all add: r)
        with r show ?thesis by simp
      next
        case True
        then have nx: "read_unit_data ctx d c (bucket_id s) 31 = EMPTY_SLAB_PTR"
          by (simp add: u_def)
        define p where "p = unit_ptr_of ctx c (bucket_id s) 31"
        from nx have de: "deref d p = EMPTY_SLAB_PTR" by (simp add: read_unit_data_deref p_def)
        have pl: "unit_lane p = 31" by (simp add: p_def)
        from b' Insert_body_extend[where key=key and bucket_id=bucket_id, OF s wq_def c_def m le nx,
          of pre "[]"] de
        obtain new_slab ss where al: "slab_heap d = new_slab # ss"
          and r: "st' = st\<lparr>prev_work_queue := wq, curr_slab_ptr := c\<rparr>" "es' = []"
            "d' = store (d\<lparr>slab_heap := ss\<rparr>) p new_slab"
          by (cases "slab_heap d") (simp_all add: AllocateSlab_def p_def)
        have "insert_inv tbi key val pre st' d'"
        proof (rule insert_inv_frame[OF inv])
          show "\<And>q. q \<noteq> EMPTY_PAIR_PTR \<Longrightarrow> pair_slot_holds d q \<Longrightarrow> pair_slot_holds d' q"
            unfolding r using pl by (intro pair_slot_holds_store_next) simp_all
        qed (simp_all add: r)
        with r show ?thesis by simp
      qed
    qed
  qed
qed

lemma Insert_loop_keeps_inv:
  assumes "Insert_loop ctx bucket_id key pre es st d = Some y"
  shows "es = [] \<longrightarrow> insert_inv tbi key val pre st d \<longrightarrow>
         (\<forall>st' es' d'. y = Inr (st', es', d') \<longrightarrow>
            es' = [] \<and> insert_inv tbi key val pre st' d' \<and> (\<forall>l<32. \<not> lane_active st' l))"
proof (rule Insert_loop.raw_induct[where P="\<lambda>ctx bucket_id key pre es st d y.
         es = [] \<longrightarrow> insert_inv tbi key val pre st d \<longrightarrow>
         (\<forall>st' es' d'. y = Inr (st', es', d') \<longrightarrow>
            es' = [] \<and> insert_inv tbi key val pre st' d' \<and> (\<forall>l<32. \<not> lane_active st' l))",
       OF _ assms], goal_cases)
  case (1 loop ctx bucket_id key pre es st d y)
  show ?case
  proof (intro impI allI)
    fix st' es' d'
    assume es: "es = []" and inv: "insert_inv tbi key val pre st d" and y: "y = Inr (st', es', d')"
    show "es' = [] \<and> insert_inv tbi key val pre st' d' \<and> (\<forall>l<32. \<not> lane_active st' l)"
    proof (cases "lowest_active (lane_active st)")
      case None
      then have "ballot_sync ACTIVE_LANES_MASK (lane_active st) = 0"
        by (simp add: work_queue_eq_0_iff)
      with 1(2) y have "st' = st" "es' = es" "d' = d" by simp_all
      with es inv None show ?thesis by (simp add: lowest_active_None)
    next
      case (Some s)
      then have nz: "ballot_sync ACTIVE_LANES_MASK (lane_active st) \<noteq> 0"
        by (simp add: work_queue_eq_0_iff)
      from 1(2) nz es obtain st1 es1 d1 where
        b: "Insert_body ctx bucket_id key pre (ballot_sync ACTIVE_LANES_MASK (lane_active st)) [] st d
              = Inr (st1, es1, d1)"
        and l: "loop ctx bucket_id key pre es1 st1 d1 = Some y"
        using y by (auto simp add: Let_def split: sum.splits)
      from Insert_body_keeps_inv[OF Some inv b] have "es1 = []" "insert_inv tbi key val pre st1 d1"
        by simp_all
      with 1(1)[OF l] y show ?thesis by simp
    qed
  qed
qed

lemma Insert_body_no_duplicate:
  assumes s: "lowest_active (lane_active st) = Some s"
    and wq: "wq = ballot_sync ACTIVE_LANES_MASK (lane_active st)"
    and c: "c = (if prev_work_queue st \<noteq> wq then HEAD_SLAB_PTR ctx else curr_slab_ptr st)"
    and m: "lowest_match d (key s) (read_unit_data ctx d c (bucket_id s)) = None"
    and b: "Insert_body ctx bucket_id key pre wq [] st d = Inr (st', es', d')"
  shows "pair_heap d' = pair_heap d \<and> pair_data d' = pair_data d \<and>
         (\<not> lane_active st' s \<longrightarrow>
            found_mask st' s \<and> iterator st' s = pre s \<and> pair_slot_holds d' (pre s))"
proof -
  note a = lowest_active_Some[OF s]
  show ?thesis
  proof (cases "lowest_empty (read_unit_data ctx d c (bucket_id s))")
    case (Some l)
    note e = lowest_empty_Some[OF Some]
    define p where "p = unit_ptr_of ctx c (bucket_id s) l"
    from e(2) have de: "deref d p = EMPTY_PAIR_PTR" by (simp add: read_unit_data_deref p_def)
    have pl: "unit_lane p = l" by (simp add: p_def)
    from Insert_body_empty_slot[where key=key and bucket_id=bucket_id, OF s wq c m Some,
          of pre "[]"] de
    have "Insert_body ctx bucket_id key pre wq [] st d =
            Inr (st\<lparr>lane_active := (lane_active st)(s := False),
                          iterator := (iterator st)(s := pre s),
                          found_mask := (found_mask st)(s := True),
                          prev_work_queue := wq, curr_slab_ptr := c\<rparr>, [], store d p (pre s))"
      by (simp add: Let_def p_def)
    with b have r: "st' = st\<lparr>lane_active := (lane_active st)(s := False),
                          iterator := (iterator st)(s := pre s),
                          found_mask := (found_mask st)(s := True),
                          prev_work_queue := wq, curr_slab_ptr := c\<rparr>"
        "es' = []" "d' = store d p (pre s)"
      by auto
    have "pair_slot_holds d' (pre s)"
      using e(1) pl by (auto simp add: r pair_slot_holds_def deref_store intro!: exI[of _ p])
    then show ?thesis by (simp add: r)
  next
    case None
    show ?thesis
    proof (cases "read_unit_data ctx d c (bucket_id s) 31 = EMPTY_SLAB_PTR")
      case False
      have "Insert_body ctx bucket_id key pre wq [] st d =
              Inr (st\<lparr>prev_work_queue := wq,
                 curr_slab_ptr := read_unit_data ctx d c (bucket_id s) 31\<rparr>, [], d)"
        by (rule Insert_body_next_slab[where key=key and bucket_id=bucket_id,
                OF s wq c m None False])
      with b have r: "st' = st\<lparr>prev_work_queue := wq,
                 curr_slab_ptr := read_unit_data ctx d c (bucket_id s) 31\<rparr>" "es' = []" "d' = d"
        by auto
      then show ?thesis using a(2) by simp
    next
      case True
      define p where "p = unit_ptr_of ctx c (bucket_id s) 31"
      from True have de: "deref d p = EMPTY_SLAB_PTR" by (simp add: read_unit_data_deref p_def)
      from b Insert_body_extend[where key=key and bucket_id=bucket_id, OF s wq c m None True,
          of pre "[]"] de
      obtain new_slab ss where al: "slab_heap d = new_slab # ss"
        and r: "st' = st\<lparr>prev_work_queue := wq, curr_slab_ptr := c\<rparr>" "es' = []"
            "d' = store (d\<lparr>slab_heap := ss\<rparr>) p new_slab"
        by (cases "slab_heap d") (simp_all add: AllocateSlab_def p_def)
      then show ?thesis using a(2) by simp
    qed
  qed
qed

lemma Insert_body_keeps_results:
  assumes s: "lowest_active (lane_active st) = Some s"
    and b: "Insert_body ctx bucket_id key pre (ballot_sync ACTIVE_LANES_MASK (lane_active st)) es st d
              = Inr (st1, es1, d1)"
    and J: "\<forall>l<32. (lane_active st l \<longrightarrow> tbi l) \<and> (found_mask st l \<longrightarrow> tbi l \<and> iterator st l = pre l)"
  shows "\<forall>l<32. (lane_active st1 l \<longrightarrow> tbi l) \<and> (found_mask st1 l \<longrightarrow> tbi l \<and> iterator st1 l = pre l)"
proof -
  note a = lowest_active_Some[OF s]
  from J a(1,2) have ts: "tbi s" by simp
  define c where "c = (if prev_work_queue st \<noteq> ballot_sync ACTIVE_LANES_MASK (lane_active st)
                       then HEAD_SLAB_PTR ctx else curr_slab_ptr st)"
  note E = Insert_body_cases[where key=key and bucket_id=bucket_id and d=d, OF s refl c_def, of pre es]
  from b E have D: "st1 = st\<lparr>lane_active := (lane_active st)(s := False),
                      prev_work_queue := ballot_sync ACTIVE_LANES_MASK (lane_active st),
                      curr_slab_ptr := c\<rparr>
      \<or> st1 = st\<lparr>lane_active := (lane_active st)(s := False),
                    iterator := (iterator st)(s := pre s),
                    found_mask := (found_mask st)(s := True),
                    prev_work_queue := ballot_sync ACTIVE_LANES_MASK (lane_active st),
                    curr_slab_ptr := c\<rparr>
      \<or> (lane_active st1 = lane_active st \<and> found_mask st1 = found_mask st
           \<and> iterator st1 = iterator st)"
    by (auto simp add: Let_def split_beta split: option.splits if_splits)
  have X: "(lane_active st1 l \<longrightarrow> tbi l) \<and> (found_mask st1 l \<longrightarrow> tbi l \<and> iterator st1 l = pre l)"
    if "l < 32" for l
  proof -
    from that J have Jl: "lane_active st l \<longrightarrow> tbi l"
      "found_mask st l \<longrightarrow> tbi l \<and> iterator st l = pre l"
      by simp_all
    from D Jl ts show ?thesis
      by (elim disjE) (auto split: if_splits)
  qed
  then show ?thesis by blast
qed

lemma Insert_loop_keeps_results:
  assumes "Insert_loop ctx bucket_id key pre es st d = Some y"
  shows "(\<forall>l<32. (lane_active st l \<longrightarrow> tbi l) \<and> (found_mask st l \<longrightarrow> tbi l \<and> iterator st l = pre l)) \<longrightarrow>
         (\<forall>st' es' d'. y = Inr (st', es', d') \<longrightarrow>
            (\<forall>l<32. \<not> lane_active st' l \<and> (found_mask st' l \<longrightarrow> tbi l \<and> iterator st' l = pre l)))"
proof (rule Insert_loop.raw_induct[where P="\<lambda>ctx bucket_id key pre es st d y.
         (\<forall>l<32. (lane_active st l \<longrightarrow> tbi l) \<and> (found_mask st l \<longrightarrow> tbi l \<and> iterator st l = pre l)) \<longrightarrow>
         (\<forall>st' es' d'. y = Inr (st', es', d') \<longrightarrow>
            (\<forall>l<32. \<not> lane_active st' l \<and> (found_mask st' l \<longrightarrow> tbi l \<and> iterator st' l = pre l)))",
       OF _ assms], goal_cases)
  case (1 loop ctx bucket_id key pre es st d y)
  show ?case
  proof (rule impI, rule allI, rule allI, rule allI, rule impI)
    fix st' es' d'
    assume J: "\<forall>l<32. (lane_active st l \<longrightarrow> tbi l) \<and> (found_mask st l \<longrightarrow> tbi l \<and> iterator st l = pre l)"
      and y: "y = Inr (st', es', d')"
    show "\<forall>l<32. \<not> lane_active st' l \<and> (found_mask st' l \<longrightarrow> tbi l \<and> iterator st' l = pre l)"
    proof (cases "lowest_active (lane_active st)")
      case None
      then have "ballot_sync ACTIVE_LANES_MASK (lane_active st) = 0"
        by (simp add: work_queue_eq_0_iff)
      with 1(2) y have "st' = st" by simp
      with J None show ?thesis by (simp add: lowest_active_None)
    next
      case (Some s)
      then have nz: "ballot_sync ACTIVE_LANES_MASK (lane_active st) \<noteq> 0"
        by (simp add: work_queue_eq_0_iff)
      from 1(2) nz y obtain st1 es1 d1 where
        b: "Insert_body ctx bucket_id key pre (ballot_sync ACTIVE_LANES_MASK (lane_active st))
              (fst (yield es d)) st (snd (yield es d)) = Inr (st1, es1, d1)"
        and l: "loop ctx bucket_id key pre es1 st1 d1 = Some y"
        by (auto simp add: Let_def split_beta split: sum.splits)
      from Insert_body_keeps_results[OF Some b J]
      have "\<forall>l<32. (lane_active st1 l \<longrightarrow> tbi l) \<and> (found_mask st1 l \<longrightarrow> tbi l \<and> iterator st1 l = pre l)" .
      with 1(1)[OF l] y show ?thesis by simp
    qed
  qed
qed

lemma Insert_body_frees_on_duplicate_only:
  assumes s: "lowest_active (lane_active st) = Some s"
    and wq: "wq = ballot_sync ACTIVE_LANES_MASK (lane_active st)"
    and c: "c = (if prev_work_queue st \<noteq> wq then HEAD_SLAB_PTR ctx else curr_slab_ptr st)"
  shows "case lowest_match dx (key s) (read_unit_data ctx dx c (bucket_id s)) of
           Some l \<Rightarrow>
             (\<forall>es. Insert_body ctx bucket_id key pre wq es st dx =
                Inr (st\<lparr>lane_active := (lane_active st)(s := False),
                        prev_work_queue := wq, curr_slab_ptr := c\<rparr>,
                     fst (yield es dx), Free (pre s) (snd (yield es dx))))
         | None \<Rightarrow>
             (\<forall>st' es' d'. Insert_body ctx bucket_id key pre wq [] st dx = Inr (st', es', d') \<longrightarrow>
                pair_heap d' = pair_heap dx \<and> pair_data d' = pair_data dx \<and>
                (\<not> lane_active st' s \<longrightarrow>
                   found_mask st' s \<and> iterator st' s = pre s \<and> pair_slot_holds d' (pre s)))
           \<and> (\<forall>es st' es' d'. Insert_body ctx bucket_id key pre wq es st dx = Inr (st', es', d') \<longrightarrow>
                (\<not> lane_active st' s \<longrightarrow>
                   found_mask st' s \<and> iterator st' s = pre s \<and> pair_slot_holds d' (pre s)))
           \<and> (\<forall>es. Insert_body ctx bucket_id key pre wq es st dx =
                (case lowest_empty (read_unit_data ctx dx c (bucket_id s)) of
                   Some l \<Rightarrow>
                     (let d1 = snd (yield es dx); p = unit_ptr_of ctx c (bucket_id s) l
                      in if deref d1 p = EMPTY_PAIR_PTR
                         then Inr (st\<lparr>lane_active := (lane_active st)(s := False),
                                      iterator := (iterator st)(s := pre s),
                                      found_mask := (found_mask st)(s := True),
                                      prev_work_queue := wq, curr_slab_ptr := c\<rparr>,
                                   fst (yield es dx), store d1 p (pre s))
                         else Inr (st\<lparr>prev_work_queue := wq, curr_slab_ptr := c\<rparr>,
                                   fst (yield es dx), d1))
                 | None \<Rightarrow>
                     if read_unit_data ctx dx c (bucket_id s) 31 \<noteq> EMPTY_SLAB_PTR
                     then Inr (st\<lparr>prev_work_queue := wq,
                                  curr_slab_ptr := read_unit_data ctx dx c (bucket_id s) 31\<rparr>,
                               es, dx)
                     else
                       (let (es1, d1) = yield es dx
                        in case AllocateSlab d1 of
                             None \<Rightarrow> Inl OutOfSlabs
                           | Some (new_slab, d2) \<Rightarrow>
                               let p = unit_ptr_of ctx c (bucket_id s) 31;
                                   (es2, d3) = yield es1 d2
                               in if deref d3 p \<noteq> EMPTY_SLAB_PTR
                                  then Inr (st\<lparr>prev_work_queue := wq, curr_slab_ptr := c\<rparr>,
                                            fst (yield es2 d3),
                                            FreeSlab new_slab (snd (yield es2 d3)))
                                  else Inr (st\<lparr>prev_work_queue := wq, curr_slab_ptr := c\<rparr>,
                                            es2, store d3 p new_slab))))"
proof (cases "lowest_match dx (key s) (read_unit_data ctx dx c (bucket_id s))")
  case None
  note a = lowest_active_Some[OF s]
  note E = Insert_body_cases[where key=key and bucket_id=bucket_id and d=dx, OF s wq c, of pre]
  have r: "found_mask st' s \<and> iterator st' s = pre s \<and> pair_slot_holds d' (pre s)"
    if b: "Insert_body ctx bucket_id key pre wq es st dx = Inr (st', es', d')"
      and i: "\<not> lane_active st' s" for es st' es' d'
  proof (cases "lowest_empty (read_unit_data ctx dx c (bucket_id s))")
    case (Some l)
    note e = lowest_empty_Some[OF Some]
    define p where "p = unit_ptr_of ctx c (bucket_id s) l"
    have pl: "unit_lane p = l" by (simp add: p_def)
    show ?thesis
    proof (cases "deref (snd (yield es dx)) p = EMPTY_PAIR_PTR")
      case True
      with b E[of es] None Some
      have st': "st' = st\<lparr>lane_active := (lane_active st)(s := False),
                          iterator := (iterator st)(s := pre s),
                          found_mask := (found_mask st)(s := True),
                          prev_work_queue := wq, curr_slab_ptr := c\<rparr>"
        and d': "d' = store (snd (yield es dx)) p (pre s)"
        by (auto simp add: Let_def p_def)
      have "pair_slot_holds d' (pre s)"
        using e(1) pl by (auto simp add: d' pair_slot_holds_def deref_store intro!: exI[of _ p])
      then show ?thesis by (simp add: st')
    next
      case False
      with b E[of es] None Some
      have "st' = st\<lparr>prev_work_queue := wq, curr_slab_ptr := c\<rparr>"
        by (auto simp add: Let_def p_def)
      with i a(2) show ?thesis by simp
    qed
  next
    case N: None
    from b E[of es] None N
    have "lane_active st' = lane_active st"
      by (auto simp add: Let_def split_beta split: if_splits option.splits)
    with i a(2) show ?thesis by simp
  qed
  from Insert_body_no_duplicate[where key=key and bucket_id=bucket_id, OF s wq c None]
  have one: "\<forall>st' es' d'. Insert_body ctx bucket_id key pre wq [] st dx = Inr (st', es', d') \<longrightarrow>
                pair_heap d' = pair_heap dx \<and> pair_data d' = pair_data dx \<and>
                (\<not> lane_active st' s \<longrightarrow>
                   found_mask st' s \<and> iterator st' s = pre s \<and> pair_slot_holds d' (pre s))"
    by blast
  from r have two: "\<forall>es st' es' d'. Insert_body ctx bucket_id key pre wq es st dx = Inr (st', es', d') \<longrightarrow>
                (\<not> lane_active st' s \<longrightarrow>
                   found_mask st' s \<and> iterator st' s = pre s \<and> pair_slot_holds d' (pre s))"
    by blast
  from E None have three: "\<forall>es. Insert_body ctx bucket_id key pre wq es st dx =
                (case lowest_empty (read_unit_data ctx dx c (bucket_id s)) of
                   Some l \<Rightarrow>
                     (let d1 = snd (yield es dx); p = unit_ptr_of ctx c (bucket_id s) l
                      in if deref d1 p = EMPTY_PAIR_PTR
                         then Inr (st\<lparr>lane_active := (lane_active st)(s := False),
                                      iterator := (iterator st)(s := pre s),
                                      found_mask := (found_mask st)(s := True),
                                      prev_work_queue := wq, curr_slab_ptr := c\<rparr>,
                                   fst (yield es dx), store d1 p (pre s))
                         else Inr (st\<lparr>prev_work_queue := wq, curr_slab_ptr := c\<rparr>,
                                   fst (yield es dx), d1))
                 | None \<Rightarrow>
                     if read_unit_data ctx dx c (bucket_id s) 31 \<noteq> EMPTY_SLAB_PTR
                     then Inr (st\<lparr>prev_work_queue := wq,
                                  curr_slab_ptr := read_unit_data ctx dx c (bucket_id s) 31\<rparr>,
                               es, dx)
                     else
                       (let (es1, d1) = yield es dx
                        in case AllocateSlab d1 of
                             None \<Rightarrow> Inl OutOfSlabs
                           | Some (new_slab, d2) \<Rightarrow>
                               let p = unit_ptr_of ctx c (bucket_id s) 31;
                                   (es2, d3) = yield es1 d2
                               in if deref d3 p \<noteq> EMPTY_SLAB_PTR
                                  then Inr (st\<lparr>prev_work_queue := wq, curr_slab_ptr := c\<rparr>,
                                            fst (yield es2 d3),
                                            FreeSlab new_slab (snd (yield es2 d3)))
                                  else Inr (st\<lparr>prev_work_queue := wq, curr_slab_ptr := c\<rparr>,
                                            es2, store d3 p new_slab)))"
    by simp
  from one two three show ?thesis unfolding None option.case by (intro conjI)
next
  case (Some l)
  with Insert_body_duplicate[where key=key and bucket_id=bucket_id, OF s wq c Some]
  show ?thesis by simp
qed

text \<open>
  C5. In Insert every lane that enters with \<open>active = true\<close> allocates its pair record
  before the first iteration (given enough free records the allocation succeeds, and
  Insert is the loop started from the allocated records), and the record holds the
  lane's key and value from then on; the pre-allocation writes no slot, so the index
  is published by no CAS before the record is written. In an iteration the record of
  the serviced lane is given back to the pair allocator exactly when the slab at hand
  holds the key (the duplicate branch). In the other branches, under every schedule of
  the other warps, the iteration is the publication CAS, the move to the next slab or
  the slab extension, written out in the theorem: none of them frees a record, a lane
  that loses its CAS stays active with its record, and a lane that turns inactive has
  \<open>mask = true\<close>, its record as \<open>iterator\<close> and its index in a pair slot; with no other
  warp the free list and the records stay as they are. For a whole Insert of a warp alone
  that returns: every lane ends inactive, and every inserting lane has either its record
  published in a pair slot (\<open>mask = true\<close>) or back in the free list (\<open>mask = false\<close>).
  For a whole Insert that returns under any schedule of the other warps: every lane ends
  inactive, and a lane that ends with \<open>mask = true\<close> entered active and has its own
  pre-allocated record as \<open>iterator\<close>.
  The free list is taken to hold distinct indices, none of them \<open>EMPTY_PAIR\<close>.
\<close>

theorem Insert_preallocates:
  assumes dh: "distinct (pair_heap d)" and ne: "EMPTY_PAIR_PTR \<notin> set (pair_heap d)"
  shows
   "(length (filter to_be_inserted [0..<32]) \<le> length (pair_heap d) \<longrightarrow>
       (\<exists>pre d0. prealloc_lanes [0..<32] to_be_inserted key val (\<lambda>_. EMPTY_PAIR_PTR) d = Inr (pre, d0)))
  \<and> (\<forall>pre d0. prealloc_lanes [0..<32] to_be_inserted key val (\<lambda>_. EMPTY_PAIR_PTR) d = Inr (pre, d0) \<longrightarrow>
        (\<forall>es. Insert ctx to_be_inserted bucket_id key val es d =
           Insert_loop ctx bucket_id key pre es
             \<lparr>lane_active = to_be_inserted, iterator = (\<lambda>_. NULL_ITERATOR ctx),
              found_mask = (\<lambda>_. False), prev_work_queue = 0,
              curr_slab_ptr = HEAD_SLAB_PTR ctx\<rparr> d0)
      \<and> bucket_list_head d0 = bucket_list_head d \<and> slab_units d0 = slab_units d
      \<and> (\<forall>l<32. if to_be_inserted l
                  then pre l \<in> set (pair_heap d) \<and> pre l \<notin> set (pair_heap d0)
                       \<and> pair_data d0 (pre l) = (key l, val l)
                  else pre l = EMPTY_PAIR_PTR)
      \<and> (\<forall>st' es' d'. Insert ctx to_be_inserted bucket_id key val [] d = Some (Inr (st', es', d')) \<longrightarrow>
            (\<forall>l<32. \<not> lane_active st' l \<and>
               (to_be_inserted l \<longrightarrow>
                  pair_data d' (pre l) = (key l, val l) \<and>
                  (if found_mask st' l then iterator st' l = pre l \<and> pair_slot_holds d' (pre l)
                   else pre l \<in> set (pair_heap d')))))
      \<and> (\<forall>es st' es' d'. Insert ctx to_be_inserted bucket_id key val es d = Some (Inr (st', es', d')) \<longrightarrow>
            (\<forall>l<32. \<not> lane_active st' l \<and>
               (found_mask st' l \<longrightarrow> to_be_inserted l \<and> iterator st' l = pre l))))
  \<and> (\<forall>st dx s wq c pre. lowest_active (lane_active st) = Some s
        \<and> wq = ballot_sync ACTIVE_LANES_MASK (lane_active st)
        \<and> c = (if prev_work_queue st \<noteq> wq then HEAD_SLAB_PTR ctx else curr_slab_ptr st) \<longrightarrow>
        (case lowest_match dx (key s) (read_unit_data ctx dx c (bucket_id s)) of
           Some l \<Rightarrow>
             (\<forall>es. Insert_body ctx bucket_id key pre wq es st dx =
                Inr (st\<lparr>lane_active := (lane_active st)(s := False),
                        prev_work_queue := wq, curr_slab_ptr := c\<rparr>,
                     fst (yield es dx), Free (pre s) (snd (yield es dx))))
         | None \<Rightarrow>
             (\<forall>st' es' d'. Insert_body ctx bucket_id key pre wq [] st dx = Inr (st', es', d') \<longrightarrow>
                pair_heap d' = pair_heap dx \<and> pair_data d' = pair_data dx \<and>
                (\<not> lane_active st' s \<longrightarrow>
                   found_mask st' s \<and> iterator st' s = pre s \<and> pair_slot_holds d' (pre s)))
           \<and> (\<forall>es st' es' d'. Insert_body ctx bucket_id key pre wq es st dx = Inr (st', es', d') \<longrightarrow>
                (\<not> lane_active st' s \<longrightarrow>
                   found_mask st' s \<and> iterator st' s = pre s \<and> pair_slot_holds d' (pre s)))
           \<and> (\<forall>es. Insert_body ctx bucket_id key pre wq es st dx =
                (case lowest_empty (read_unit_data ctx dx c (bucket_id s)) of
                   Some l \<Rightarrow>
                     (let d1 = snd (yield es dx); p = unit_ptr_of ctx c (bucket_id s) l
                      in if deref d1 p = EMPTY_PAIR_PTR
                         then Inr (st\<lparr>lane_active := (lane_active st)(s := False),
                                      iterator := (iterator st)(s := pre s),
                                      found_mask := (found_mask st)(s := True),
                                      prev_work_queue := wq, curr_slab_ptr := c\<rparr>,
                                   fst (yield es dx), store d1 p (pre s))
                         else Inr (st\<lparr>prev_work_queue := wq, curr_slab_ptr := c\<rparr>,
                                   fst (yield es dx), d1))
                 | None \<Rightarrow>
                     if read_unit_data ctx dx c (bucket_id s) 31 \<noteq> EMPTY_SLAB_PTR
                     then Inr (st\<lparr>prev_work_queue := wq,
                                  curr_slab_ptr := read_unit_data ctx dx c (bucket_id s) 31\<rparr>,
                               es, dx)
                     else
                       (let (es1, d1) = yield es dx
                        in case AllocateSlab d1 of
                             None \<Rightarrow> Inl OutOfSlabs
                           | Some (new_slab, d2) \<Rightarrow>
                               let p = unit_ptr_of ctx c (bucket_id s) 31;
                                   (es2, d3) = yield es1 d2
                               in if deref d3 p \<noteq> EMPTY_SLAB_PTR
                                  then Inr (st\<lparr>prev_work_queue := wq, curr_slab_ptr := c\<rparr>,
                                            fst (yield es2 d3),
                                            FreeSlab new_slab (snd (yield es2 d3)))
                                  else Inr (st\<lparr>prev_work_queue := wq, curr_slab_ptr := c\<rparr>,
                                            es2, store d3 p new_slab))))))"
proof (intro conjI allI impI)
  assume "length (filter to_be_inserted [0..<32]) \<le> length (pair_heap d)"
  from prealloc_lanes_succeeds[OF this]
  show "\<exists>pre d0. prealloc_lanes [0..<32] to_be_inserted key val (\<lambda>_. EMPTY_PAIR_PTR) d = Inr (pre, d0)"
    by auto
next
  fix pre d0 es
  assume "prealloc_lanes [0..<32] to_be_inserted key val (\<lambda>_. EMPTY_PAIR_PTR) d = Inr (pre, d0)"
  then show "Insert ctx to_be_inserted bucket_id key val es d =
           Insert_loop ctx bucket_id key pre es
             \<lparr>lane_active = to_be_inserted, iterator = (\<lambda>_. NULL_ITERATOR ctx),
              found_mask = (\<lambda>_. False), prev_work_queue = 0,
              curr_slab_ptr = HEAD_SLAB_PTR ctx\<rparr> d0"
    by (simp add: Insert_def)
next
  fix pre d0
  assume p: "prealloc_lanes [0..<32] to_be_inserted key val (\<lambda>_. EMPTY_PAIR_PTR) d = Inr (pre, d0)"
  from prealloc_lanes_spec[OF p _ dh] obtain used where
    u: "pair_heap d = used @ pair_heap d0"
       "\<forall>l. l \<in> set [0..<32] \<and> to_be_inserted l \<longrightarrow>
              pre l \<in> set used \<and> pair_data d0 (pre l) = (key l, val l)"
       "\<forall>l. \<not> (l \<in> set [0..<32] \<and> to_be_inserted l) \<longrightarrow> pre l = EMPTY_PAIR_PTR"
       "bucket_list_head d0 = bucket_list_head d" "slab_units d0 = slab_units d"
    by auto
  show "bucket_list_head d0 = bucket_list_head d" by (rule u(4))
  show "slab_units d0 = slab_units d" by (rule u(5))
  from dh u(1) have dis: "set used \<inter> set (pair_heap d0) = {}" by simp
  have pl: "\<forall>l<32. if to_be_inserted l
                  then pre l \<in> set (pair_heap d) \<and> pre l \<notin> set (pair_heap d0)
                       \<and> pair_data d0 (pre l) = (key l, val l)
                  else pre l = EMPTY_PAIR_PTR"
    using u(1,2,3) dis by auto
  show "if to_be_inserted l
        then pre l \<in> set (pair_heap d) \<and> pre l \<notin> set (pair_heap d0)
             \<and> pair_data d0 (pre l) = (key l, val l)
        else pre l = EMPTY_PAIR_PTR" if "l < 32" for l :: nat
    using pl that by simp
  let ?st0 = "\<lparr>lane_active = to_be_inserted, iterator = (\<lambda>_. NULL_ITERATOR ctx),
              found_mask = (\<lambda>_. False), prev_work_queue = 0,
              curr_slab_ptr = HEAD_SLAB_PTR ctx\<rparr>"
  have inv0: "insert_inv to_be_inserted key val pre ?st0 d0"
    unfolding insert_inv_def using pl ne by auto
  {
    fix st' es' d' and l :: nat
    assume I: "Insert ctx to_be_inserted bucket_id key val [] d = Some (Inr (st', es', d'))"
      and l: "l < 32"
    from I p have L: "Insert_loop ctx bucket_id key pre [] ?st0 d0 = Some (Inr (st', es', d'))"
      by (simp add: Insert_def)
    from Insert_loop_keeps_inv[OF L, of to_be_inserted val] inv0
    have f: "insert_inv to_be_inserted key val pre st' d'" "\<forall>l<32. \<not> lane_active st' l"
      by simp_all
    from f(2) l show "\<not> lane_active st' l" by simp
    assume t: "to_be_inserted l"
    from f l t show "pair_data d' (pre l) = (key l, val l)"
      unfolding insert_inv_def by auto
    from f l t show "if found_mask st' l then iterator st' l = pre l \<and> pair_slot_holds d' (pre l)
          else pre l \<in> set (pair_heap d')"
      unfolding insert_inv_def by auto
  }
  {
    fix esa sta esa' da and la :: nat
    assume Ia: "Insert ctx to_be_inserted bucket_id key val esa d = Some (Inr (sta, esa', da))"
      and la: "la < 32"
    from Ia p have La: "Insert_loop ctx bucket_id key pre esa ?st0 d0 = Some (Inr (sta, esa', da))"
      by (simp add: Insert_def)
    from Insert_loop_keeps_results[OF La, of to_be_inserted]
    have R: "\<forall>l<32. \<not> lane_active sta l \<and>
               (found_mask sta l \<longrightarrow> to_be_inserted l \<and> iterator sta l = pre l)"
      by simp
    from R la show "\<not> lane_active sta la" by simp
    {
      assume fm: "found_mask sta la"
      from R la fm show "to_be_inserted la" by simp
      from R la fm show "iterator sta la = pre la" by simp
    }
  }
qed (elim conjE, rule Insert_body_frees_on_duplicate_only)


lemma prealloc_lane_0:
  "prealloc_lanes [0..<32] (\<lambda>l. l = 0) key val (\<lambda>_. EMPTY_PAIR_PTR) table_one =
   Inr ((\<lambda>_. EMPTY_PAIR_PTR)(0 := 1),
        table_one\<lparr>pair_heap := [2, 3],
                    pair_data := (pair_data table_one)(1 := (key 0, val 0))\<rparr>)"
  by (simp add: upt_rec Allocate_def table_one_def)

lemma Insert_lane_0_run:
  "\<exists>st' d'. Insert ctx1 (\<lambda>l. l = 0) (\<lambda>l. 0) (\<lambda>l. 5) (\<lambda>l. 50) [] table_one
              = Some (Inr (st', [], d')) \<and> found_mask st' 0"
proof -
  define pre :: "nat \<Rightarrow> ptr_t" where "pre = (\<lambda>_. EMPTY_PAIR_PTR)(0 := 1)"
  define d0 :: "(32 word, 32 word) device" where
    "d0 = table_one\<lparr>pair_heap := [2, 3], pair_data := (pair_data table_one)(1 := (5, 50))\<rparr>"
  define st0 where "st0 = \<lparr>lane_active = (\<lambda>l::nat. l = 0), iterator = (\<lambda>_. NULL_ITERATOR ctx1),
              found_mask = (\<lambda>_. False), prev_work_queue = 0,
              curr_slab_ptr = HEAD_SLAB_PTR ctx1\<rparr>"
  define wq where "wq = ballot_sync ACTIVE_LANES_MASK (lane_active st0)"
  define c where "c = (if prev_work_queue st0 \<noteq> wq then HEAD_SLAB_PTR ctx1 else curr_slab_ptr st0)"
  have I: "Insert ctx1 (\<lambda>l. l = 0) (\<lambda>l. 0) (\<lambda>l. 5) (\<lambda>l. 50) [] table_one =
           Insert_loop ctx1 (\<lambda>l. 0) (\<lambda>l. 5) pre [] st0 d0"
    by (simp add: Insert_def prealloc_lane_0 pre_def d0_def st0_def)
  have s: "lowest_active (lane_active st0) = Some 0"
    by (rule lowest_active_eqI) (simp_all add: st0_def)
  have wz: "wq \<noteq> 0" unfolding wq_def using s by (simp add: work_queue_eq_0_iff)
  have ch: "c = HEAD_SLAB_PTR ctx1" using wz by (simp add: c_def st0_def)
  have u: "read_unit_data ctx1 d0 c 0 l = (if l = 0 then 0 else 0xFFFFFFFF)" for l
    by (simp add: ch read_unit_data_def ctx1_def d0_def table_one_def
        get_unit_ptr_from_list_head_def)
  have pd: "pair_data d0 0 = (1, 10)" by (simp add: d0_def table_one_def)
  have m: "lowest_match d0 5 (read_unit_data ctx1 d0 c 0) = None"
    by (rule lowest_match_NoneI)
       (simp add: slot_matches_def u EMPTY_PAIR_PTR_def pd)
  have e: "lowest_empty (read_unit_data ctx1 d0 c 0) = Some 1"
    by (rule lowest_empty_eqI) (simp_all add: u EMPTY_PAIR_PTR_def)
  let ?st1 = "st0\<lparr>lane_active := (lane_active st0)(0 := False),
                          iterator := (iterator st0)(0 := pre 0),
                          found_mask := (found_mask st0)(0 := True),
                          prev_work_queue := wq, curr_slab_ptr := c\<rparr>"
  let ?d1 = "store d0 (unit_ptr_of ctx1 c 0 1) (pre 0)"
  have de: "deref d0 (unit_ptr_of ctx1 c 0 1) = EMPTY_PAIR_PTR"
    using u[of 1] by (simp add: read_unit_data_deref EMPTY_PAIR_PTR_def)
  have B: "Insert_body ctx1 (\<lambda>l. 0) (\<lambda>l. 5) pre wq [] st0 d0 = Inr (?st1, [], ?d1)"
    using Insert_body_empty_slot[where key="\<lambda>l. 5" and bucket_id="\<lambda>l. 0" and s=0, OF s wq_def c_def m e,
        of pre "[]"] de
    by (simp add: Let_def)
  have n: "lowest_active (lane_active ?st1) = None"
    by (simp add: lowest_active_None st0_def)
  have "Insert_loop ctx1 (\<lambda>l. 0) (\<lambda>l. 5) pre [] st0 d0 = Some (Inr (?st1, [], ?d1))"
    using Insert_loop_step[OF s, of ctx1 "\<lambda>l. 0" "\<lambda>l. 5" pre "[]" d0] B
      Insert_loop_done[OF n, of ctx1 "\<lambda>l. 0" "\<lambda>l. 5" pre "[]" ?d1]
    by (simp add: wq_def)
  with I show ?thesis by simp
qed

theorem Insert_preallocates_witness:
  "distinct (pair_heap table_one) \<and> EMPTY_PAIR_PTR \<notin> set (pair_heap table_one)
   \<and> length (filter (\<lambda>l. l = 0) [0..<32]) \<le> length (pair_heap table_one)
   \<and> (\<exists>pre d0. prealloc_lanes [0..<32] (\<lambda>l. l = 0) (\<lambda>l. 5) (\<lambda>l. 50) (\<lambda>_. EMPTY_PAIR_PTR) table_one
                = Inr (pre, d0)
        \<and> pre 0 = 1 \<and> pair_data d0 1 = (5, 50)
        \<and> (\<exists>st' d'. Insert ctx1 (\<lambda>l. l = 0) (\<lambda>l. 0) (\<lambda>l. 5) (\<lambda>l. 50) [] table_one
                       = Some (Inr (st', [], d'))
              \<and> found_mask st' 0 \<and> iterator st' 0 = 1 \<and> pair_slot_holds d' 1
              \<and> pair_data d' 1 = (5, 50)))
   \<and> lowest_active (\<lambda>l. l = 0) = Some 0
   \<and> lowest_match (table_one\<lparr>pair_heap := [2, 3], pair_data := (pair_data table_one)(1 := (5, 50))\<rparr>) 5
         (read_unit_data ctx1
            (table_one\<lparr>pair_heap := [2, 3], pair_data := (pair_data table_one)(1 := (5, 50))\<rparr>)
            (HEAD_SLAB_PTR ctx1) 0) = None
   \<and> Insert_body ctx1 (\<lambda>l. 0) (\<lambda>l. 5) ((\<lambda>_. EMPTY_PAIR_PTR)(0 := 1))
         (ballot_sync ACTIVE_LANES_MASK (\<lambda>l. l = 0)) [take_slot_1]
         \<lparr>lane_active = (\<lambda>l. l = 0), iterator = (\<lambda>l. 0xFFFFFFFF), found_mask = (\<lambda>l. False),
          prev_work_queue = 0, curr_slab_ptr = HEAD_SLAB_PTR ctx1\<rparr>
         (table_one\<lparr>pair_heap := [2, 3], pair_data := (pair_data table_one)(1 := (5, 50))\<rparr>)
       = Inr (\<lparr>lane_active = (\<lambda>l. l = 0), iterator = (\<lambda>l. 0xFFFFFFFF), found_mask = (\<lambda>l. False),
               prev_work_queue = ballot_sync ACTIVE_LANES_MASK (\<lambda>l. l = 0),
               curr_slab_ptr = HEAD_SLAB_PTR ctx1\<rparr>, [],
              take_slot_1
                (table_one\<lparr>pair_heap := [2, 3], pair_data := (pair_data table_one)(1 := (5, 50))\<rparr>))
   \<and> pair_heap (take_slot_1
         (table_one\<lparr>pair_heap := [2, 3], pair_data := (pair_data table_one)(1 := (5, 50))\<rparr>)) = [2]"
proof -
  have h1: "distinct (pair_heap table_one)" by (simp add: table_one_def)
  have h2: "EMPTY_PAIR_PTR \<notin> set (pair_heap table_one)"
    by (simp add: table_one_def EMPTY_PAIR_PTR_def)
  have h3: "length (filter (\<lambda>l. l = 0) [0..<32]) \<le> length (pair_heap table_one)"
    by (simp add: table_one_def upt_rec)
  note T = Insert_preallocates[OF h1 h2, of "\<lambda>l. l = 0" "\<lambda>l. 5" "\<lambda>l. 50" ctx1 "\<lambda>l. 0"]
  from T[THEN conjunct1] h3 obtain pre d0 where
    p: "prealloc_lanes [0..<32] (\<lambda>l. l = 0) (\<lambda>l. 5) (\<lambda>l. 50) (\<lambda>_. EMPTY_PAIR_PTR) table_one
          = Inr (pre, d0)"
    by blast
  from p have p0: "pre 0 = 1" by (auto simp add: prealloc_lane_0)
  note T2 = T[THEN conjunct2, THEN conjunct1, rule_format, OF p]
  note T3 = T2[THEN conjunct2, THEN conjunct2, THEN conjunct2]
  from T3[THEN conjunct1, rule_format, of 0] have d0: "pair_data d0 (pre 0) = (5, 50)" by simp
  from Insert_lane_0_run obtain st' d' where
    I: "Insert ctx1 (\<lambda>l. l = 0) (\<lambda>l. 0) (\<lambda>l. 5) (\<lambda>l. 50) [] table_one = Some (Inr (st', [], d'))"
    and f: "found_mask st' 0" by blast
  from T3[THEN conjunct2, THEN conjunct1, rule_format, OF I, of 0] have "\<not> lane_active st' 0 \<and>
       (pair_data d' (pre 0) = (5, 50) \<and>
        (if found_mask st' 0 then iterator st' 0 = pre 0 \<and> pair_slot_holds d' (pre 0)
         else pre 0 \<in> set (pair_heap d')))"
    by simp
  with f p0 have "iterator st' 0 = 1 \<and> pair_slot_holds d' 1 \<and> pair_data d' 1 = (5, 50)"
    by simp
  then have A: "iterator st' 0 = 1" "pair_slot_holds d' 1" "pair_data d' 1 = (5, 50)" by simp_all
  define dz :: "(32 word, 32 word) device" where
    "dz = table_one\<lparr>pair_heap := [2, 3], pair_data := (pair_data table_one)(1 := (5, 50))\<rparr>"
  define sz :: warp_vars where
    "sz = \<lparr>lane_active = (\<lambda>l. l = 0), iterator = (\<lambda>l. 0xFFFFFFFF), found_mask = (\<lambda>l. False),
           prev_work_queue = 0, curr_slab_ptr = HEAD_SLAB_PTR ctx1\<rparr>"
  define wz where "wz = ballot_sync ACTIVE_LANES_MASK (\<lambda>l::nat. l = 0)"
  have la: "lowest_active (\<lambda>l::nat. l = 0) = Some 0"
    by (rule lowest_active_eqI) simp_all
  have s: "lowest_active (lane_active sz) = Some 0" by (simp add: sz_def la)
  have w: "wz = ballot_sync ACTIVE_LANES_MASK (lane_active sz)" by (simp add: wz_def sz_def)
  have c: "HEAD_SLAB_PTR ctx1 = (if prev_work_queue sz \<noteq> wz then HEAD_SLAB_PTR ctx1 else curr_slab_ptr sz)"
    by (simp add: sz_def)
  have u: "read_unit_data ctx1 dz (HEAD_SLAB_PTR ctx1) 0 l = (if l = 0 then 0 else 0xFFFFFFFF)" for l
    by (simp add: read_unit_data_def dz_def table_one_def get_unit_ptr_from_list_head_def)
  have pd: "pair_data dz 0 = (1, 10)" by (simp add: dz_def table_one_def)
  have m: "lowest_match dz 5 (read_unit_data ctx1 dz (HEAD_SLAB_PTR ctx1) 0) = None"
    by (rule lowest_match_NoneI) (simp add: slot_matches_def u EMPTY_PAIR_PTR_def pd)
  have e: "lowest_empty (read_unit_data ctx1 dz (HEAD_SLAB_PTR ctx1) 0) = Some 1"
    by (rule lowest_empty_eqI) (simp_all add: u EMPTY_PAIR_PTR_def)
  have up: "unit_ptr_of ctx1 (HEAD_SLAB_PTR ctx1) 0 (Suc 0) = list_head_unit 0 (Suc 0)"
    by (simp add: unit_ptr_of_def get_unit_ptr_from_list_head_def)
  have tk: "bucket_list_head (take_slot_1 dz) 0 (Suc 0) = 3"
    by (simp add: take_slot_1_def atomicCAS_eq dz_def table_one_def EMPTY_PAIR_PTR_def)
  have th: "pair_heap (take_slot_1 dz) = [2]"
    by (simp add: take_slot_1_def atomicCAS_eq dz_def table_one_def EMPTY_PAIR_PTR_def)
  note T5 = T[THEN conjunct2, THEN conjunct2, THEN spec[where x=sz], THEN spec[where x=dz],
      THEN spec[where x=0], THEN spec[where x=wz], THEN spec[where x="HEAD_SLAB_PTR ctx1"],
      THEN spec[where x="(\<lambda>_. EMPTY_PAIR_PTR)(0 := 1)"], THEN mp, OF conjI[OF s conjI[OF w c]]]
  note T6 = T5[unfolded m option.case, THEN conjunct2, THEN conjunct2,
      THEN spec[where x="[take_slot_1]"]]
  from T6
  have B: "Insert_body ctx1 (\<lambda>l. 0) (\<lambda>l. 5) ((\<lambda>_. EMPTY_PAIR_PTR)(0 := 1)) wz [take_slot_1] sz dz =
      Inr (sz\<lparr>prev_work_queue := wz, curr_slab_ptr := HEAD_SLAB_PTR ctx1\<rparr>, [], take_slot_1 dz)"
    by (simp add: e up tk Let_def EMPTY_PAIR_PTR_def)
  have C: "sz\<lparr>prev_work_queue := wz, curr_slab_ptr := HEAD_SLAB_PTR ctx1\<rparr> =
      \<lparr>lane_active = (\<lambda>l. l = 0), iterator = (\<lambda>l. 0xFFFFFFFF), found_mask = (\<lambda>l. False),
       prev_work_queue = wz, curr_slab_ptr = HEAD_SLAB_PTR ctx1\<rparr>"
    by (simp add: sz_def)
  note B' = B[unfolded C, unfolded sz_def wz_def dz_def]
  note m' = m[unfolded dz_def]
  note th' = th[unfolded dz_def]
  from p p0 d0 I f A have X: "\<exists>pre d0. prealloc_lanes [0..<32] (\<lambda>l. l = 0) (\<lambda>l. 5) (\<lambda>l. 50) (\<lambda>_. EMPTY_PAIR_PTR) table_one
                = Inr (pre, d0)
        \<and> pre 0 = 1 \<and> pair_data d0 1 = (5, 50)
        \<and> (\<exists>st' d'. Insert ctx1 (\<lambda>l. l = 0) (\<lambda>l. 0) (\<lambda>l. 5) (\<lambda>l. 50) [] table_one
                       = Some (Inr (st', [], d'))
              \<and> found_mask st' 0 \<and> iterator st' 0 = 1 \<and> pair_slot_holds d' 1
              \<and> pair_data d' 1 = (5, 50))"
    by auto
  from h1 h2 h3 X la m' B' th' show ?thesis by (intro conjI)
qed

section \<open>The next-slab pointer\<close>

lemma keeps_next_refl [simp]: "keeps_next d d"
  by (simp add: keeps_next_def)

lemma keeps_next_trans: "keeps_next d d' \<Longrightarrow> keeps_next d' d'' \<Longrightarrow> keeps_next d d''"
  by (simp add: keeps_next_def)

lemma keeps_next_deref_eq: "(\<And>q. deref d' q = deref d q) \<Longrightarrow> keeps_next d d'"
  by (simp add: keeps_next_def)

lemma keeps_next_store_pair: "unit_lane p < 31 \<Longrightarrow> keeps_next d (store d p x)"
  by (auto simp add: keeps_next_def deref_store)

lemma keeps_next_store_empty: "deref d p = EMPTY_SLAB_PTR \<Longrightarrow> keeps_next d (store d p x)"
  by (auto simp add: keeps_next_def deref_store)

lemma keeps_next_Free [simp]: "keeps_next d (Free p d)"
  by (rule keeps_next_deref_eq) (simp add: Free_def)

lemma keeps_next_FreeSlab [simp]: "keeps_next d (FreeSlab p d)"
  by (rule keeps_next_deref_eq) (simp add: FreeSlab_def)

lemma keeps_next_yield:
  assumes "sched_keeps_next es"
  shows "keeps_next d (snd (yield es d))" and "sched_keeps_next (fst (yield es d))"
  using assms by (cases es; simp add: sched_keeps_next_def yield_def)+

lemma AllocateSlab_Some:
  "AllocateSlab d = Some (new_slab, d2) \<Longrightarrow> \<exists>ss. slab_heap d = new_slab # ss \<and> d2 = d\<lparr>slab_heap := ss\<rparr>"
  by (cases "slab_heap d") (auto simp add: AllocateSlab_def)

lemma keeps_next_AllocateSlab: "AllocateSlab d = Some (new_slab, d2) \<Longrightarrow> keeps_next d d2"
  by (drule AllocateSlab_Some) (auto intro: keeps_next_deref_eq)

lemma Insert_body_keeps_next:
  assumes s: "lowest_active (lane_active st) = Some s"
    and wq: "wq = ballot_sync ACTIVE_LANES_MASK (lane_active st)"
    and sk: "sched_keeps_next es"
    and b: "Insert_body ctx bucket_id key pre wq es st d = Inr (st', es', d')"
  shows "keeps_next d d' \<and> sched_keeps_next es'"
proof -
  define c where "c = (if prev_work_queue st \<noteq> wq then HEAD_SLAB_PTR ctx else curr_slab_ptr st)"
  define u where "u = read_unit_data ctx d c (bucket_id s)"
  note y1 = keeps_next_yield[OF sk, of d]
  show ?thesis
  proof (cases "lowest_match d (key s) u")
    case (Some l)
    then have m: "lowest_match d (key s) (read_unit_data ctx d c (bucket_id s)) = Some l"
      by (simp add: u_def)
    from b Insert_body_duplicate[where key=key and bucket_id=bucket_id, OF s wq c_def m, of pre es]
    have r: "es' = fst (yield es d)" "d' = Free (pre s) (snd (yield es d))" by auto
    from y1 show ?thesis unfolding r
      by (auto intro: keeps_next_trans[OF _ keeps_next_Free])
  next
    case None
    then have m: "lowest_match d (key s) (read_unit_data ctx d c (bucket_id s)) = None"
      by (simp add: u_def)
    show ?thesis
    proof (cases "lowest_empty u")
      case (Some l)
      then have le: "lowest_empty (read_unit_data ctx d c (bucket_id s)) = Some l"
        by (simp add: u_def)
      note e = lowest_empty_Some[OF le]
      define p where "p = unit_ptr_of ctx c (bucket_id s) l"
      have pl: "unit_lane p < 31" using e(1) by (simp add: p_def)
      from b Insert_body_empty_slot[where key=key and bucket_id=bucket_id, OF s wq c_def m le,
          of pre es]
      have r: "es' = fst (yield es d)"
        "d' = snd (yield es d) \<or> d' = store (snd (yield es d)) p (pre s)"
        by (auto simp add: Let_def p_def split: if_splits)
      from r(2) y1(1) keeps_next_store_pair[OF pl, of "snd (yield es d)" "pre s"]
      have "keeps_next d d'" by (auto intro: keeps_next_trans)
      with y1(2) r(1) show ?thesis by simp
    next
      case en: None
      then have le: "lowest_empty (read_unit_data ctx d c (bucket_id s)) = None"
        by (simp add: u_def)
      show ?thesis
      proof (cases "u 31 = EMPTY_SLAB_PTR")
        case False
        then have nx: "read_unit_data ctx d c (bucket_id s) 31 \<noteq> EMPTY_SLAB_PTR"
          by (simp add: u_def)
        from b Insert_body_next_slab[where key=key and bucket_id=bucket_id,
                OF s wq c_def m le nx, of pre es]
        have "es' = es" "d' = d" by auto
        with sk show ?thesis by simp
      next
        case True
        then have nx: "read_unit_data ctx d c (bucket_id s) 31 = EMPTY_SLAB_PTR"
          by (simp add: u_def)
        define p where "p = unit_ptr_of ctx c (bucket_id s) 31"
        define es1 where "es1 = fst (yield es d)"
        define d1 where "d1 = snd (yield es d)"
        note B = Insert_body_extend[where key=key and bucket_id=bucket_id, OF s wq c_def m le nx,
          of pre es]
        from b B obtain new_slab d2 where al: "AllocateSlab d1 = Some (new_slab, d2)"
          by (cases "AllocateSlab d1") (auto simp add: d1_def split_beta)
        define es2 where "es2 = fst (yield es1 d2)"
        define d3 where "d3 = snd (yield es1 d2)"
        from b B al have r:
          "(deref d3 p \<noteq> EMPTY_SLAB_PTR \<and> es' = fst (yield es2 d3)
              \<and> d' = FreeSlab new_slab (snd (yield es2 d3)))
           \<or> (deref d3 p = EMPTY_SLAB_PTR \<and> es' = es2 \<and> d' = store d3 p new_slab)"
          by (auto simp add: d1_def es1_def d3_def es2_def p_def split_beta Let_def split: if_splits)
        have k1: "keeps_next d d1" and s1: "sched_keeps_next es1"
          using y1 by (simp_all add: d1_def es1_def)
        have k2: "keeps_next d1 d2" by (rule keeps_next_AllocateSlab[OF al])
        have k3: "keeps_next d2 d3" and s2: "sched_keeps_next es2"
          using keeps_next_yield[OF s1, of d2] by (simp_all add: d3_def es2_def)
        have k: "keeps_next d d3" by (rule keeps_next_trans[OF keeps_next_trans[OF k1 k2] k3])
        from r show ?thesis
        proof (elim disjE conjE)
          assume "es' = fst (yield es2 d3)" "d' = FreeSlab new_slab (snd (yield es2 d3))"
          with keeps_next_yield[OF s2, of d3] k show ?thesis
            by (auto intro: keeps_next_trans[OF _ keeps_next_FreeSlab] keeps_next_trans)
        next
          assume "deref d3 p = EMPTY_SLAB_PTR" "es' = es2" "d' = store d3 p new_slab"
          with k s2 keeps_next_store_empty[of d3 p new_slab] show ?thesis
            by (auto intro: keeps_next_trans)
        qed
      qed
    qed
  qed
qed

lemma Remove_body_keeps_next:
  assumes s: "lowest_active (lane_active st) = Some s"
    and wq: "wq = ballot_sync ACTIVE_LANES_MASK (lane_active st)"
    and sk: "sched_keeps_next es"
    and b: "Remove_body ctx bucket_id key wq es st d = (st', es', d')"
  shows "keeps_next d d' \<and> sched_keeps_next es'"
proof -
  define c where "c = (if prev_work_queue st \<noteq> wq then HEAD_SLAB_PTR ctx else curr_slab_ptr st)"
  show ?thesis
  proof (cases "lowest_match d (key s) (read_unit_data ctx d c (bucket_id s))")
    case None
    from b Remove_body_not_found[where key=key and bucket_id=bucket_id, OF s wq c_def None, of es]
    have "es' = es" "d' = d" by (auto split: if_splits)
    with sk show ?thesis by simp
  next
    case (Some l)
    define p where "p = unit_ptr_of ctx c (bucket_id s) l"
    have pl: "unit_lane p < 31" using lowest_match_Some(1)[OF Some] by (simp add: p_def)
    define es1 where "es1 = fst (yield es d)"
    define d1 where "d1 = snd (yield es d)"
    define es2 where "es2 = fst (yield es1 d1)"
    define d2 where "d2 = snd (yield es1 d1)"
    define d3 where "d3 = store d2 p EMPTY_PAIR_PTR"
    from b Remove_body_found[where key=key and bucket_id=bucket_id, OF s wq c_def Some, of es]
    have r: "(es' = fst (yield es2 d3)
               \<and> d' = Free (read_unit_data ctx d c (bucket_id s) l) (snd (yield es2 d3)))
             \<or> (es' = es2 \<and> d' = d2)"
      by (auto simp add: p_def es1_def d1_def es2_def d2_def d3_def Let_def split_beta
          split: if_splits)
    have k1: "keeps_next d d1" and s1: "sched_keeps_next es1"
      using keeps_next_yield[OF sk, of d] by (simp_all add: d1_def es1_def)
    have k2: "keeps_next d1 d2" and s2: "sched_keeps_next es2"
      using keeps_next_yield[OF s1, of d1] by (simp_all add: d2_def es2_def)
    have k3: "keeps_next d2 d3" unfolding d3_def by (rule keeps_next_store_pair[OF pl])
    have k12: "keeps_next d d2" by (rule keeps_next_trans[OF k1 k2])
    have k: "keeps_next d d3" by (rule keeps_next_trans[OF k12 k3])
    from r show ?thesis
    proof (elim disjE conjE)
      assume "es' = fst (yield es2 d3)"
        "d' = Free (read_unit_data ctx d c (bucket_id s) l) (snd (yield es2 d3))"
      with keeps_next_yield[OF s2, of d3] k show ?thesis
        by (auto intro: keeps_next_trans[OF _ keeps_next_Free] keeps_next_trans)
    next
      assume "es' = es2" "d' = d2"
      with k12 s2 show ?thesis by simp
    qed
  qed
qed

lemma Search_loop_keeps_next:
  assumes "Search_loop ctx bucket_id key es st d = Some y"
  shows "sched_keeps_next es \<longrightarrow> keeps_next d (snd (snd y))"
proof (rule Search_loop.raw_induct[where P="\<lambda>ctx bucket_id key es st d y.
         sched_keeps_next es \<longrightarrow> keeps_next d (snd (snd y))", OF _ assms], goal_cases)
  case (1 loop ctx bucket_id key es st d y)
  show ?case
  proof
    assume sk: "sched_keeps_next es"
    show "keeps_next d (snd (snd y))"
    proof (cases "ballot_sync ACTIVE_LANES_MASK (lane_active st) = 0")
      case True
      with 1(2) show ?thesis by auto
    next
      case False
      with 1(2) have l: "loop ctx bucket_id key (fst (yield es d))
             (Search_body ctx bucket_id key (ballot_sync ACTIVE_LANES_MASK (lane_active st)) st
                (snd (yield es d))) (snd (yield es d)) = Some y"
        by (simp add: Let_def split_beta)
      from 1(1)[OF l] keeps_next_yield[OF sk, of d] show ?thesis
        by (auto intro: keeps_next_trans)
    qed
  qed
qed

lemma Insert_loop_keeps_next:
  assumes "Insert_loop ctx bucket_id key pre es st d = Some y"
  shows "sched_keeps_next es \<longrightarrow> (\<forall>st' es' d'. y = Inr (st', es', d') \<longrightarrow> keeps_next d d')"
proof (rule Insert_loop.raw_induct[where P="\<lambda>ctx bucket_id key pre es st d y.
         sched_keeps_next es \<longrightarrow> (\<forall>st' es' d'. y = Inr (st', es', d') \<longrightarrow> keeps_next d d')",
       OF _ assms], goal_cases)
  case (1 loop ctx bucket_id key pre es st d y)
  show ?case
  proof (intro impI allI)
    fix st' es' d'
    assume sk: "sched_keeps_next es" and y: "y = Inr (st', es', d')"
    show "keeps_next d d'"
    proof (cases "lowest_active (lane_active st)")
      case None
      then have "ballot_sync ACTIVE_LANES_MASK (lane_active st) = 0"
        by (simp add: work_queue_eq_0_iff)
      with 1(2) y show ?thesis by simp
    next
      case (Some s)
      then have nz: "ballot_sync ACTIVE_LANES_MASK (lane_active st) \<noteq> 0"
        by (simp add: work_queue_eq_0_iff)
      from 1(2) nz y obtain st1 es1 d1 where
        b: "Insert_body ctx bucket_id key pre (ballot_sync ACTIVE_LANES_MASK (lane_active st))
              (fst (yield es d)) st (snd (yield es d)) = Inr (st1, es1, d1)"
        and l: "loop ctx bucket_id key pre es1 st1 d1 = Some y"
        by (auto simp add: Let_def split_beta split: sum.splits)
      note y0 = keeps_next_yield[OF sk, of d]
      from Insert_body_keeps_next[OF Some refl y0(2) b]
      have "keeps_next (snd (yield es d)) d1" "sched_keeps_next es1" by simp_all
      with 1(1)[OF l] y y0(1) show ?thesis by (auto intro: keeps_next_trans)
    qed
  qed
qed

lemma Remove_loop_keeps_next:
  assumes "Remove_loop ctx bucket_id key es st d = Some y"
  shows "sched_keeps_next es \<longrightarrow> keeps_next d (snd (snd y))"
proof (rule Remove_loop.raw_induct[where P="\<lambda>ctx bucket_id key es st d y.
         sched_keeps_next es \<longrightarrow> keeps_next d (snd (snd y))", OF _ assms], goal_cases)
  case (1 loop ctx bucket_id key es st d y)
  show ?case
  proof
    assume sk: "sched_keeps_next es"
    show "keeps_next d (snd (snd y))"
    proof (cases "lowest_active (lane_active st)")
      case None
      then have "ballot_sync ACTIVE_LANES_MASK (lane_active st) = 0"
        by (simp add: work_queue_eq_0_iff)
      with 1(2) show ?thesis by auto
    next
      case (Some s)
      then have nz: "ballot_sync ACTIVE_LANES_MASK (lane_active st) \<noteq> 0"
        by (simp add: work_queue_eq_0_iff)
      obtain st1 es1 d1 where
        b: "Remove_body ctx bucket_id key (ballot_sync ACTIVE_LANES_MASK (lane_active st))
              (fst (yield es d)) st (snd (yield es d)) = (st1, es1, d1)"
        by (metis prod_cases3)
      with 1(2) nz have l: "loop ctx bucket_id key es1 st1 d1 = Some y"
        by (simp add: Let_def split_beta)
      note y0 = keeps_next_yield[OF sk, of d]
      from Remove_body_keeps_next[OF Some refl y0(2) b]
      have "keeps_next (snd (yield es d)) d1" "sched_keeps_next es1" by simp_all
      with 1(1)[OF l] y0(1) show ?thesis by (auto intro: keeps_next_trans)
    qed
  qed
qed

lemma prealloc_lanes_units:
  "prealloc_lanes ls active key val pre d = Inr (pre', d') \<Longrightarrow>
   bucket_list_head d' = bucket_list_head d \<and> slab_units d' = slab_units d"
proof (induction ls arbitrary: pre d)
  case Nil
  then show ?case by simp
next
  case (Cons a ls)
  show ?case
  proof (cases "active a")
    case False
    with Cons show ?thesis by simp
  next
    case True
    with Cons.prems obtain p ps where hp: "pair_heap d = p # ps"
      by (cases "pair_heap d") (simp_all add: Allocate_def)
    with Cons.prems True
    have "prealloc_lanes ls active key val (pre(a := p))
            (d\<lparr>pair_heap := ps, pair_data := (pair_data d)(p := (key a, val a))\<rparr>) = Inr (pre', d')"
      by (simp add: Allocate_def)
    from Cons.IH[OF this] show ?thesis by simp
  qed
qed

lemma Insert_keeps_next:
  assumes "Insert ctx to_be_inserted bucket_id key val es d = Some (Inr (st', es', d'))"
    and "sched_keeps_next es"
  shows "keeps_next d d'"
proof -
  from assms(1) obtain pre d0 where
    p: "prealloc_lanes [0..<32] to_be_inserted key val (\<lambda>_. EMPTY_PAIR_PTR) d = Inr (pre, d0)"
    and L: "Insert_loop ctx bucket_id key pre es
             \<lparr>lane_active = to_be_inserted, iterator = (\<lambda>_. NULL_ITERATOR ctx),
              found_mask = (\<lambda>_. False), prev_work_queue = 0,
              curr_slab_ptr = HEAD_SLAB_PTR ctx\<rparr> d0 = Some (Inr (st', es', d'))"
    by (auto simp add: Insert_def split: sum.splits)
  from prealloc_lanes_units[OF p] have "deref d0 q = deref d q" for q
    by (cases q) simp_all
  then have k0: "keeps_next d d0" by (rule keeps_next_deref_eq)
  from Insert_loop_keeps_next[OF L] assms(2) have "keeps_next d0 d'" by simp
  with k0 show ?thesis by (rule keeps_next_trans)
qed

lemma Search_loop_step_sched:
  "lowest_active (lane_active st) = Some s \<Longrightarrow>
   Search_loop ctx bucket_id key es st d =
   Search_loop ctx bucket_id key (fst (yield es d))
     (Search_body ctx bucket_id key (ballot_sync ACTIVE_LANES_MASK (lane_active st)) st
        (snd (yield es d))) (snd (yield es d))"
  by (subst Search_loop.simps) (simp add: work_queue_eq_0_iff split_beta Let_def)

lemma sched_keeps_next_Nil [simp]: "sched_keeps_next []"
  by (simp add: sched_keeps_next_def)

lemma publish_7_keeps_next: "sched_keeps_next [publish_7]"
proof -
  have "keeps_next d (publish_7 d)" for d :: "(32 word, 32 word) device"
    using keeps_next_store_empty[of d "list_head_unit 0 31" 7]
    by (simp add: publish_7_def atomicCAS_eq del: store.simps deref.simps)
  then show ?thesis by (simp add: sched_keeps_next_def)
qed

lemma lane_0_lowest: "lowest_active (\<lambda>l. l = 0) = Some 0"
  by (rule lowest_active_eqI) simp_all

lemma lane_0_ballot: "ballot_sync ACTIVE_LANES_MASK (\<lambda>l. l = 0) \<noteq> 0"
  using lane_0_lowest by (simp add: work_queue_eq_0_iff)

lemma word32_of_nat_lane:
  fixes l :: nat
  assumes "l < 32"
  shows "(of_nat l :: 32 word) \<noteq> 0xFFFFFFFF" "(of_nat l :: 32 word) + 100 \<noteq> 5"
proof -
  from assms have u: "unat (of_nat l :: 32 word) = l" by (simp add: unat_of_nat)
  show "(of_nat l :: 32 word) \<noteq> 0xFFFFFFFF"
  proof
    assume "(of_nat l :: 32 word) = 0xFFFFFFFF"
    then have "unat (of_nat l :: 32 word) = unat (0xFFFFFFFF :: 32 word)" by simp
    with u assms show False by simp
  qed
  show "(of_nat l :: 32 word) + 100 \<noteq> 5"
  proof
    assume a: "(of_nat l :: 32 word) + 100 = 5"
    have "unat ((of_nat l :: 32 word) + 100) = l + 100"
      using u assms by (simp add: unat_word_ariths)
    then have "unat (5 :: 32 word) = l + 100" by (simp only: a)
    then show False by simp
  qed
qed

lemma Search_publish_7_run:
  "\<exists>st'. Search ctx1 (\<lambda>l. l = 0) (\<lambda>l. 0) (\<lambda>l. 1) [publish_7] table_one
           = Some (st', [], publish_7 table_one)"
proof -
  define st0 where "st0 = \<lparr>lane_active = (\<lambda>l::nat. l = 0), iterator = (\<lambda>_. NULL_ITERATOR ctx1),
              found_mask = (\<lambda>_. False), prev_work_queue = 0,
              curr_slab_ptr = HEAD_SLAB_PTR ctx1\<rparr>"
  define d1 where "d1 = publish_7 table_one"
  define wq where "wq = ballot_sync ACTIVE_LANES_MASK (lane_active st0)"
  define c where "c = (if prev_work_queue st0 \<noteq> wq then HEAD_SLAB_PTR ctx1 else curr_slab_ptr st0)"
  have s: "lowest_active (lane_active st0) = Some 0" by (simp add: st0_def lane_0_lowest)
  have wz: "wq \<noteq> 0" by (simp add: wq_def st0_def lane_0_ballot)
  have ch: "c = HEAD_SLAB_PTR ctx1" using wz by (simp add: c_def st0_def)
  have u: "read_unit_data ctx1 d1 c 0 l = (if l = 0 then 0 else if l = 31 then 7 else 0xFFFFFFFF)" for l
    by (simp add: ch read_unit_data_def ctx1_def d1_def publish_7_def atomicCAS_eq table_one_def
        get_unit_ptr_from_list_head_def EMPTY_SLAB_PTR_def)
  have pd: "pair_data d1 0 = (1, 10)"
    by (simp add: d1_def publish_7_def atomicCAS_eq table_one_def EMPTY_SLAB_PTR_def)
  have m: "lowest_match d1 1 (read_unit_data ctx1 d1 c 0) = Some 0"
    by (rule lowest_match_eqI) (simp_all add: slot_matches_def u EMPTY_PAIR_PTR_def pd)
  note B = Search_body_found[where key="\<lambda>l. 1" and bucket_id="\<lambda>l. 0" and s=0, OF s wq_def c_def m]
  have n: "lowest_active (lane_active (search_done st0 0 wq (Some (read_unit_data ctx1 d1 c 0 0), c))) = None"
    by (simp add: lowest_active_None st0_def)
  have "Search_loop ctx1 (\<lambda>l. 0) (\<lambda>l. 1) [publish_7] st0 table_one =
        Some (search_done st0 0 wq (Some (read_unit_data ctx1 d1 c 0 0), c), [], d1)"
    using Search_loop_step_sched[OF s, of ctx1 "\<lambda>l. 0" "\<lambda>l. 1" "[publish_7]" table_one] B
      Search_loop_done[OF n, of ctx1 "\<lambda>l. 0" "\<lambda>l. 1" "[]" d1]
    by (simp add: wq_def d1_def)
  then show ?thesis by (simp add: Search_def st0_def d1_def)
qed

lemma Remove_lane_0_run:
  "\<exists>st'. Remove ctx1 (\<lambda>l. l = 0) (\<lambda>l. 0) (\<lambda>l. 1) [] table_one
           = Some (st', [], Free 0 (store table_one (list_head_unit 0 0) EMPTY_PAIR_PTR))
         \<and> found_mask st' 0"
proof -
  define st0 where "st0 = \<lparr>lane_active = (\<lambda>l::nat. l = 0), iterator = (\<lambda>_. NULL_ITERATOR ctx1),
              found_mask = (\<lambda>_. False), prev_work_queue = 0,
              curr_slab_ptr = HEAD_SLAB_PTR ctx1\<rparr>"
  define wq where "wq = ballot_sync ACTIVE_LANES_MASK (lane_active st0)"
  define c where "c = (if prev_work_queue st0 \<noteq> wq then HEAD_SLAB_PTR ctx1 else curr_slab_ptr st0)"
  have s: "lowest_active (lane_active st0) = Some 0" by (simp add: st0_def lane_0_lowest)
  have wz: "wq \<noteq> 0" by (simp add: wq_def st0_def lane_0_ballot)
  have ch: "c = HEAD_SLAB_PTR ctx1" using wz by (simp add: c_def st0_def)
  have u: "read_unit_data ctx1 table_one c 0 l = (if l = 0 then 0 else 0xFFFFFFFF)" for l
    by (simp add: ch read_unit_data_def ctx1_def table_one_def get_unit_ptr_from_list_head_def)
  have p: "unit_ptr_of ctx1 c 0 0 = list_head_unit 0 0"
    by (simp add: ch unit_ptr_of_def get_unit_ptr_from_list_head_def)
  have pd: "pair_data table_one 0 = (1, 10)" by (simp add: table_one_def)
  have m: "lowest_match table_one 1 (read_unit_data ctx1 table_one c 0) = Some 0"
    by (rule lowest_match_eqI) (simp_all add: slot_matches_def u EMPTY_PAIR_PTR_def pd)
  let ?st1 = "st0\<lparr>lane_active := (lane_active st0)(0 := False),
                      found_mask := (found_mask st0)(0 := True),
                      prev_work_queue := wq, curr_slab_ptr := c\<rparr>"
  let ?d1 = "Free 0 (store table_one (list_head_unit 0 0) EMPTY_PAIR_PTR)"
  have B: "Remove_body ctx1 (\<lambda>l. 0) (\<lambda>l. 1) wq [] st0 table_one = (?st1, [], ?d1)"
    using Remove_body_found[where key="\<lambda>l. 1" and bucket_id="\<lambda>l. 0" and s=0, OF s wq_def c_def m,
        of "[]"]
    by (simp add: Let_def p u)
  have n: "lowest_active (lane_active ?st1) = None"
    by (simp add: lowest_active_None st0_def)
  have "Remove_loop ctx1 (\<lambda>l. 0) (\<lambda>l. 1) [] st0 table_one = Some (?st1, [], ?d1)"
    using Remove_loop_step[OF s, of ctx1 "\<lambda>l. 0" "\<lambda>l. 1" "[]" table_one] B
      Remove_loop_done[OF n, of ctx1 "\<lambda>l. 0" "\<lambda>l. 1" "[]" ?d1]
    by (simp add: wq_def)
  then show ?thesis by (simp add: Remove_def st0_def)
qed

lemma table_full_head:
  "read_unit_data ctx1 d (HEAD_SLAB_PTR ctx1) 0 l = bucket_list_head d 0 l"
  by (simp add: read_unit_data_def get_unit_ptr_from_list_head_def)

lemma table_full_no_match:
  assumes "bucket_list_head d 0 = bucket_list_head table_full 0 \<or>
           bucket_list_head d 0 = (bucket_list_head table_full 0)(31 := 7)"
    and "pair_data d = pair_data table_full"
  shows "lowest_match d 5 (read_unit_data ctx1 d (HEAD_SLAB_PTR ctx1) 0) = None"
    and "lowest_empty (read_unit_data ctx1 d (HEAD_SLAB_PTR ctx1) 0) = None"
proof -
  have u: "bucket_list_head d 0 j = of_nat j" if "j < 31" for j
    using assms(1) that by (auto simp add: table_full_def)
  show "lowest_match d 5 (read_unit_data ctx1 d (HEAD_SLAB_PTR ctx1) 0) = None"
  proof (rule lowest_match_NoneI)
    fix j :: nat assume j: "j < 31"
    then have "(of_nat j :: 32 word) + 100 \<noteq> 5" by (intro word32_of_nat_lane) simp
    with j show "\<not> slot_matches d 5 (read_unit_data ctx1 d (HEAD_SLAB_PTR ctx1) 0) j"
      by (simp add: slot_matches_def table_full_head u assms(2) table_full_def)
  qed
  show "lowest_empty (read_unit_data ctx1 d (HEAD_SLAB_PTR ctx1) 0) = None"
  proof (rule lowest_empty_NoneI)
    fix j :: nat assume j: "j < 31"
    then have "(of_nat j :: 32 word) \<noteq> 0xFFFFFFFF" by (intro word32_of_nat_lane) simp
    with j show "read_unit_data ctx1 d (HEAD_SLAB_PTR ctx1) 0 j \<noteq> EMPTY_PAIR_PTR"
      by (simp add: table_full_head u EMPTY_PAIR_PTR_def)
  qed
qed

text \<open>
  C4. Slot 31 of a slab names the next slab of the chain and is set at most once. Whatever
  the other warps do, as long as they too leave a set slot 31 alone, a run of Search, Insert
  or Remove leaves every slot 31 that holds a slab pointer as it is (\<open>keeps_next\<close>). Insert
  extends the chain in Branch 3.2 only: when the slab at hand has no pair slot with the key
  and no empty pair slot, and its slot 31 reads \<open>EMPTY_SLAB_PTR\<close>, the warp takes a slab
  from the allocator and publishes it by a CAS on slot 31 against \<open>EMPTY_SLAB_PTR\<close>. When
  another warp has published a slab \<open>w\<close> there in between, the CAS fails, the slab just
  taken goes back to the allocator, no lane retires, and the next iteration reads the same
  slab again and moves on to \<open>w\<close>.
\<close>

theorem next_slab_pointer_set_once:
  "(sched_keeps_next es \<longrightarrow>
      (\<forall>st' es' d'. Search ctx lanes bucket_id key es (d :: ('k, 'v) device) = Some (st', es', d') \<longrightarrow>
          keeps_next d d')
    \<and> (\<forall>st' es' d'. Insert ctx lanes bucket_id key val es d = Some (Inr (st', es', d')) \<longrightarrow>
          keeps_next d d')
    \<and> (\<forall>st' es' d'. Remove ctx lanes bucket_id key es d = Some (st', es', d') \<longrightarrow> keeps_next d d'))
  \<and> (lowest_active (lane_active st) = Some s
      \<and> wq = ballot_sync ACTIVE_LANES_MASK (lane_active st)
      \<and> c = (if prev_work_queue st \<noteq> wq then HEAD_SLAB_PTR ctx else curr_slab_ptr st)
      \<and> lowest_match d (key s) (read_unit_data ctx d c (bucket_id s)) = None
      \<and> lowest_empty (read_unit_data ctx d c (bucket_id s)) = None
      \<and> read_unit_data ctx d c (bucket_id s) 31 = EMPTY_SLAB_PTR \<longrightarrow>
      Insert_body ctx bucket_id key pre wq es st d =
         (let (es1, d1) = yield es d
          in case AllocateSlab d1 of
               None \<Rightarrow> Inl OutOfSlabs
             | Some (new_slab, d2) \<Rightarrow>
                 let p = unit_ptr_of ctx c (bucket_id s) 31;
                     (es2, d3) = yield es1 d2
                 in if deref d3 p \<noteq> EMPTY_SLAB_PTR
                    then Inr (st\<lparr>prev_work_queue := wq, curr_slab_ptr := c\<rparr>,
                              fst (yield es2 d3), FreeSlab new_slab (snd (yield es2 d3)))
                    else Inr (st\<lparr>prev_work_queue := wq, curr_slab_ptr := c\<rparr>,
                              es2, store d3 p new_slab))
    \<and> (\<forall>e1 e2 new_slab d2 w.
          AllocateSlab (e1 d) = Some (new_slab, d2)
          \<and> deref (e2 d2) (unit_ptr_of ctx c (bucket_id s) 31) = w \<and> w \<noteq> EMPTY_SLAB_PTR
          \<and> lowest_match (e2 d2) (key s) (read_unit_data ctx (e2 d2) c (bucket_id s)) = None
          \<and> lowest_empty (read_unit_data ctx (e2 d2) c (bucket_id s)) = None \<longrightarrow>
          Insert_body ctx bucket_id key pre wq [e1, e2] st d =
            Inr (st\<lparr>prev_work_queue := wq, curr_slab_ptr := c\<rparr>, [], FreeSlab new_slab (e2 d2))
        \<and> Insert_body ctx bucket_id key pre wq []
             (st\<lparr>prev_work_queue := wq, curr_slab_ptr := c\<rparr>) (FreeSlab new_slab (e2 d2)) =
            Inr (st\<lparr>prev_work_queue := wq, curr_slab_ptr := w\<rparr>, [], FreeSlab new_slab (e2 d2))))"
proof (intro conjI impI allI)
  fix st' es' d'
  assume sk: "sched_keeps_next es"
  {
    assume S: "Search ctx lanes bucket_id key es d = Some (st', es', d')"
    from Search_loop_keeps_next[OF S[unfolded Search_def]] sk show "keeps_next d d'" by simp
  }
  {
    assume I: "Insert ctx lanes bucket_id key val es d = Some (Inr (st', es', d'))"
    from Insert_keeps_next[OF I sk] show "keeps_next d d'" .
  }
  {
    assume R: "Remove ctx lanes bucket_id key es d = Some (st', es', d')"
    from Remove_loop_keeps_next[OF R[unfolded Remove_def]] sk show "keeps_next d d'" by simp
  }
next
  assume h: "lowest_active (lane_active st) = Some s
      \<and> wq = ballot_sync ACTIVE_LANES_MASK (lane_active st)
      \<and> c = (if prev_work_queue st \<noteq> wq then HEAD_SLAB_PTR ctx else curr_slab_ptr st)
      \<and> lowest_match d (key s) (read_unit_data ctx d c (bucket_id s)) = None
      \<and> lowest_empty (read_unit_data ctx d c (bucket_id s)) = None
      \<and> read_unit_data ctx d c (bucket_id s) 31 = EMPTY_SLAB_PTR"
  then have s: "lowest_active (lane_active st) = Some s"
    and wq: "wq = ballot_sync ACTIVE_LANES_MASK (lane_active st)"
    and c: "c = (if prev_work_queue st \<noteq> wq then HEAD_SLAB_PTR ctx else curr_slab_ptr st)"
    and m: "lowest_match d (key s) (read_unit_data ctx d c (bucket_id s)) = None"
    and e: "lowest_empty (read_unit_data ctx d c (bucket_id s)) = None"
    and n: "read_unit_data ctx d c (bucket_id s) 31 = EMPTY_SLAB_PTR"
    by - (elim conjE, assumption)+
  note B = Insert_body_extend[where key=key and bucket_id=bucket_id, OF s wq c m e n]
  show "Insert_body ctx bucket_id key pre wq es st d =
         (let (es1, d1) = yield es d
          in case AllocateSlab d1 of
               None \<Rightarrow> Inl OutOfSlabs
             | Some (new_slab, d2) \<Rightarrow>
                 let p = unit_ptr_of ctx c (bucket_id s) 31;
                     (es2, d3) = yield es1 d2
                 in if deref d3 p \<noteq> EMPTY_SLAB_PTR
                    then Inr (st\<lparr>prev_work_queue := wq, curr_slab_ptr := c\<rparr>,
                              fst (yield es2 d3), FreeSlab new_slab (snd (yield es2 d3)))
                    else Inr (st\<lparr>prev_work_queue := wq, curr_slab_ptr := c\<rparr>,
                              es2, store d3 p new_slab))"
    by (rule B)
  fix e1 e2 :: "('k, 'v) device \<Rightarrow> ('k, 'v) device" and new_slab w :: ptr_t
    and d2 :: "('k, 'v) device"
  assume g: "AllocateSlab (e1 d) = Some (new_slab, d2)
          \<and> deref (e2 d2) (unit_ptr_of ctx c (bucket_id s) 31) = w \<and> w \<noteq> EMPTY_SLAB_PTR
          \<and> lowest_match (e2 d2) (key s) (read_unit_data ctx (e2 d2) c (bucket_id s)) = None
          \<and> lowest_empty (read_unit_data ctx (e2 d2) c (bucket_id s)) = None"
  then have al: "AllocateSlab (e1 d) = Some (new_slab, d2)"
    and dw: "deref (e2 d2) (unit_ptr_of ctx c (bucket_id s) 31) = w" and wn: "w \<noteq> EMPTY_SLAB_PTR"
    and m2: "lowest_match (e2 d2) (key s) (read_unit_data ctx (e2 d2) c (bucket_id s)) = None"
    and e2: "lowest_empty (read_unit_data ctx (e2 d2) c (bucket_id s)) = None"
    by - (elim conjE, assumption)+
  show "Insert_body ctx bucket_id key pre wq [e1, e2] st d =
            Inr (st\<lparr>prev_work_queue := wq, curr_slab_ptr := c\<rparr>, [], FreeSlab new_slab (e2 d2))"
    using B[of pre "[e1, e2]"] al dw wn by simp
  let ?st1 = "st\<lparr>prev_work_queue := wq, curr_slab_ptr := c\<rparr>"
  let ?d' = "FreeSlab new_slab (e2 d2)"
  have rd: "read_unit_data ctx ?d' c b = read_unit_data ctx (e2 d2) c b" for b
    by (rule ext) (simp add: read_unit_data_deref FreeSlab_def)
  have pdq: "lowest_match ?d' k u = lowest_match (e2 d2) k u" for k u
  proof -
    have "slot_matches ?d' k u = slot_matches (e2 d2) k u"
      by (rule ext) (simp add: slot_matches_def FreeSlab_def)
    then show ?thesis by (simp add: lowest_match_def)
  qed
  have s1: "lowest_active (lane_active ?st1) = Some s" using s by simp
  have w1: "wq = ballot_sync ACTIVE_LANES_MASK (lane_active ?st1)" using wq by simp
  have c1: "c = (if prev_work_queue ?st1 \<noteq> wq then HEAD_SLAB_PTR ctx else curr_slab_ptr ?st1)"
    by simp
  have m1: "lowest_match ?d' (key s) (read_unit_data ctx ?d' c (bucket_id s)) = None"
    using m2 by (simp add: rd pdq)
  have e1': "lowest_empty (read_unit_data ctx ?d' c (bucket_id s)) = None"
    using e2 by (simp add: rd)
  have n1: "read_unit_data ctx ?d' c (bucket_id s) 31 \<noteq> EMPTY_SLAB_PTR"
    using dw wn by (simp add: rd read_unit_data_deref)
  from Insert_body_next_slab[where key=key and bucket_id=bucket_id, OF s1 w1 c1 m1 e1' n1, of pre "[]"]
  show "Insert_body ctx bucket_id key pre wq [] ?st1 ?d' =
            Inr (st\<lparr>prev_work_queue := wq, curr_slab_ptr := w\<rparr>, [], ?d')"
    using dw by (simp add: rd read_unit_data_deref)
qed

theorem next_slab_pointer_set_once_witness:
  "sched_keeps_next [publish_7]
   \<and> (\<exists>st'. Search ctx1 (\<lambda>l. l = 0) (\<lambda>l. 0) (\<lambda>l. 1) [publish_7] table_one
              = Some (st', [], publish_7 table_one))
   \<and> keeps_next table_one (publish_7 table_one)
   \<and> (\<exists>st' d'. Insert ctx1 (\<lambda>l. l = 0) (\<lambda>l. 0) (\<lambda>l. 5) (\<lambda>l. 50) [] table_one
                 = Some (Inr (st', [], d')) \<and> keeps_next table_one d')
   \<and> (\<exists>st' d'. Remove ctx1 (\<lambda>l. l = 0) (\<lambda>l. 0) (\<lambda>l. 1) [] table_one = Some (st', [], d')
                 \<and> keeps_next table_one d')
   \<and> lowest_active (\<lambda>l. l = 0) = Some 0
   \<and> lowest_match table_full 5 (read_unit_data ctx1 table_full (HEAD_SLAB_PTR ctx1) 0) = None
   \<and> lowest_empty (read_unit_data ctx1 table_full (HEAD_SLAB_PTR ctx1) 0) = None
   \<and> read_unit_data ctx1 table_full (HEAD_SLAB_PTR ctx1) 0 31 = EMPTY_SLAB_PTR
   \<and> AllocateSlab table_full = Some (0, table_full\<lparr>slab_heap := [1]\<rparr>)
   \<and> deref (publish_7 (table_full\<lparr>slab_heap := [1]\<rparr>)) (unit_ptr_of ctx1 (HEAD_SLAB_PTR ctx1) 0 31) = 7
   \<and> Insert_body ctx1 (\<lambda>l. 0) (\<lambda>l. 5) (\<lambda>l. 40)
         (ballot_sync ACTIVE_LANES_MASK (\<lambda>l. l = 0)) [\<lambda>d. d, publish_7]
         \<lparr>lane_active = (\<lambda>l. l = 0), iterator = (\<lambda>l. 0xFFFFFFFF), found_mask = (\<lambda>l. False),
          prev_work_queue = 0, curr_slab_ptr = HEAD_SLAB_PTR ctx1\<rparr> table_full
       = Inr (\<lparr>lane_active = (\<lambda>l. l = 0), iterator = (\<lambda>l. 0xFFFFFFFF), found_mask = (\<lambda>l. False),
               prev_work_queue = ballot_sync ACTIVE_LANES_MASK (\<lambda>l. l = 0),
               curr_slab_ptr = HEAD_SLAB_PTR ctx1\<rparr>, [],
              FreeSlab 0 (publish_7 (table_full\<lparr>slab_heap := [1]\<rparr>)))
   \<and> Insert_body ctx1 (\<lambda>l. 0) (\<lambda>l. 5) (\<lambda>l. 40)
         (ballot_sync ACTIVE_LANES_MASK (\<lambda>l. l = 0)) []
         \<lparr>lane_active = (\<lambda>l. l = 0), iterator = (\<lambda>l. 0xFFFFFFFF), found_mask = (\<lambda>l. False),
          prev_work_queue = ballot_sync ACTIVE_LANES_MASK (\<lambda>l. l = 0),
          curr_slab_ptr = HEAD_SLAB_PTR ctx1\<rparr>
         (FreeSlab 0 (publish_7 (table_full\<lparr>slab_heap := [1]\<rparr>)))
       = Inr (\<lparr>lane_active = (\<lambda>l. l = 0), iterator = (\<lambda>l. 0xFFFFFFFF), found_mask = (\<lambda>l. False),
               prev_work_queue = ballot_sync ACTIVE_LANES_MASK (\<lambda>l. l = 0),
               curr_slab_ptr = 7\<rparr>, [],
              FreeSlab 0 (publish_7 (table_full\<lparr>slab_heap := [1]\<rparr>)))"
proof -
  define st :: warp_vars where
    "st = \<lparr>lane_active = (\<lambda>l. l = 0), iterator = (\<lambda>l. 0xFFFFFFFF), found_mask = (\<lambda>l. False),
           prev_work_queue = 0, curr_slab_ptr = HEAD_SLAB_PTR ctx1\<rparr>"
  define wq where "wq = ballot_sync ACTIVE_LANES_MASK (\<lambda>l::nat. l = 0)"
  define d2 where "d2 = table_full\<lparr>slab_heap := [1]\<rparr>"
  have a1: "sched_keeps_next [publish_7]" by (rule publish_7_keeps_next)
  from Search_publish_7_run obtain sS where
    a2: "Search ctx1 (\<lambda>l. l = 0) (\<lambda>l. 0) (\<lambda>l. 1) [publish_7] table_one
           = Some (sS, [], publish_7 table_one)" by blast
  note T1 = next_slab_pointer_set_once[where es="[publish_7]" and ctx=ctx1 and lanes="\<lambda>l. l = 0"
      and bucket_id="\<lambda>l. 0" and key="\<lambda>l. 1" and d=table_one, THEN conjunct1, rule_format, OF a1]
  from T1[THEN conjunct1, rule_format, OF a2]
  have a3: "keeps_next table_one (publish_7 table_one)" .
  from Insert_lane_0_run obtain sI dI where
    a4: "Insert ctx1 (\<lambda>l. l = 0) (\<lambda>l. 0) (\<lambda>l. 5) (\<lambda>l. 50) [] table_one = Some (Inr (sI, [], dI))"
    by blast
  note T2 = next_slab_pointer_set_once[where es="[]" and ctx=ctx1 and lanes="\<lambda>l. l = 0"
      and bucket_id="\<lambda>l. 0" and d=table_one, THEN conjunct1, rule_format, OF sched_keeps_next_Nil]
  from T2[where key="\<lambda>l. 5" and val="\<lambda>l. 50", THEN conjunct2, THEN conjunct1, rule_format, OF a4]
  have a5: "keeps_next table_one dI" .
  from Remove_lane_0_run obtain sR where
    a6: "Remove ctx1 (\<lambda>l. l = 0) (\<lambda>l. 0) (\<lambda>l. 1) [] table_one
           = Some (sR, [], Free 0 (store table_one (list_head_unit 0 0) EMPTY_PAIR_PTR))"
    by blast
  from T2[where key="\<lambda>l. 1", THEN conjunct2, THEN conjunct2, rule_format, OF a6]
  have a7: "keeps_next table_one (Free 0 (store table_one (list_head_unit 0 0) EMPTY_PAIR_PTR))" .
  have s: "lowest_active (lane_active st) = Some 0" by (simp add: st_def lane_0_lowest)
  have w: "wq = ballot_sync ACTIVE_LANES_MASK (lane_active st)" by (simp add: wq_def st_def)
  have wz: "wq \<noteq> 0" by (simp add: wq_def lane_0_ballot)
  have c: "HEAD_SLAB_PTR ctx1 = (if prev_work_queue st \<noteq> wq then HEAD_SLAB_PTR ctx1 else curr_slab_ptr st)"
    by (simp add: st_def)
  have m: "lowest_match table_full 5 (read_unit_data ctx1 table_full (HEAD_SLAB_PTR ctx1) 0) = None"
    and e: "lowest_empty (read_unit_data ctx1 table_full (HEAD_SLAB_PTR ctx1) 0) = None"
    by (rule table_full_no_match; simp)+
  have n: "read_unit_data ctx1 table_full (HEAD_SLAB_PTR ctx1) 0 31 = EMPTY_SLAB_PTR"
    by (simp add: table_full_head table_full_def EMPTY_SLAB_PTR_def)
  have al: "AllocateSlab ((\<lambda>d. d) table_full) = Some (0, d2)"
    by (simp add: AllocateSlab_def table_full_def d2_def)
  have p: "unit_ptr_of ctx1 (HEAD_SLAB_PTR ctx1) 0 31 = list_head_unit 0 31"
    by (simp add: unit_ptr_of_def get_unit_ptr_from_list_head_def)
  have hd: "bucket_list_head (publish_7 d2) 0 = (bucket_list_head table_full 0)(31 := 7)"
    by (simp add: publish_7_def atomicCAS_eq d2_def table_full_def EMPTY_SLAB_PTR_def)
  have pdd: "pair_data (publish_7 d2) = pair_data table_full"
    by (simp add: publish_7_def atomicCAS_eq d2_def table_full_def EMPTY_SLAB_PTR_def)
  have dw: "deref (publish_7 d2) (unit_ptr_of ctx1 (HEAD_SLAB_PTR ctx1) 0 31) = 7"
    by (simp add: p hd)
  have wn: "(7 :: 32 word) \<noteq> EMPTY_SLAB_PTR" by (simp add: EMPTY_SLAB_PTR_def)
  have m2: "lowest_match (publish_7 d2) 5 (read_unit_data ctx1 (publish_7 d2) (HEAD_SLAB_PTR ctx1) 0) = None"
    and e2: "lowest_empty (read_unit_data ctx1 (publish_7 d2) (HEAD_SLAB_PTR ctx1) 0) = None"
    using hd pdd by (rule table_full_no_match[OF disjI2])+
  note T3 = next_slab_pointer_set_once[where ctx=ctx1 and bucket_id="\<lambda>l. 0" and key="\<lambda>l. 5"
      and d=table_full and st=st and s=0 and wq=wq and c="HEAD_SLAB_PTR ctx1" and pre="\<lambda>l. 40",
      THEN conjunct2, rule_format, OF conjI[OF s conjI[OF w conjI[OF c conjI[OF m conjI[OF e n]]]]],
      THEN conjunct2, THEN spec[where x="\<lambda>d. d"], THEN spec[where x=publish_7],
      THEN spec[where x="0 :: 32 word"], THEN spec[where x=d2], THEN spec[where x="7 :: 32 word"],
      THEN mp, OF conjI[OF al conjI[OF dw conjI[OF wn conjI[OF m2 e2]]]]]
  from T3 have b1: "Insert_body ctx1 (\<lambda>l. 0) (\<lambda>l. 5) (\<lambda>l. 40) wq [\<lambda>d. d, publish_7] st table_full =
      Inr (st\<lparr>prev_work_queue := wq, curr_slab_ptr := HEAD_SLAB_PTR ctx1\<rparr>, [], FreeSlab 0 (publish_7 d2))"
    and b2: "Insert_body ctx1 (\<lambda>l. 0) (\<lambda>l. 5) (\<lambda>l. 40) wq []
       (st\<lparr>prev_work_queue := wq, curr_slab_ptr := HEAD_SLAB_PTR ctx1\<rparr>) (FreeSlab 0 (publish_7 d2)) =
      Inr (st\<lparr>prev_work_queue := wq, curr_slab_ptr := 7\<rparr>, [], FreeSlab 0 (publish_7 d2))"
    by - (elim conjE, assumption)+
  have "AllocateSlab table_full = Some (0, table_full\<lparr>slab_heap := [1]\<rparr>)"
    using al by (simp add: d2_def)
  moreover note a1 a2 a3 a4 a5 a6 a7 lane_0_lowest m e n dw[unfolded d2_def]
    b1[unfolded st_def wq_def d2_def] b2[unfolded st_def wq_def d2_def]
  ultimately show ?thesis by simp
qed

section \<open>Remove of an entry that another warp removes at the same time\<close>

text \<open>
  C2. Remove of a found key, with another warp in between. The serviced lane reads the
  slot a second time (\<^verbatim>\<open>pair_to_delete = *unit_data_ptr\<close>) and gives that second reading to
  \<^verbatim>\<open>atomicCAS\<close> as the comparand, while \<^verbatim>\<open>Free\<close> gets the pair index the warp read first
  (\<^verbatim>\<open>src_pair_internal_ptr\<close>). On \<open>table_one\<close> a warp removes key 1 with lane 0. Alone, it
  clears slot 0 and frees pair record 0, which is what \<open>remove_by_other_warp\<close> does. When
  another warp does just that between the two readings, the slot reads \<open>EMPTY_PAIR_PTR\<close>
  the second time, the CAS of \<open>EMPTY_PAIR_PTR\<close> against \<open>EMPTY_PAIR_PTR\<close> succeeds, pair record
  0 is freed a second time and the result of the lane is true. A CAS against the pair
  index observed by the warp would have failed there, with nothing freed and result false.
\<close>

theorem Remove_frees_twice:
  "(\<exists>st'. Remove ctx1 (\<lambda>l. l = 0) (\<lambda>l. 0) (\<lambda>l. 1) [] table_one
             = Some (st', [], remove_by_other_warp table_one) \<and> found_mask st' 0)
   \<and> pair_heap (remove_by_other_warp table_one) = [0, 1, 2, 3]
   \<and> deref (remove_by_other_warp table_one) (list_head_unit 0 0) = EMPTY_PAIR_PTR
   \<and> (\<exists>st' d'. Remove ctx1 (\<lambda>l. l = 0) (\<lambda>l. 0) (\<lambda>l. 1) [\<lambda>d. d, remove_by_other_warp] table_one
             = Some (st', [], d')
          \<and> found_mask st' 0 \<and> \<not> lane_active st' 0 \<and> pair_heap d' = [0, 0, 1, 2, 3])"
proof -
  define st0 where "st0 = \<lparr>lane_active = (\<lambda>l::nat. l = 0), iterator = (\<lambda>_. NULL_ITERATOR ctx1),
              found_mask = (\<lambda>_. False), prev_work_queue = 0,
              curr_slab_ptr = HEAD_SLAB_PTR ctx1\<rparr>"
  define wq where "wq = ballot_sync ACTIVE_LANES_MASK (lane_active st0)"
  define c where "c = (if prev_work_queue st0 \<noteq> wq then HEAD_SLAB_PTR ctx1 else curr_slab_ptr st0)"
  define d1 where "d1 = remove_by_other_warp table_one"
  have s: "lowest_active (lane_active st0) = Some 0" by (simp add: st0_def lane_0_lowest)
  have wz: "wq \<noteq> 0" by (simp add: wq_def st0_def lane_0_ballot)
  have ch: "c = HEAD_SLAB_PTR ctx1" using wz by (simp add: c_def st0_def)
  have u: "read_unit_data ctx1 table_one c 0 l = (if l = 0 then 0 else 0xFFFFFFFF)" for l
    by (simp add: ch read_unit_data_def ctx1_def table_one_def get_unit_ptr_from_list_head_def)
  have p: "unit_ptr_of ctx1 c 0 0 = list_head_unit 0 0"
    by (simp add: ch unit_ptr_of_def get_unit_ptr_from_list_head_def)
  have pd: "pair_data table_one 0 = (1, 10)" by (simp add: table_one_def)
  have m: "lowest_match table_one 1 (read_unit_data ctx1 table_one c 0) = Some 0"
    by (rule lowest_match_eqI) (simp_all add: slot_matches_def u EMPTY_PAIR_PTR_def pd)
  have e1: "deref d1 (list_head_unit 0 0) = EMPTY_PAIR_PTR"
    by (simp add: d1_def remove_by_other_warp_def Free_def)
  have h1: "pair_heap d1 = [0, 1, 2, 3]"
    by (simp add: d1_def remove_by_other_warp_def Free_def table_one_def)
  let ?st1 = "st0\<lparr>lane_active := (lane_active st0)(0 := False),
                      found_mask := (found_mask st0)(0 := True),
                      prev_work_queue := wq, curr_slab_ptr := c\<rparr>"
  let ?d2 = "Free 0 (store d1 (list_head_unit 0 0) EMPTY_PAIR_PTR)"
  have B: "Remove_body ctx1 (\<lambda>l. 0) (\<lambda>l. 1) wq [remove_by_other_warp] st0 table_one = (?st1, [], ?d2)"
    using Remove_body_found[where key="\<lambda>l. 1" and bucket_id="\<lambda>l. 0" and s=0, OF s wq_def c_def m,
        of "[remove_by_other_warp]"]
    by (simp add: Let_def p u d1_def[symmetric] e1 del: store.simps)
  have n: "lowest_active (lane_active ?st1) = None"
    by (simp add: lowest_active_None st0_def)
  have "Remove_loop ctx1 (\<lambda>l. 0) (\<lambda>l. 1) [\<lambda>d. d, remove_by_other_warp] st0 table_one
          = Some (?st1, [], ?d2)"
    using Remove_loop_step[OF s, of ctx1 "\<lambda>l. 0" "\<lambda>l. 1" "[\<lambda>d. d, remove_by_other_warp]" table_one] B
      Remove_loop_done[OF n, of ctx1 "\<lambda>l. 0" "\<lambda>l. 1" "[]" ?d2]
    by (simp add: wq_def)
  then have R: "Remove ctx1 (\<lambda>l. l = 0) (\<lambda>l. 0) (\<lambda>l. 1) [\<lambda>d. d, remove_by_other_warp] table_one
          = Some (?st1, [], ?d2)"
    by (simp add: Remove_def st0_def)
  have h2: "pair_heap ?d2 = [0, 0, 1, 2, 3]"
    by (simp add: Free_def h1)
  have f: "found_mask ?st1 0" "\<not> lane_active ?st1 0" by simp_all
  from Remove_lane_0_run have A: "\<exists>st'. Remove ctx1 (\<lambda>l. l = 0) (\<lambda>l. 0) (\<lambda>l. 1) [] table_one
             = Some (st', [], remove_by_other_warp table_one) \<and> found_mask st' 0"
    by (simp add: remove_by_other_warp_def)
  from A h1 e1 R h2 f show ?thesis unfolding d1_def by blast
qed

section \<open>Iterations of one warp alone\<close>

lemma Insert_loop_duplicate_alone:
  assumes "lowest_active (lane_active st) = Some s"
    and "c = (if prev_work_queue st \<noteq> ballot_sync ACTIVE_LANES_MASK (lane_active st)
              then HEAD_SLAB_PTR ctx else curr_slab_ptr st)"
    and "lowest_match d (key s) (read_unit_data ctx d c (bucket_id s)) = Some l"
  shows "Insert_loop ctx bucket_id key pre [] st d =
         Insert_loop ctx bucket_id key pre []
           (st\<lparr>lane_active := (lane_active st)(s := False),
               prev_work_queue := ballot_sync ACTIVE_LANES_MASK (lane_active st),
               curr_slab_ptr := c\<rparr>)
           (Free (pre s) d)"
  using Insert_loop_step[OF assms(1), of ctx bucket_id key pre "[]" d]
    Insert_body_duplicate[where key=key and bucket_id=bucket_id, OF assms(1) refl assms(2,3), of pre "[]"]
  by simp

lemma Insert_loop_empty_slot_alone:
  assumes "lowest_active (lane_active st) = Some s"
    and "c = (if prev_work_queue st \<noteq> ballot_sync ACTIVE_LANES_MASK (lane_active st)
              then HEAD_SLAB_PTR ctx else curr_slab_ptr st)"
    and "lowest_match d (key s) (read_unit_data ctx d c (bucket_id s)) = None"
    and "lowest_empty (read_unit_data ctx d c (bucket_id s)) = Some l"
  shows "Insert_loop ctx bucket_id key pre [] st d =
         Insert_loop ctx bucket_id key pre []
           (st\<lparr>lane_active := (lane_active st)(s := False),
               iterator := (iterator st)(s := pre s),
               found_mask := (found_mask st)(s := True),
               prev_work_queue := ballot_sync ACTIVE_LANES_MASK (lane_active st),
               curr_slab_ptr := c\<rparr>)
           (store d (unit_ptr_of ctx c (bucket_id s) l) (pre s))"
proof -
  from lowest_empty_Some(2)[OF assms(4)]
  have "deref d (unit_ptr_of ctx c (bucket_id s) l) = EMPTY_PAIR_PTR"
    by (simp add: read_unit_data_deref)
  with Insert_loop_step[OF assms(1), of ctx bucket_id key pre "[]" d]
    Insert_body_empty_slot[where key=key and bucket_id=bucket_id, OF assms(1) refl assms(2,3,4), of pre "[]"]
  show ?thesis by (simp add: Let_def)
qed

lemma Insert_loop_next_slab_alone:
  assumes "lowest_active (lane_active st) = Some s"
    and "c = (if prev_work_queue st \<noteq> ballot_sync ACTIVE_LANES_MASK (lane_active st)
              then HEAD_SLAB_PTR ctx else curr_slab_ptr st)"
    and "lowest_match d (key s) (read_unit_data ctx d c (bucket_id s)) = None"
    and "lowest_empty (read_unit_data ctx d c (bucket_id s)) = None"
    and "read_unit_data ctx d c (bucket_id s) 31 \<noteq> EMPTY_SLAB_PTR"
  shows "Insert_loop ctx bucket_id key pre [] st d =
         Insert_loop ctx bucket_id key pre []
           (st\<lparr>prev_work_queue := ballot_sync ACTIVE_LANES_MASK (lane_active st),
               curr_slab_ptr := read_unit_data ctx d c (bucket_id s) 31\<rparr>) d"
  using Insert_loop_step[OF assms(1), of ctx bucket_id key pre "[]" d]
    Insert_body_next_slab[where key=key and bucket_id=bucket_id, OF assms(1) refl assms(2-5), of pre "[]"]
  by simp

lemma Insert_loop_extend_alone:
  assumes "lowest_active (lane_active st) = Some s"
    and "c = (if prev_work_queue st \<noteq> ballot_sync ACTIVE_LANES_MASK (lane_active st)
              then HEAD_SLAB_PTR ctx else curr_slab_ptr st)"
    and "lowest_match d (key s) (read_unit_data ctx d c (bucket_id s)) = None"
    and "lowest_empty (read_unit_data ctx d c (bucket_id s)) = None"
    and "read_unit_data ctx d c (bucket_id s) 31 = EMPTY_SLAB_PTR"
    and "slab_heap d = new_slab # ss"
  shows "Insert_loop ctx bucket_id key pre [] st d =
         Insert_loop ctx bucket_id key pre []
           (st\<lparr>prev_work_queue := ballot_sync ACTIVE_LANES_MASK (lane_active st),
               curr_slab_ptr := c\<rparr>)
           (store (d\<lparr>slab_heap := ss\<rparr>) (unit_ptr_of ctx c (bucket_id s) 31) new_slab)"
proof -
  have a: "AllocateSlab d = Some (new_slab, d\<lparr>slab_heap := ss\<rparr>)"
    using assms(6) by (simp add: AllocateSlab_def)
  have "deref (d\<lparr>slab_heap := ss\<rparr>) (unit_ptr_of ctx c (bucket_id s) 31) = EMPTY_SLAB_PTR"
    using assms(5) by (simp add: read_unit_data_deref)
  with a Insert_loop_step[OF assms(1), of ctx bucket_id key pre "[]" d]
    Insert_body_extend[where key=key and bucket_id=bucket_id, OF assms(1) refl assms(2-5), of pre "[]"]
  show ?thesis by (simp add: Let_def)
qed

lemma Remove_loop_found_alone:
  assumes "lowest_active (lane_active st) = Some s"
    and "c = (if prev_work_queue st \<noteq> ballot_sync ACTIVE_LANES_MASK (lane_active st)
              then HEAD_SLAB_PTR ctx else curr_slab_ptr st)"
    and "lowest_match d (key s) (read_unit_data ctx d c (bucket_id s)) = Some l"
  shows "Remove_loop ctx bucket_id key [] st d =
         Remove_loop ctx bucket_id key []
           (st\<lparr>lane_active := (lane_active st)(s := False),
               found_mask := (found_mask st)(s := True),
               prev_work_queue := ballot_sync ACTIVE_LANES_MASK (lane_active st),
               curr_slab_ptr := c\<rparr>)
           (Free (read_unit_data ctx d c (bucket_id s) l)
              (store d (unit_ptr_of ctx c (bucket_id s) l) EMPTY_PAIR_PTR))"
  using Remove_loop_step[OF assms(1), of ctx bucket_id key "[]" d]
    Remove_body_found[where key=key and bucket_id=bucket_id, OF assms(1) refl assms(2,3), of "[]"]
  by (simp add: Let_def)

lemma Remove_loop_not_found_alone:
  assumes "lowest_active (lane_active st) = Some s"
    and "c = (if prev_work_queue st \<noteq> ballot_sync ACTIVE_LANES_MASK (lane_active st)
              then HEAD_SLAB_PTR ctx else curr_slab_ptr st)"
    and "lowest_match d (key s) (read_unit_data ctx d c (bucket_id s)) = None"
  shows "Remove_loop ctx bucket_id key [] st d =
         Remove_loop ctx bucket_id key []
           (if read_unit_data ctx d c (bucket_id s) 31 = EMPTY_SLAB_PTR
            then st\<lparr>lane_active := (\<lambda>_. False),
                    prev_work_queue := ballot_sync ACTIVE_LANES_MASK (lane_active st),
                    curr_slab_ptr := c\<rparr>
            else st\<lparr>prev_work_queue := ballot_sync ACTIVE_LANES_MASK (lane_active st),
                    curr_slab_ptr := read_unit_data ctx d c (bucket_id s) 31\<rparr>) d"
  using Remove_loop_step[OF assms(1), of ctx bucket_id key "[]" d]
    Remove_body_not_found[where key=key and bucket_id=bucket_id, OF assms(1) refl assms(2,3), of "[]"]
  by simp

lemma Search_loop_found_alone:
  assumes "lowest_active (lane_active st) = Some s"
    and "c = (if prev_work_queue st \<noteq> ballot_sync ACTIVE_LANES_MASK (lane_active st)
              then HEAD_SLAB_PTR ctx else curr_slab_ptr st)"
    and "lowest_match d (key s) (read_unit_data ctx d c (bucket_id s)) = Some l"
  shows "Search_loop ctx bucket_id key [] st d =
         Search_loop ctx bucket_id key []
           (st\<lparr>lane_active := (lane_active st)(s := False),
               iterator := (iterator st)(s := read_unit_data ctx d c (bucket_id s) l),
               found_mask := (found_mask st)(s := True),
               prev_work_queue := ballot_sync ACTIVE_LANES_MASK (lane_active st),
               curr_slab_ptr := c\<rparr>) d"
  using Search_loop_step[OF assms(1), of ctx bucket_id key d]
    Search_body_found[where key=key and bucket_id=bucket_id, OF assms(1) refl assms(2,3)]
  by (simp add: search_done_def)

lemma Search_loop_not_found_alone:
  assumes "lowest_active (lane_active st) = Some s"
    and "c = (if prev_work_queue st \<noteq> ballot_sync ACTIVE_LANES_MASK (lane_active st)
              then HEAD_SLAB_PTR ctx else curr_slab_ptr st)"
    and "lowest_match d (key s) (read_unit_data ctx d c (bucket_id s)) = None"
  shows "Search_loop ctx bucket_id key [] st d =
         Search_loop ctx bucket_id key []
           (if read_unit_data ctx d c (bucket_id s) 31 = EMPTY_SLAB_PTR
            then st\<lparr>lane_active := (lane_active st)(s := False),
                    prev_work_queue := ballot_sync ACTIVE_LANES_MASK (lane_active st),
                    curr_slab_ptr := c\<rparr>
            else st\<lparr>prev_work_queue := ballot_sync ACTIVE_LANES_MASK (lane_active st),
                    curr_slab_ptr := read_unit_data ctx d c (bucket_id s) 31\<rparr>) d"
  using Search_loop_step[OF assms(1), of ctx bucket_id key d]
    Search_body_not_found[where key=key and bucket_id=bucket_id, OF assms(1) refl assms(2,3)]
  by (simp add: search_done_def)

section \<open>Insert of a key that sits behind an empty slot\<close>

lemma prealloc_lanes_lane_0:
  "pair_heap d = p # ps \<Longrightarrow>
   prealloc_lanes [0..<32] (\<lambda>l. l = 0) key val pre d =
   Inr (pre(0 := p), d\<lparr>pair_heap := ps, pair_data := (pair_data d)(p := (key 0, val 0))\<rparr>)"
  by (simp add: upt_rec Allocate_def)

lemma word32_of_nat_pair:
  fixes j :: nat
  assumes "j < 31"
  shows "(of_nat j :: 32 word) \<noteq> 40" and "(of_nat j :: 32 word) = 0 \<longleftrightarrow> j = 0"
proof -
  from assms have u: "unat (of_nat j :: 32 word) = j" by (simp add: unat_of_nat)
  show "(of_nat j :: 32 word) \<noteq> 40"
  proof
    assume a: "(of_nat j :: 32 word) = 40"
    from u have "unat (40 :: 32 word) = j" by (simp only: a)
    with assms show False by simp
  qed
  show "(of_nat j :: 32 word) = 0 \<longleftrightarrow> j = 0"
  proof
    assume a: "(of_nat j :: 32 word) = 0"
    from u have "unat (0 :: 32 word) = j" by (simp only: a)
    then show "j = 0" by simp
  qed simp
qed

lemma head_no_match:
  assumes "\<And>j. j < 31 \<Longrightarrow> bucket_list_head d 0 j = EMPTY_PAIR_PTR \<or>
                           fst (pair_data d (bucket_list_head d 0 j)) \<noteq> k"
  shows "lowest_match d k (read_unit_data ctx1 d (HEAD_SLAB_PTR ctx1) 0) = None"
  by (rule lowest_match_NoneI) (use assms in \<open>auto simp add: slot_matches_def table_full_head\<close>)

lemma head_no_empty:
  assumes "\<And>j. j < 31 \<Longrightarrow> bucket_list_head d 0 j \<noteq> EMPTY_PAIR_PTR"
  shows "lowest_empty (read_unit_data ctx1 d (HEAD_SLAB_PTR ctx1) 0) = None"
  by (rule lowest_empty_NoneI) (use assms in \<open>simp add: table_full_head\<close>)

lemma slab_0_units:
  "read_unit_data ctx1 d 0 b l = slab_units d 0 l"
  by (simp add: read_unit_data_def get_unit_ptr_from_list_nodes_def ctx1_def)

lemma ctx1_unit_ptrs:
  "unit_ptr_of ctx1 (HEAD_SLAB_PTR ctx1) b l = list_head_unit b l"
  "unit_ptr_of ctx1 0 b l = list_node_unit 0 l"
  by (simp_all add: unit_ptr_of_def get_unit_ptr_from_list_head_def
      get_unit_ptr_from_list_nodes_def ctx1_def)

lemma Insert_5_into_table_full:
  "Insert ctx1 (\<lambda>l. l = 0) (\<lambda>l. 0) (\<lambda>l. 5) (\<lambda>l. 50) [] table_full =
   Some (Inr (\<lparr>lane_active = (\<lambda>l. False), iterator = (\<lambda>l. NULL_ITERATOR ctx1)(0 := 40),
               found_mask = (\<lambda>l. l = 0),
               prev_work_queue = ballot_sync ACTIVE_LANES_MASK (\<lambda>l. l = 0),
               curr_slab_ptr = 0\<rparr>, [], table_full_5))"
proof -
  define wq where "wq = ballot_sync ACTIVE_LANES_MASK (\<lambda>l::nat. l = 0)"
  define pre :: "nat \<Rightarrow> ptr_t" where "pre = (\<lambda>_. EMPTY_PAIR_PTR)(0 := 40)"
  define d0 :: "(32 word, 32 word) device" where
    "d0 = table_full\<lparr>pair_heap := [41], pair_data := (pair_data table_full)(40 := (5, 50))\<rparr>"
  define d1 where "d1 = store (d0\<lparr>slab_heap := [1]\<rparr>) (list_head_unit 0 31) 0"
  define st0 :: warp_vars where
    "st0 = \<lparr>lane_active = (\<lambda>l. l = 0), iterator = (\<lambda>_. NULL_ITERATOR ctx1),
            found_mask = (\<lambda>_. False), prev_work_queue = 0, curr_slab_ptr = HEAD_SLAB_PTR ctx1\<rparr>"
  have wz: "wq \<noteq> 0" by (simp add: wq_def lane_0_ballot)
  have "pair_heap table_full = 40 # [41]" by (simp add: table_full_def)
  from prealloc_lanes_lane_0[OF this]
  have P: "prealloc_lanes [0..<32] (\<lambda>l. l = 0) (\<lambda>l. 5) (\<lambda>l. 50) (\<lambda>_. EMPTY_PAIR_PTR) table_full
           = Inr (pre, d0)"
    by (simp add: pre_def d0_def)
  have I: "Insert ctx1 (\<lambda>l. l = 0) (\<lambda>l. 0) (\<lambda>l. 5) (\<lambda>l. 50) [] table_full =
           Insert_loop ctx1 (\<lambda>l. 0) (\<lambda>l. 5) pre [] st0 d0"
    by (simp add: Insert_def P st0_def)
  \<comment> \<open>first iteration: the head slab is full and has no next slab\<close>
  have s0: "lowest_active (lane_active st0) = Some 0" by (simp add: st0_def lane_0_lowest)
  have c0: "HEAD_SLAB_PTR ctx1 =
      (if prev_work_queue st0 \<noteq> ballot_sync ACTIVE_LANES_MASK (lane_active st0)
       then HEAD_SLAB_PTR ctx1 else curr_slab_ptr st0)"
    by (simp add: st0_def)
  have m0: "lowest_match d0 5 (read_unit_data ctx1 d0 (HEAD_SLAB_PTR ctx1) 0) = None"
    by (rule head_no_match)
       (simp add: d0_def table_full_def word32_of_nat_pair word32_of_nat_lane)
  have e0: "lowest_empty (read_unit_data ctx1 d0 (HEAD_SLAB_PTR ctx1) 0) = None"
    by (rule head_no_empty)
       (simp add: d0_def table_full_def EMPTY_PAIR_PTR_def word32_of_nat_lane)
  have n0: "read_unit_data ctx1 d0 (HEAD_SLAB_PTR ctx1) 0 31 = EMPTY_SLAB_PTR"
    by (simp add: table_full_head d0_def table_full_def EMPTY_SLAB_PTR_def)
  have h0: "slab_heap d0 = 0 # [1]" by (simp add: d0_def table_full_def)
  define st1 where "st1 = st0\<lparr>prev_work_queue := wq, curr_slab_ptr := HEAD_SLAB_PTR ctx1\<rparr>"
  have L1: "Insert_loop ctx1 (\<lambda>l. 0) (\<lambda>l. 5) pre [] st0 d0 =
            Insert_loop ctx1 (\<lambda>l. 0) (\<lambda>l. 5) pre [] st1 d1"
    using Insert_loop_extend_alone[where key="\<lambda>l. 5" and bucket_id="\<lambda>l. 0", OF s0 c0 m0 e0 n0 h0, of pre]
    by (simp add: st1_def d1_def wq_def st0_def ctx1_unit_ptrs)
  \<comment> \<open>second iteration: the same slab again, now with a next slab\<close>
  have s1: "lowest_active (lane_active st1) = Some 0" by (simp add: st1_def st0_def lane_0_lowest)
  have c1: "HEAD_SLAB_PTR ctx1 =
      (if prev_work_queue st1 \<noteq> ballot_sync ACTIVE_LANES_MASK (lane_active st1)
       then HEAD_SLAB_PTR ctx1 else curr_slab_ptr st1)"
    by (simp add: st1_def st0_def)
  have m1: "lowest_match d1 5 (read_unit_data ctx1 d1 (HEAD_SLAB_PTR ctx1) 0) = None"
    by (rule head_no_match)
       (simp add: d1_def d0_def table_full_def word32_of_nat_pair word32_of_nat_lane)
  have e1: "lowest_empty (read_unit_data ctx1 d1 (HEAD_SLAB_PTR ctx1) 0) = None"
    by (rule head_no_empty)
       (simp add: d1_def d0_def table_full_def EMPTY_PAIR_PTR_def word32_of_nat_lane)
  have n1: "read_unit_data ctx1 d1 (HEAD_SLAB_PTR ctx1) 0 31 = 0"
    by (simp add: table_full_head d1_def)
  have n1': "read_unit_data ctx1 d1 (HEAD_SLAB_PTR ctx1) 0 31 \<noteq> EMPTY_SLAB_PTR"
    by (simp add: n1 EMPTY_SLAB_PTR_def)
  define st2 where "st2 = st1\<lparr>prev_work_queue := wq, curr_slab_ptr := 0\<rparr>"
  have L2: "Insert_loop ctx1 (\<lambda>l. 0) (\<lambda>l. 5) pre [] st1 d1 =
            Insert_loop ctx1 (\<lambda>l. 0) (\<lambda>l. 5) pre [] st2 d1"
    using Insert_loop_next_slab_alone[where key="\<lambda>l. 5" and bucket_id="\<lambda>l. 0", OF s1 c1 m1 e1 n1', of pre]
    by (simp add: st2_def wq_def st1_def st0_def n1)
  \<comment> \<open>third iteration: slab 0 is empty\<close>
  have s2: "lowest_active (lane_active st2) = Some 0"
    by (simp add: st2_def st1_def st0_def lane_0_lowest)
  have c2: "0 = (if prev_work_queue st2 \<noteq> ballot_sync ACTIVE_LANES_MASK (lane_active st2)
       then HEAD_SLAB_PTR ctx1 else curr_slab_ptr st2)"
    by (simp add: st2_def st1_def st0_def wq_def)
  have u2: "slab_units d1 0 l = 0xFFFFFFFF" for l
    by (simp add: d1_def d0_def table_full_def)
  have m2: "lowest_match d1 5 (read_unit_data ctx1 d1 0 0) = None"
    by (rule lowest_match_NoneI) (simp add: slot_matches_def slab_0_units u2 EMPTY_PAIR_PTR_def)
  have e2: "lowest_empty (read_unit_data ctx1 d1 0 0) = Some 0"
    by (rule lowest_empty_eqI) (simp_all add: slab_0_units u2 EMPTY_PAIR_PTR_def)
  define st3 where "st3 = st2\<lparr>lane_active := (lane_active st2)(0 := False),
               iterator := (iterator st2)(0 := pre 0),
               found_mask := (found_mask st2)(0 := True),
               prev_work_queue := wq, curr_slab_ptr := 0\<rparr>"
  have L3: "Insert_loop ctx1 (\<lambda>l. 0) (\<lambda>l. 5) pre [] st2 d1 =
            Insert_loop ctx1 (\<lambda>l. 0) (\<lambda>l. 5) pre [] st3 (store d1 (list_node_unit 0 0) 40)"
    using Insert_loop_empty_slot_alone[where key="\<lambda>l. 5" and bucket_id="\<lambda>l. 0", OF s2 c2 m2 e2, of pre]
    by (simp add: st3_def wq_def st2_def st1_def st0_def ctx1_unit_ptrs pre_def)
  have s3: "lowest_active (lane_active st3) = None"
    by (simp add: lowest_active_None st3_def st2_def st1_def st0_def)
  have L4: "Insert_loop ctx1 (\<lambda>l. 0) (\<lambda>l. 5) pre [] st3 (store d1 (list_node_unit 0 0) 40) =
            Some (Inr (st3, [], store d1 (list_node_unit 0 0) 40))"
    by (rule Insert_loop_done[OF s3])
  have D: "store d1 (list_node_unit 0 0) 40 = table_full_5"
    by (simp add: d1_def d0_def table_full_5_def)
  have S: "st3 = \<lparr>lane_active = (\<lambda>l. False), iterator = (\<lambda>l. NULL_ITERATOR ctx1)(0 := 40),
               found_mask = (\<lambda>l. l = 0), prev_work_queue = wq, curr_slab_ptr = 0\<rparr>"
    by (auto simp add: st3_def st2_def st1_def st0_def pre_def fun_eq_iff)
  from I L1 L2 L3 L4 D S show ?thesis by (simp add: wq_def)
qed

lemma table_full_5_head:
  "bucket_list_head table_full_5 0 j = (if j = 31 then 0 else if j < 31 then of_nat j else 0xFFFFFFFF)"
  by (simp add: table_full_5_def table_full_def)

lemma table_full_5_pairs:
  "pair_data table_full_5 p = (if p = 40 then (5, 50) else (p + 100, 0))"
  by (simp add: table_full_5_def table_full_def)

lemma table_hole_head:
  "bucket_list_head table_hole 0 j =
     (if j = 0 then EMPTY_PAIR_PTR else if j = 31 then 0 else if j < 31 then of_nat j else 0xFFFFFFFF)"
  by (simp add: table_hole_def Free_def table_full_5_head del: One_nat_def)

lemma table_hole_slab_0:
  "slab_units table_hole 0 l = (if l = 0 then 40 else 0xFFFFFFFF)"
  by (simp add: table_hole_def Free_def table_full_5_def table_full_def)

lemma table_hole_pairs:
  "pair_data table_hole p = (if p = 40 then (5, 50) else (p + 100, 0))"
  by (simp add: table_hole_def Free_def table_full_5_pairs)

lemma table_hole_heap: "pair_heap table_hole = [0, 41]"
  by (simp add: table_hole_def Free_def table_full_5_def)

lemma Remove_100_from_table_full_5:
  "Remove ctx1 (\<lambda>l. l = 0) (\<lambda>l. 0) (\<lambda>l. 100) [] table_full_5 =
   Some (\<lparr>lane_active = (\<lambda>l. False), iterator = (\<lambda>l. NULL_ITERATOR ctx1),
          found_mask = (\<lambda>l. l = 0),
          prev_work_queue = ballot_sync ACTIVE_LANES_MASK (\<lambda>l. l = 0),
          curr_slab_ptr = HEAD_SLAB_PTR ctx1\<rparr>, [], table_hole)"
proof -
  define st0 :: warp_vars where
    "st0 = \<lparr>lane_active = (\<lambda>l. l = 0), iterator = (\<lambda>_. NULL_ITERATOR ctx1),
            found_mask = (\<lambda>_. False), prev_work_queue = 0, curr_slab_ptr = HEAD_SLAB_PTR ctx1\<rparr>"
  define wq where "wq = ballot_sync ACTIVE_LANES_MASK (\<lambda>l::nat. l = 0)"
  have wz: "wq \<noteq> 0" by (simp add: wq_def lane_0_ballot)
  have s0: "lowest_active (lane_active st0) = Some 0" by (simp add: st0_def lane_0_lowest)
  have c0: "HEAD_SLAB_PTR ctx1 =
      (if prev_work_queue st0 \<noteq> ballot_sync ACTIVE_LANES_MASK (lane_active st0)
       then HEAD_SLAB_PTR ctx1 else curr_slab_ptr st0)"
    by (simp add: st0_def)
  have m0: "lowest_match table_full_5 100 (read_unit_data ctx1 table_full_5 (HEAD_SLAB_PTR ctx1) 0) = Some 0"
    by (rule lowest_match_eqI)
       (simp_all add: slot_matches_def table_full_head table_full_5_head table_full_5_pairs
          EMPTY_PAIR_PTR_def)
  define st1 where "st1 = st0\<lparr>lane_active := (lane_active st0)(0 := False),
               found_mask := (found_mask st0)(0 := True),
               prev_work_queue := wq, curr_slab_ptr := HEAD_SLAB_PTR ctx1\<rparr>"
  have L1: "Remove_loop ctx1 (\<lambda>l. 0) (\<lambda>l. 100) [] st0 table_full_5 =
            Remove_loop ctx1 (\<lambda>l. 0) (\<lambda>l. 100) [] st1 table_hole"
    using Remove_loop_found_alone[where key="\<lambda>l. 100" and bucket_id="\<lambda>l. 0", OF s0 c0 m0]
    by (simp add: st1_def wq_def st0_def ctx1_unit_ptrs table_full_head table_full_5_head
        table_hole_def del: store.simps)
  have s1: "lowest_active (lane_active st1) = None"
    by (simp add: lowest_active_None st1_def st0_def)
  have S: "st1 = \<lparr>lane_active = (\<lambda>l. False), iterator = (\<lambda>l. NULL_ITERATOR ctx1),
          found_mask = (\<lambda>l. l = 0), prev_work_queue = wq, curr_slab_ptr = HEAD_SLAB_PTR ctx1\<rparr>"
    by (auto simp add: st1_def st0_def fun_eq_iff)
  from L1 Remove_loop_done[OF s1, of ctx1 "\<lambda>l. 0" "\<lambda>l. 100" "[]" table_hole] S
  show ?thesis by (simp add: Remove_def st0_def wq_def)
qed

lemma Search_5_in_table_hole:
  "Search ctx1 (\<lambda>l. l = 0) (\<lambda>l. 0) (\<lambda>l. 5) [] table_hole =
   Some (\<lparr>lane_active = (\<lambda>l. False), iterator = (\<lambda>l. NULL_ITERATOR ctx1)(0 := 40),
          found_mask = (\<lambda>l. l = 0),
          prev_work_queue = ballot_sync ACTIVE_LANES_MASK (\<lambda>l. l = 0),
          curr_slab_ptr = 0\<rparr>, [], table_hole)"
proof -
  define st0 :: warp_vars where
    "st0 = \<lparr>lane_active = (\<lambda>l. l = 0), iterator = (\<lambda>_. NULL_ITERATOR ctx1),
            found_mask = (\<lambda>_. False), prev_work_queue = 0, curr_slab_ptr = HEAD_SLAB_PTR ctx1\<rparr>"
  define wq where "wq = ballot_sync ACTIVE_LANES_MASK (\<lambda>l::nat. l = 0)"
  have wz: "wq \<noteq> 0" by (simp add: wq_def lane_0_ballot)
  have s0: "lowest_active (lane_active st0) = Some 0" by (simp add: st0_def lane_0_lowest)
  have c0: "HEAD_SLAB_PTR ctx1 =
      (if prev_work_queue st0 \<noteq> ballot_sync ACTIVE_LANES_MASK (lane_active st0)
       then HEAD_SLAB_PTR ctx1 else curr_slab_ptr st0)"
    by (simp add: st0_def)
  have m0: "lowest_match table_hole 5 (read_unit_data ctx1 table_hole (HEAD_SLAB_PTR ctx1) 0) = None"
    by (rule head_no_match)
       (simp add: table_hole_head table_hole_pairs word32_of_nat_pair word32_of_nat_lane)
  have n0: "read_unit_data ctx1 table_hole (HEAD_SLAB_PTR ctx1) 0 31 = 0"
    by (simp add: table_full_head table_hole_head)
  define st1 where "st1 = st0\<lparr>prev_work_queue := wq, curr_slab_ptr := 0\<rparr>"
  have L1: "Search_loop ctx1 (\<lambda>l. 0) (\<lambda>l. 5) [] st0 table_hole =
            Search_loop ctx1 (\<lambda>l. 0) (\<lambda>l. 5) [] st1 table_hole"
    using Search_loop_not_found_alone[where key="\<lambda>l. 5" and bucket_id="\<lambda>l. 0", OF s0 c0 m0]
    by (simp add: st1_def wq_def st0_def n0 EMPTY_SLAB_PTR_def)
  have s1: "lowest_active (lane_active st1) = Some 0" by (simp add: st1_def st0_def lane_0_lowest)
  have c1: "0 = (if prev_work_queue st1 \<noteq> ballot_sync ACTIVE_LANES_MASK (lane_active st1)
       then HEAD_SLAB_PTR ctx1 else curr_slab_ptr st1)"
    by (simp add: st1_def st0_def wq_def)
  have m1: "lowest_match table_hole 5 (read_unit_data ctx1 table_hole 0 0) = Some 0"
    by (rule lowest_match_eqI)
       (simp_all add: slot_matches_def slab_0_units table_hole_slab_0 table_hole_pairs
          EMPTY_PAIR_PTR_def)
  define st2 where "st2 = st1\<lparr>lane_active := (lane_active st1)(0 := False),
               iterator := (iterator st1)(0 := 40),
               found_mask := (found_mask st1)(0 := True),
               prev_work_queue := wq, curr_slab_ptr := 0\<rparr>"
  have L2: "Search_loop ctx1 (\<lambda>l. 0) (\<lambda>l. 5) [] st1 table_hole =
            Search_loop ctx1 (\<lambda>l. 0) (\<lambda>l. 5) [] st2 table_hole"
    using Search_loop_found_alone[where key="\<lambda>l. 5" and bucket_id="\<lambda>l. 0", OF s1 c1 m1]
    by (simp add: st2_def wq_def st1_def st0_def slab_0_units table_hole_slab_0)
  have s2: "lowest_active (lane_active st2) = None"
    by (simp add: lowest_active_None st2_def st1_def st0_def)
  have S: "st2 = \<lparr>lane_active = (\<lambda>l. False), iterator = (\<lambda>l. NULL_ITERATOR ctx1)(0 := 40),
          found_mask = (\<lambda>l. l = 0), prev_work_queue = wq, curr_slab_ptr = 0\<rparr>"
    by (auto simp add: st2_def st1_def st0_def fun_eq_iff)
  from L1 L2 Search_loop_done[OF s2, of ctx1 "\<lambda>l. 0" "\<lambda>l. 5" "[]" table_hole] S
  show ?thesis by (simp add: Search_def st0_def wq_def)
qed

lemma Insert_5_into_table_hole:
  "Insert ctx1 (\<lambda>l. l = 0) (\<lambda>l. 0) (\<lambda>l. 5) (\<lambda>l. 51) [] table_hole =
   Some (Inr (\<lparr>lane_active = (\<lambda>l. False), iterator = (\<lambda>l. NULL_ITERATOR ctx1)(0 := 0),
               found_mask = (\<lambda>l. l = 0),
               prev_work_queue = ballot_sync ACTIVE_LANES_MASK (\<lambda>l. l = 0),
               curr_slab_ptr = HEAD_SLAB_PTR ctx1\<rparr>, [],
              store (table_hole\<lparr>pair_heap := [41],
                                pair_data := (pair_data table_hole)(0 := (5, 51))\<rparr>)
                (list_head_unit 0 0) 0))"
proof -
  define wq where "wq = ballot_sync ACTIVE_LANES_MASK (\<lambda>l::nat. l = 0)"
  define pre :: "nat \<Rightarrow> ptr_t" where "pre = (\<lambda>_. EMPTY_PAIR_PTR)(0 := 0)"
  define d0 :: "(32 word, 32 word) device" where
    "d0 = table_hole\<lparr>pair_heap := [41], pair_data := (pair_data table_hole)(0 := (5, 51))\<rparr>"
  define st0 :: warp_vars where
    "st0 = \<lparr>lane_active = (\<lambda>l. l = 0), iterator = (\<lambda>_. NULL_ITERATOR ctx1),
            found_mask = (\<lambda>_. False), prev_work_queue = 0, curr_slab_ptr = HEAD_SLAB_PTR ctx1\<rparr>"
  have wz: "wq \<noteq> 0" by (simp add: wq_def lane_0_ballot)
  have "pair_heap table_hole = 0 # [41]" by (simp add: table_hole_heap)
  from prealloc_lanes_lane_0[OF this]
  have P: "prealloc_lanes [0..<32] (\<lambda>l. l = 0) (\<lambda>l. 5) (\<lambda>l. 51) (\<lambda>_. EMPTY_PAIR_PTR) table_hole
           = Inr (pre, d0)"
    by (simp add: pre_def d0_def)
  have I: "Insert ctx1 (\<lambda>l. l = 0) (\<lambda>l. 0) (\<lambda>l. 5) (\<lambda>l. 51) [] table_hole =
           Insert_loop ctx1 (\<lambda>l. 0) (\<lambda>l. 5) pre [] st0 d0"
    by (simp add: Insert_def P st0_def)
  have s0: "lowest_active (lane_active st0) = Some 0" by (simp add: st0_def lane_0_lowest)
  have c0: "HEAD_SLAB_PTR ctx1 =
      (if prev_work_queue st0 \<noteq> ballot_sync ACTIVE_LANES_MASK (lane_active st0)
       then HEAD_SLAB_PTR ctx1 else curr_slab_ptr st0)"
    by (simp add: st0_def)
  have hd: "bucket_list_head d0 0 j = bucket_list_head table_hole 0 j" for j
    by (simp add: d0_def)
  have m0: "lowest_match d0 5 (read_unit_data ctx1 d0 (HEAD_SLAB_PTR ctx1) 0) = None"
    by (rule head_no_match)
       (simp add: hd table_hole_head, simp add: d0_def table_hole_pairs word32_of_nat_pair
          word32_of_nat_lane)
  have e0: "lowest_empty (read_unit_data ctx1 d0 (HEAD_SLAB_PTR ctx1) 0) = Some 0"
    by (rule lowest_empty_eqI) (simp_all add: table_full_head hd table_hole_head)
  define st1 where "st1 = st0\<lparr>lane_active := (lane_active st0)(0 := False),
               iterator := (iterator st0)(0 := pre 0),
               found_mask := (found_mask st0)(0 := True),
               prev_work_queue := wq, curr_slab_ptr := HEAD_SLAB_PTR ctx1\<rparr>"
  have L1: "Insert_loop ctx1 (\<lambda>l. 0) (\<lambda>l. 5) pre [] st0 d0 =
            Insert_loop ctx1 (\<lambda>l. 0) (\<lambda>l. 5) pre [] st1 (store d0 (list_head_unit 0 0) 0)"
    using Insert_loop_empty_slot_alone[where key="\<lambda>l. 5" and bucket_id="\<lambda>l. 0", OF s0 c0 m0 e0, of pre]
    by (simp add: st1_def wq_def st0_def ctx1_unit_ptrs pre_def del: store.simps)
  have s1: "lowest_active (lane_active st1) = None"
    by (simp add: lowest_active_None st1_def st0_def)
  have S: "st1 = \<lparr>lane_active = (\<lambda>l. False), iterator = (\<lambda>l. NULL_ITERATOR ctx1)(0 := 0),
               found_mask = (\<lambda>l. l = 0), prev_work_queue = wq,
               curr_slab_ptr = HEAD_SLAB_PTR ctx1\<rparr>"
    by (auto simp add: st1_def st0_def pre_def fun_eq_iff)
  from I L1 Insert_loop_done[OF s1, of ctx1 "\<lambda>l. 0" "\<lambda>l. 5" pre "[]" "store d0 (list_head_unit 0 0) 0"] S
  show ?thesis by (simp add: wq_def d0_def del: store.simps)
qed

lemma Search_5_after_second_Insert:
  "Search ctx1 (\<lambda>l. l = 0) (\<lambda>l. 0) (\<lambda>l. 5) []
     (store (table_hole\<lparr>pair_heap := [41], pair_data := (pair_data table_hole)(0 := (5, 51))\<rparr>)
        (list_head_unit 0 0) 0) =
   Some (\<lparr>lane_active = (\<lambda>l. False), iterator = (\<lambda>l. NULL_ITERATOR ctx1)(0 := 0),
          found_mask = (\<lambda>l. l = 0),
          prev_work_queue = ballot_sync ACTIVE_LANES_MASK (\<lambda>l. l = 0),
          curr_slab_ptr = HEAD_SLAB_PTR ctx1\<rparr>, [],
         store (table_hole\<lparr>pair_heap := [41], pair_data := (pair_data table_hole)(0 := (5, 51))\<rparr>)
           (list_head_unit 0 0) 0)"
proof -
  define dC :: "(32 word, 32 word) device" where
    "dC = store (table_hole\<lparr>pair_heap := [41], pair_data := (pair_data table_hole)(0 := (5, 51))\<rparr>)
            (list_head_unit 0 0) 0"
  define st0 :: warp_vars where
    "st0 = \<lparr>lane_active = (\<lambda>l. l = 0), iterator = (\<lambda>_. NULL_ITERATOR ctx1),
            found_mask = (\<lambda>_. False), prev_work_queue = 0, curr_slab_ptr = HEAD_SLAB_PTR ctx1\<rparr>"
  define wq where "wq = ballot_sync ACTIVE_LANES_MASK (\<lambda>l::nat. l = 0)"
  have wz: "wq \<noteq> 0" by (simp add: wq_def lane_0_ballot)
  have s0: "lowest_active (lane_active st0) = Some 0" by (simp add: st0_def lane_0_lowest)
  have c0: "HEAD_SLAB_PTR ctx1 =
      (if prev_work_queue st0 \<noteq> ballot_sync ACTIVE_LANES_MASK (lane_active st0)
       then HEAD_SLAB_PTR ctx1 else curr_slab_ptr st0)"
    by (simp add: st0_def)
  have h0: "bucket_list_head dC 0 0 = 0" by (simp add: dC_def)
  have p0: "pair_data dC 0 = (5, 51)" by (simp add: dC_def)
  have m0: "lowest_match dC 5 (read_unit_data ctx1 dC (HEAD_SLAB_PTR ctx1) 0) = Some 0"
    by (rule lowest_match_eqI)
       (simp_all add: slot_matches_def table_full_head h0 p0 EMPTY_PAIR_PTR_def)
  define st1 where "st1 = st0\<lparr>lane_active := (lane_active st0)(0 := False),
               iterator := (iterator st0)(0 := 0),
               found_mask := (found_mask st0)(0 := True),
               prev_work_queue := wq, curr_slab_ptr := HEAD_SLAB_PTR ctx1\<rparr>"
  have L1: "Search_loop ctx1 (\<lambda>l. 0) (\<lambda>l. 5) [] st0 dC = Search_loop ctx1 (\<lambda>l. 0) (\<lambda>l. 5) [] st1 dC"
    using Search_loop_found_alone[where key="\<lambda>l. 5" and bucket_id="\<lambda>l. 0", OF s0 c0 m0]
    by (simp add: st1_def wq_def st0_def table_full_head h0)
  have s1: "lowest_active (lane_active st1) = None"
    by (simp add: lowest_active_None st1_def st0_def)
  have S: "st1 = \<lparr>lane_active = (\<lambda>l. False), iterator = (\<lambda>l. NULL_ITERATOR ctx1)(0 := 0),
          found_mask = (\<lambda>l. l = 0), prev_work_queue = wq, curr_slab_ptr = HEAD_SLAB_PTR ctx1\<rparr>"
    by (auto simp add: st1_def st0_def fun_eq_iff)
  from L1 Search_loop_done[OF s1, of ctx1 "\<lambda>l. 0" "\<lambda>l. 5" "[]" dC] S
  have "Search ctx1 (\<lambda>l. l = 0) (\<lambda>l. 0) (\<lambda>l. 5) [] dC =
        Some (\<lparr>lane_active = (\<lambda>l. False), iterator = (\<lambda>l. NULL_ITERATOR ctx1)(0 := 0),
          found_mask = (\<lambda>l. l = 0), prev_work_queue = wq, curr_slab_ptr = HEAD_SLAB_PTR ctx1\<rparr>,
          [], dC)"
    by (simp add: Search_def st0_def)
  then show ?thesis unfolding dC_def wq_def .
qed

text \<open>
  C1. Insert looks for the key in the slab at hand only, and takes the first empty pair
  slot of that slab when the key is not in it, so a key that sits in a later slab of the
  chain is inserted a second time when an earlier slab has an empty pair slot. The run:
  on \<open>table_full\<close> (head slab of bucket 0 full) a warp inserts (5, 50), which goes to a new
  slab (\<open>table_full_5\<close>); a warp removes key 100, which empties pair slot 0 of the head
  slab (\<open>table_hole\<close>); Search then finds key 5 with value 50. Now a warp inserts (5, 51):
  the lane does not take the duplicate branch, its result is true, its record goes to
  pair slot 0 of the head slab and is not freed. The chain holds key 5 twice, and Search
  for 5 returns the record with value 51.
\<close>

theorem Insert_duplicates_key_behind_hole:
  "(\<exists>sA. Insert ctx1 (\<lambda>l. l = 0) (\<lambda>l. 0) (\<lambda>l. 5) (\<lambda>l. 50) [] table_full
            = Some (Inr (sA, [], table_full_5)) \<and> found_mask sA 0)
   \<and> (\<exists>sB. Remove ctx1 (\<lambda>l. l = 0) (\<lambda>l. 0) (\<lambda>l. 100) [] table_full_5
            = Some (sB, [], table_hole) \<and> found_mask sB 0)
   \<and> (\<exists>sS. Search ctx1 (\<lambda>l. l = 0) (\<lambda>l. 0) (\<lambda>l. 5) [] table_hole = Some (sS, [], table_hole)
            \<and> found_mask sS 0 \<and> pair_data table_hole (iterator sS 0) = (5, 50))
   \<and> deref table_hole (list_head_unit 0 0) = EMPTY_PAIR_PTR
   \<and> pair_heap table_hole = [0, 41]
   \<and> (\<exists>sC dC. Insert ctx1 (\<lambda>l. l = 0) (\<lambda>l. 0) (\<lambda>l. 5) (\<lambda>l. 51) [] table_hole
                 = Some (Inr (sC, [], dC))
          \<and> found_mask sC 0 \<and> iterator sC 0 = 0
          \<and> deref dC (list_head_unit 0 0) = 0 \<and> pair_data dC 0 = (5, 51)
          \<and> deref dC (list_node_unit 0 0) = 40 \<and> pair_data dC 40 = (5, 50)
          \<and> pair_heap dC = [41]
          \<and> (\<exists>sD. Search ctx1 (\<lambda>l. l = 0) (\<lambda>l. 0) (\<lambda>l. 5) [] dC = Some (sD, [], dC)
                 \<and> found_mask sD 0 \<and> pair_data dC (iterator sD 0) = (5, 51)))"
proof -
  let ?dC = "store (table_hole\<lparr>pair_heap := [41], pair_data := (pair_data table_hole)(0 := (5, 51))\<rparr>)
           (list_head_unit 0 0) 0"
  have a: "\<exists>sA. Insert ctx1 (\<lambda>l. l = 0) (\<lambda>l. 0) (\<lambda>l. 5) (\<lambda>l. 50) [] table_full
            = Some (Inr (sA, [], table_full_5)) \<and> found_mask sA 0"
    by (simp add: Insert_5_into_table_full)
  have b: "\<exists>sB. Remove ctx1 (\<lambda>l. l = 0) (\<lambda>l. 0) (\<lambda>l. 100) [] table_full_5
            = Some (sB, [], table_hole) \<and> found_mask sB 0"
    by (simp add: Remove_100_from_table_full_5)
  have c: "\<exists>sS. Search ctx1 (\<lambda>l. l = 0) (\<lambda>l. 0) (\<lambda>l. 5) [] table_hole = Some (sS, [], table_hole)
            \<and> found_mask sS 0 \<and> pair_data table_hole (iterator sS 0) = (5, 50)"
    by (simp add: Search_5_in_table_hole table_hole_pairs)
  have d: "deref table_hole (list_head_unit 0 0) = EMPTY_PAIR_PTR"
    by (simp add: table_hole_head)
  have e: "deref ?dC (list_head_unit 0 0) = 0" "pair_data ?dC 0 = (5, 51)"
    "deref ?dC (list_node_unit 0 0) = 40" "pair_data ?dC 40 = (5, 50)" "pair_heap ?dC = [41]"
    by (simp_all add: table_hole_slab_0 table_hole_pairs)
  have f: "\<exists>sD. Search ctx1 (\<lambda>l. l = 0) (\<lambda>l. 0) (\<lambda>l. 5) [] ?dC = Some (sD, [], ?dC)
                 \<and> found_mask sD 0 \<and> pair_data ?dC (iterator sD 0) = (5, 51)"
    by (simp add: Search_5_after_second_Insert del: store.simps)
  have g: "\<exists>sC dC. Insert ctx1 (\<lambda>l. l = 0) (\<lambda>l. 0) (\<lambda>l. 5) (\<lambda>l. 51) [] table_hole
                 = Some (Inr (sC, [], dC))
          \<and> found_mask sC 0 \<and> iterator sC 0 = 0
          \<and> deref dC (list_head_unit 0 0) = 0 \<and> pair_data dC 0 = (5, 51)
          \<and> deref dC (list_node_unit 0 0) = 40 \<and> pair_data dC 40 = (5, 50)
          \<and> pair_heap dC = [41]
          \<and> (\<exists>sD. Search ctx1 (\<lambda>l. l = 0) (\<lambda>l. 0) (\<lambda>l. 5) [] dC = Some (sD, [], dC)
                 \<and> found_mask sD 0 \<and> pair_data dC (iterator sD 0) = (5, 51))"
    using e f by (simp add: Insert_5_into_table_hole del: store.simps)
  from a b c d table_hole_heap g show ?thesis by (intro conjI)
qed

section \<open>Remove by a warp with several lanes\<close>

lemma table_1_head:
  "bucket_list_head table_1 0 j = (if j = 0 then 0 else 0xFFFFFFFF)"
  by (simp add: table_1_def table_empty_def)

lemma table_1_pairs: "pair_data table_1 p = (if p = 0 then (1, 10) else (0, 0))"
  by (simp add: table_1_def table_empty_def)

lemma Insert_1_into_table_empty:
  "Insert ctx1 (\<lambda>l. l = 0) (\<lambda>l. 0) (\<lambda>l. 1) (\<lambda>l. 10) [] table_empty =
   Some (Inr (\<lparr>lane_active = (\<lambda>l. False), iterator = (\<lambda>l. NULL_ITERATOR ctx1)(0 := 0),
               found_mask = (\<lambda>l. l = 0),
               prev_work_queue = ballot_sync ACTIVE_LANES_MASK (\<lambda>l. l = 0),
               curr_slab_ptr = HEAD_SLAB_PTR ctx1\<rparr>, [], table_1))"
proof -
  define wq where "wq = ballot_sync ACTIVE_LANES_MASK (\<lambda>l::nat. l = 0)"
  define pre :: "nat \<Rightarrow> ptr_t" where "pre = (\<lambda>_. EMPTY_PAIR_PTR)(0 := 0)"
  define d0 :: "(32 word, 32 word) device" where
    "d0 = table_empty\<lparr>pair_heap := [1, 2, 3], pair_data := (pair_data table_empty)(0 := (1, 10))\<rparr>"
  define st0 :: warp_vars where
    "st0 = \<lparr>lane_active = (\<lambda>l. l = 0), iterator = (\<lambda>_. NULL_ITERATOR ctx1),
            found_mask = (\<lambda>_. False), prev_work_queue = 0, curr_slab_ptr = HEAD_SLAB_PTR ctx1\<rparr>"
  have wz: "wq \<noteq> 0" by (simp add: wq_def lane_0_ballot)
  have "pair_heap table_empty = 0 # [1, 2, 3]" by (simp add: table_empty_def)
  from prealloc_lanes_lane_0[OF this]
  have P: "prealloc_lanes [0..<32] (\<lambda>l. l = 0) (\<lambda>l. 1) (\<lambda>l. 10) (\<lambda>_. EMPTY_PAIR_PTR) table_empty
           = Inr (pre, d0)"
    by (simp add: pre_def d0_def)
  have I: "Insert ctx1 (\<lambda>l. l = 0) (\<lambda>l. 0) (\<lambda>l. 1) (\<lambda>l. 10) [] table_empty =
           Insert_loop ctx1 (\<lambda>l. 0) (\<lambda>l. 1) pre [] st0 d0"
    by (simp add: Insert_def P st0_def)
  have s0: "lowest_active (lane_active st0) = Some 0" by (simp add: st0_def lane_0_lowest)
  have c0: "HEAD_SLAB_PTR ctx1 =
      (if prev_work_queue st0 \<noteq> ballot_sync ACTIVE_LANES_MASK (lane_active st0)
       then HEAD_SLAB_PTR ctx1 else curr_slab_ptr st0)"
    by (simp add: st0_def)
  have hd: "bucket_list_head d0 0 j = EMPTY_PAIR_PTR" for j
    by (simp add: d0_def table_empty_def EMPTY_PAIR_PTR_def)
  have m0: "lowest_match d0 1 (read_unit_data ctx1 d0 (HEAD_SLAB_PTR ctx1) 0) = None"
    by (rule head_no_match) (simp add: hd)
  have e0: "lowest_empty (read_unit_data ctx1 d0 (HEAD_SLAB_PTR ctx1) 0) = Some 0"
    by (rule lowest_empty_eqI) (simp_all add: table_full_head hd)
  define st1 where "st1 = st0\<lparr>lane_active := (lane_active st0)(0 := False),
               iterator := (iterator st0)(0 := pre 0),
               found_mask := (found_mask st0)(0 := True),
               prev_work_queue := wq, curr_slab_ptr := HEAD_SLAB_PTR ctx1\<rparr>"
  have L1: "Insert_loop ctx1 (\<lambda>l. 0) (\<lambda>l. 1) pre [] st0 d0 =
            Insert_loop ctx1 (\<lambda>l. 0) (\<lambda>l. 1) pre [] st1 (store d0 (list_head_unit 0 0) 0)"
    using Insert_loop_empty_slot_alone[where key="\<lambda>l. 1" and bucket_id="\<lambda>l. 0", OF s0 c0 m0 e0, of pre]
    by (simp add: st1_def wq_def st0_def ctx1_unit_ptrs pre_def del: store.simps)
  have s1: "lowest_active (lane_active st1) = None"
    by (simp add: lowest_active_None st1_def st0_def)
  have S: "st1 = \<lparr>lane_active = (\<lambda>l. False), iterator = (\<lambda>l. NULL_ITERATOR ctx1)(0 := 0),
               found_mask = (\<lambda>l. l = 0), prev_work_queue = wq,
               curr_slab_ptr = HEAD_SLAB_PTR ctx1\<rparr>"
    by (auto simp add: st1_def st0_def pre_def fun_eq_iff)
  have D: "store d0 (list_head_unit 0 0) 0 = table_1" by (simp add: d0_def table_1_def)
  from I L1 Insert_loop_done[OF s1, of ctx1 "\<lambda>l. 0" "\<lambda>l. 1" pre "[]" "store d0 (list_head_unit 0 0) 0"] S D
  show ?thesis by (simp add: wq_def del: store.simps)
qed

lemma lanes_0_1_lowest: "lowest_active (\<lambda>l. l < 2) = Some 0"
  by (rule lowest_active_eqI) simp_all

lemma Remove_4_1_from_table_1:
  "Remove ctx1 (\<lambda>l. l < 2) (\<lambda>l. 0) (\<lambda>l. if l = 0 then 4 else 1) [] table_1 =
   Some (\<lparr>lane_active = (\<lambda>l. False), iterator = (\<lambda>l. NULL_ITERATOR ctx1),
          found_mask = (\<lambda>l. False),
          prev_work_queue = ballot_sync ACTIVE_LANES_MASK (\<lambda>l. l < 2),
          curr_slab_ptr = HEAD_SLAB_PTR ctx1\<rparr>, [], table_1)"
proof -
  define st0 :: warp_vars where
    "st0 = \<lparr>lane_active = (\<lambda>l. l < 2), iterator = (\<lambda>_. NULL_ITERATOR ctx1),
            found_mask = (\<lambda>_. False), prev_work_queue = 0, curr_slab_ptr = HEAD_SLAB_PTR ctx1\<rparr>"
  define wq where "wq = ballot_sync ACTIVE_LANES_MASK (\<lambda>l::nat. l < 2)"
  have s0: "lowest_active (lane_active st0) = Some 0" by (simp add: st0_def lanes_0_1_lowest)
  have wz: "wq \<noteq> 0" using lanes_0_1_lowest by (simp add: wq_def work_queue_eq_0_iff)
  have c0: "HEAD_SLAB_PTR ctx1 =
      (if prev_work_queue st0 \<noteq> ballot_sync ACTIVE_LANES_MASK (lane_active st0)
       then HEAD_SLAB_PTR ctx1 else curr_slab_ptr st0)"
    using wz by (simp add: st0_def wq_def)
  have m0: "lowest_match table_1 4 (read_unit_data ctx1 table_1 (HEAD_SLAB_PTR ctx1) 0) = None"
    by (rule head_no_match) (simp add: table_1_head table_1_pairs EMPTY_PAIR_PTR_def)
  have n0: "read_unit_data ctx1 table_1 (HEAD_SLAB_PTR ctx1) 0 31 = EMPTY_SLAB_PTR"
    by (simp add: table_full_head table_1_head EMPTY_SLAB_PTR_def)
  define st1 where "st1 = st0\<lparr>lane_active := (\<lambda>_. False), prev_work_queue := wq,
                             curr_slab_ptr := HEAD_SLAB_PTR ctx1\<rparr>"
  have L1: "Remove_loop ctx1 (\<lambda>l. 0) (\<lambda>l. if l = 0 then 4 else 1) [] st0 table_1 =
            Remove_loop ctx1 (\<lambda>l. 0) (\<lambda>l. if l = 0 then 4 else 1) [] st1 table_1"
    using Remove_loop_not_found_alone[where key="\<lambda>l. if l = 0 then 4 else 1" and bucket_id="\<lambda>l. 0"
        and d=table_1, OF s0 c0] m0 n0
    by (simp add: st1_def wq_def st0_def)
  have s1: "lowest_active (lane_active st1) = None"
    by (simp add: lowest_active_None st1_def)
  have S: "st1 = \<lparr>lane_active = (\<lambda>l. False), iterator = (\<lambda>l. NULL_ITERATOR ctx1),
          found_mask = (\<lambda>l. False), prev_work_queue = wq, curr_slab_ptr = HEAD_SLAB_PTR ctx1\<rparr>"
    by (simp add: st1_def st0_def)
  from L1 Remove_loop_done[OF s1, of ctx1 "\<lambda>l. 0" "\<lambda>l. if l = 0 then 4 else 1" "[]" table_1] S
  show ?thesis by (simp add: Remove_def st0_def wq_def)
qed

lemma Search_1_in_table_1:
  "Search ctx1 (\<lambda>l. l = 0) (\<lambda>l. 0) (\<lambda>l. 1) [] table_1 =
   Some (\<lparr>lane_active = (\<lambda>l. False), iterator = (\<lambda>l. NULL_ITERATOR ctx1)(0 := 0),
          found_mask = (\<lambda>l. l = 0),
          prev_work_queue = ballot_sync ACTIVE_LANES_MASK (\<lambda>l. l = 0),
          curr_slab_ptr = HEAD_SLAB_PTR ctx1\<rparr>, [], table_1)"
proof -
  define st0 :: warp_vars where
    "st0 = \<lparr>lane_active = (\<lambda>l. l = 0), iterator = (\<lambda>_. NULL_ITERATOR ctx1),
            found_mask = (\<lambda>_. False), prev_work_queue = 0, curr_slab_ptr = HEAD_SLAB_PTR ctx1\<rparr>"
  define wq where "wq = ballot_sync ACTIVE_LANES_MASK (\<lambda>l::nat. l = 0)"
  have wz: "wq \<noteq> 0" by (simp add: wq_def lane_0_ballot)
  have s0: "lowest_active (lane_active st0) = Some 0" by (simp add: st0_def lane_0_lowest)
  have c0: "HEAD_SLAB_PTR ctx1 =
      (if prev_work_queue st0 \<noteq> ballot_sync ACTIVE_LANES_MASK (lane_active st0)
       then HEAD_SLAB_PTR ctx1 else curr_slab_ptr st0)"
    by (simp add: st0_def)
  have m0: "lowest_match table_1 1 (read_unit_data ctx1 table_1 (HEAD_SLAB_PTR ctx1) 0) = Some 0"
    by (rule lowest_match_eqI)
       (simp_all add: slot_matches_def table_full_head table_1_head table_1_pairs EMPTY_PAIR_PTR_def)
  define st1 where "st1 = st0\<lparr>lane_active := (lane_active st0)(0 := False),
               iterator := (iterator st0)(0 := 0),
               found_mask := (found_mask st0)(0 := True),
               prev_work_queue := wq, curr_slab_ptr := HEAD_SLAB_PTR ctx1\<rparr>"
  have L1: "Search_loop ctx1 (\<lambda>l. 0) (\<lambda>l. 1) [] st0 table_1 =
            Search_loop ctx1 (\<lambda>l. 0) (\<lambda>l. 1) [] st1 table_1"
    using Search_loop_found_alone[where key="\<lambda>l. 1" and bucket_id="\<lambda>l. 0", OF s0 c0 m0]
    by (simp add: st1_def wq_def st0_def table_full_head table_1_head)
  have s1: "lowest_active (lane_active st1) = None"
    by (simp add: lowest_active_None st1_def st0_def)
  have S: "st1 = \<lparr>lane_active = (\<lambda>l. False), iterator = (\<lambda>l. NULL_ITERATOR ctx1)(0 := 0),
          found_mask = (\<lambda>l. l = 0), prev_work_queue = wq, curr_slab_ptr = HEAD_SLAB_PTR ctx1\<rparr>"
    by (auto simp add: st1_def st0_def fun_eq_iff)
  from L1 Search_loop_done[OF s1, of ctx1 "\<lambda>l. 0" "\<lambda>l. 1" "[]" table_1] S
  show ?thesis by (simp add: Search_def st0_def wq_def)
qed

lemma Remove_1_4_from_table_1:
  "Remove ctx1 (\<lambda>l. l < 2) (\<lambda>l. 0) (\<lambda>l. if l = 0 then 1 else 4) [] table_1 =
   Some (\<lparr>lane_active = (\<lambda>l. False), iterator = (\<lambda>l. NULL_ITERATOR ctx1),
          found_mask = (\<lambda>l. l = 0),
          prev_work_queue = ballot_sync ACTIVE_LANES_MASK ((\<lambda>l. l < 2)(0 := False)),
          curr_slab_ptr = HEAD_SLAB_PTR ctx1\<rparr>, [],
         Free 0 (store table_1 (list_head_unit 0 0) EMPTY_PAIR_PTR))"
proof -
  define key :: "nat \<Rightarrow> 32 word" where "key = (\<lambda>l. if l = 0 then 1 else 4)"
  define st0 :: warp_vars where
    "st0 = \<lparr>lane_active = (\<lambda>l. l < 2), iterator = (\<lambda>_. NULL_ITERATOR ctx1),
            found_mask = (\<lambda>_. False), prev_work_queue = 0, curr_slab_ptr = HEAD_SLAB_PTR ctx1\<rparr>"
  define wq where "wq = ballot_sync ACTIVE_LANES_MASK (\<lambda>l::nat. l < 2)"
  define wq' where "wq' = ballot_sync ACTIVE_LANES_MASK ((\<lambda>l::nat. l < 2)(0 := False))"
  define d1 where "d1 = Free 0 (store table_1 (list_head_unit 0 0) EMPTY_PAIR_PTR)"
  have k: "key 0 = 1" "key 1 = 4" by (simp_all add: key_def)
  have s0: "lowest_active (lane_active st0) = Some 0" by (simp add: st0_def lanes_0_1_lowest)
  have wz: "wq \<noteq> 0" using lanes_0_1_lowest by (simp add: wq_def work_queue_eq_0_iff)
  have c0: "HEAD_SLAB_PTR ctx1 =
      (if prev_work_queue st0 \<noteq> ballot_sync ACTIVE_LANES_MASK (lane_active st0)
       then HEAD_SLAB_PTR ctx1 else curr_slab_ptr st0)"
    using wz by (simp add: st0_def wq_def)
  have m0: "lowest_match table_1 (key 0) (read_unit_data ctx1 table_1 (HEAD_SLAB_PTR ctx1) 0) = Some 0"
    unfolding k
    by (rule lowest_match_eqI)
       (simp_all add: slot_matches_def table_full_head table_1_head table_1_pairs EMPTY_PAIR_PTR_def)
  define st1 where "st1 = st0\<lparr>lane_active := (lane_active st0)(0 := False),
               found_mask := (found_mask st0)(0 := True),
               prev_work_queue := wq, curr_slab_ptr := HEAD_SLAB_PTR ctx1\<rparr>"
  have L1: "Remove_loop ctx1 (\<lambda>l. 0) key [] st0 table_1 = Remove_loop ctx1 (\<lambda>l. 0) key [] st1 d1"
    using Remove_loop_found_alone[where key=key and bucket_id="\<lambda>l. 0", OF s0 c0 m0]
    by (simp add: st1_def wq_def st0_def ctx1_unit_ptrs table_full_head table_1_head d1_def
        del: store.simps)
  have s1: "lowest_active (lane_active st1) = Some 1"
    by (rule lowest_active_eqI) (simp_all add: st1_def st0_def)
  have c1: "HEAD_SLAB_PTR ctx1 =
      (if prev_work_queue st1 \<noteq> ballot_sync ACTIVE_LANES_MASK (lane_active st1)
       then HEAD_SLAB_PTR ctx1 else curr_slab_ptr st1)"
    by (simp add: st1_def st0_def)
  have hd: "bucket_list_head d1 0 j = EMPTY_PAIR_PTR" for j
    by (simp add: d1_def Free_def table_1_head EMPTY_PAIR_PTR_def)
  have m1: "lowest_match d1 (key 1) (read_unit_data ctx1 d1 (HEAD_SLAB_PTR ctx1) 0) = None"
    by (rule head_no_match) (simp add: hd)
  have n1: "read_unit_data ctx1 d1 (HEAD_SLAB_PTR ctx1) 0 31 = EMPTY_SLAB_PTR"
    by (simp add: table_full_head hd EMPTY_SLAB_PTR_def EMPTY_PAIR_PTR_def)
  define st2 where "st2 = st1\<lparr>lane_active := (\<lambda>_. False), prev_work_queue := wq',
                             curr_slab_ptr := HEAD_SLAB_PTR ctx1\<rparr>"
  have L2: "Remove_loop ctx1 (\<lambda>l. 0) key [] st1 d1 = Remove_loop ctx1 (\<lambda>l. 0) key [] st2 d1"
    using Remove_loop_not_found_alone[where key=key and bucket_id="\<lambda>l. 0" and d=d1, OF s1 c1] m1 n1
    by (simp add: st2_def wq'_def st1_def st0_def)
  have s2: "lowest_active (lane_active st2) = None"
    by (simp add: lowest_active_None st2_def)
  have S: "st2 = \<lparr>lane_active = (\<lambda>l. False), iterator = (\<lambda>l. NULL_ITERATOR ctx1),
          found_mask = (\<lambda>l. l = 0), prev_work_queue = wq', curr_slab_ptr = HEAD_SLAB_PTR ctx1\<rparr>"
    by (auto simp add: st2_def st1_def st0_def fun_eq_iff)
  from L1 L2 Remove_loop_done[OF s2, of ctx1 "\<lambda>l. 0" key "[]" d1] S
  show ?thesis by (simp add: Remove_def st0_def wq'_def key_def d1_def del: store.simps)
qed

lemma Search_1_after_Remove:
  "Search ctx1 (\<lambda>l. l = 0) (\<lambda>l. 0) (\<lambda>l. 1) []
     (Free 0 (store table_1 (list_head_unit 0 0) EMPTY_PAIR_PTR)) =
   Some (\<lparr>lane_active = (\<lambda>l. False), iterator = (\<lambda>l. NULL_ITERATOR ctx1),
          found_mask = (\<lambda>l. False),
          prev_work_queue = ballot_sync ACTIVE_LANES_MASK (\<lambda>l. l = 0),
          curr_slab_ptr = HEAD_SLAB_PTR ctx1\<rparr>, [],
         Free 0 (store table_1 (list_head_unit 0 0) EMPTY_PAIR_PTR))"
proof -
  define d1 where "d1 = Free 0 (store table_1 (list_head_unit 0 0) EMPTY_PAIR_PTR)"
  define st0 :: warp_vars where
    "st0 = \<lparr>lane_active = (\<lambda>l. l = 0), iterator = (\<lambda>_. NULL_ITERATOR ctx1),
            found_mask = (\<lambda>_. False), prev_work_queue = 0, curr_slab_ptr = HEAD_SLAB_PTR ctx1\<rparr>"
  define wq where "wq = ballot_sync ACTIVE_LANES_MASK (\<lambda>l::nat. l = 0)"
  have wz: "wq \<noteq> 0" by (simp add: wq_def lane_0_ballot)
  have s0: "lowest_active (lane_active st0) = Some 0" by (simp add: st0_def lane_0_lowest)
  have c0: "HEAD_SLAB_PTR ctx1 =
      (if prev_work_queue st0 \<noteq> ballot_sync ACTIVE_LANES_MASK (lane_active st0)
       then HEAD_SLAB_PTR ctx1 else curr_slab_ptr st0)"
    by (simp add: st0_def)
  have hd: "bucket_list_head d1 0 j = EMPTY_PAIR_PTR" for j
    by (simp add: d1_def Free_def table_1_head EMPTY_PAIR_PTR_def)
  have m0: "lowest_match d1 1 (read_unit_data ctx1 d1 (HEAD_SLAB_PTR ctx1) 0) = None"
    by (rule head_no_match) (simp add: hd)
  have n0: "read_unit_data ctx1 d1 (HEAD_SLAB_PTR ctx1) 0 31 = EMPTY_SLAB_PTR"
    by (simp add: table_full_head hd EMPTY_SLAB_PTR_def EMPTY_PAIR_PTR_def)
  define st1 where "st1 = st0\<lparr>lane_active := (lane_active st0)(0 := False),
               prev_work_queue := wq, curr_slab_ptr := HEAD_SLAB_PTR ctx1\<rparr>"
  have L1: "Search_loop ctx1 (\<lambda>l. 0) (\<lambda>l. 1) [] st0 d1 = Search_loop ctx1 (\<lambda>l. 0) (\<lambda>l. 1) [] st1 d1"
    using Search_loop_not_found_alone[where key="\<lambda>l. 1" and bucket_id="\<lambda>l. 0" and d=d1, OF s0 c0] m0 n0
    by (simp add: st1_def wq_def st0_def)
  have s1: "lowest_active (lane_active st1) = None"
    by (simp add: lowest_active_None st1_def st0_def)
  have S: "st1 = \<lparr>lane_active = (\<lambda>l. False), iterator = (\<lambda>l. NULL_ITERATOR ctx1),
          found_mask = (\<lambda>l. False), prev_work_queue = wq, curr_slab_ptr = HEAD_SLAB_PTR ctx1\<rparr>"
    by (auto simp add: st1_def st0_def fun_eq_iff)
  from L1 Search_loop_done[OF s1, of ctx1 "\<lambda>l. 0" "\<lambda>l. 1" "[]" d1] S
  have "Search ctx1 (\<lambda>l. l = 0) (\<lambda>l. 0) (\<lambda>l. 1) [] d1 =
        Some (\<lparr>lane_active = (\<lambda>l. False), iterator = (\<lambda>l. NULL_ITERATOR ctx1),
          found_mask = (\<lambda>l. False), prev_work_queue = wq, curr_slab_ptr = HEAD_SLAB_PTR ctx1\<rparr>,
          [], d1)"
    by (simp add: Search_def st0_def)
  then show ?thesis unfolding d1_def wq_def .
qed

lemma Remove_5_after_second_Insert:
  "Remove ctx1 (\<lambda>l. l = 0) (\<lambda>l. 0) (\<lambda>l. 5) []
     (store (table_hole\<lparr>pair_heap := [41], pair_data := (pair_data table_hole)(0 := (5, 51))\<rparr>)
        (list_head_unit 0 0) 0) =
   Some (\<lparr>lane_active = (\<lambda>l. False), iterator = (\<lambda>l. NULL_ITERATOR ctx1),
          found_mask = (\<lambda>l. l = 0),
          prev_work_queue = ballot_sync ACTIVE_LANES_MASK (\<lambda>l. l = 0),
          curr_slab_ptr = HEAD_SLAB_PTR ctx1\<rparr>, [],
         Free 0 (store (store (table_hole\<lparr>pair_heap := [41],
                                 pair_data := (pair_data table_hole)(0 := (5, 51))\<rparr>)
                          (list_head_unit 0 0) 0)
                   (list_head_unit 0 0) EMPTY_PAIR_PTR))"
proof -
  define dC :: "(32 word, 32 word) device" where
    "dC = store (table_hole\<lparr>pair_heap := [41], pair_data := (pair_data table_hole)(0 := (5, 51))\<rparr>)
            (list_head_unit 0 0) 0"
  define st0 :: warp_vars where
    "st0 = \<lparr>lane_active = (\<lambda>l. l = 0), iterator = (\<lambda>_. NULL_ITERATOR ctx1),
            found_mask = (\<lambda>_. False), prev_work_queue = 0, curr_slab_ptr = HEAD_SLAB_PTR ctx1\<rparr>"
  define wq where "wq = ballot_sync ACTIVE_LANES_MASK (\<lambda>l::nat. l = 0)"
  have wz: "wq \<noteq> 0" by (simp add: wq_def lane_0_ballot)
  have s0: "lowest_active (lane_active st0) = Some 0" by (simp add: st0_def lane_0_lowest)
  have c0: "HEAD_SLAB_PTR ctx1 =
      (if prev_work_queue st0 \<noteq> ballot_sync ACTIVE_LANES_MASK (lane_active st0)
       then HEAD_SLAB_PTR ctx1 else curr_slab_ptr st0)"
    by (simp add: st0_def)
  have h0: "bucket_list_head dC 0 0 = 0" by (simp add: dC_def)
  have p0: "pair_data dC 0 = (5, 51)" by (simp add: dC_def)
  have m0: "lowest_match dC 5 (read_unit_data ctx1 dC (HEAD_SLAB_PTR ctx1) 0) = Some 0"
    by (rule lowest_match_eqI)
       (simp_all add: slot_matches_def table_full_head h0 p0 EMPTY_PAIR_PTR_def)
  define st1 where "st1 = st0\<lparr>lane_active := (lane_active st0)(0 := False),
               found_mask := (found_mask st0)(0 := True),
               prev_work_queue := wq, curr_slab_ptr := HEAD_SLAB_PTR ctx1\<rparr>"
  define dD where "dD = Free 0 (store dC (list_head_unit 0 0) EMPTY_PAIR_PTR)"
  have L1: "Remove_loop ctx1 (\<lambda>l. 0) (\<lambda>l. 5) [] st0 dC = Remove_loop ctx1 (\<lambda>l. 0) (\<lambda>l. 5) [] st1 dD"
    using Remove_loop_found_alone[where key="\<lambda>l. 5" and bucket_id="\<lambda>l. 0", OF s0 c0 m0]
    by (simp add: st1_def wq_def st0_def ctx1_unit_ptrs table_full_head h0 dD_def del: store.simps)
  have s1: "lowest_active (lane_active st1) = None"
    by (simp add: lowest_active_None st1_def st0_def)
  have S: "st1 = \<lparr>lane_active = (\<lambda>l. False), iterator = (\<lambda>l. NULL_ITERATOR ctx1),
          found_mask = (\<lambda>l. l = 0), prev_work_queue = wq, curr_slab_ptr = HEAD_SLAB_PTR ctx1\<rparr>"
    by (auto simp add: st1_def st0_def fun_eq_iff)
  from L1 Remove_loop_done[OF s1, of ctx1 "\<lambda>l. 0" "\<lambda>l. 5" "[]" dD] S
  have "Remove ctx1 (\<lambda>l. l = 0) (\<lambda>l. 0) (\<lambda>l. 5) [] dC =
        Some (\<lparr>lane_active = (\<lambda>l. False), iterator = (\<lambda>l. NULL_ITERATOR ctx1),
          found_mask = (\<lambda>l. l = 0), prev_work_queue = wq, curr_slab_ptr = HEAD_SLAB_PTR ctx1\<rparr>,
          [], dD)"
    by (simp add: Remove_def st0_def)
  then show ?thesis unfolding dD_def dC_def wq_def .
qed

lemma Search_5_after_Remove:
  "Search ctx1 (\<lambda>l. l = 0) (\<lambda>l. 0) (\<lambda>l. 5) []
     (Free 0 (store (store (table_hole\<lparr>pair_heap := [41],
                              pair_data := (pair_data table_hole)(0 := (5, 51))\<rparr>)
                       (list_head_unit 0 0) 0)
                (list_head_unit 0 0) EMPTY_PAIR_PTR)) =
   Some (\<lparr>lane_active = (\<lambda>l. False), iterator = (\<lambda>l. NULL_ITERATOR ctx1)(0 := 40),
          found_mask = (\<lambda>l. l = 0),
          prev_work_queue = ballot_sync ACTIVE_LANES_MASK (\<lambda>l. l = 0),
          curr_slab_ptr = 0\<rparr>, [],
         Free 0 (store (store (table_hole\<lparr>pair_heap := [41],
                                 pair_data := (pair_data table_hole)(0 := (5, 51))\<rparr>)
                          (list_head_unit 0 0) 0)
                   (list_head_unit 0 0) EMPTY_PAIR_PTR))"
proof -
  define dD :: "(32 word, 32 word) device" where
    "dD = Free 0 (store (store (table_hole\<lparr>pair_heap := [41],
                              pair_data := (pair_data table_hole)(0 := (5, 51))\<rparr>)
                       (list_head_unit 0 0) 0)
                (list_head_unit 0 0) EMPTY_PAIR_PTR)"
  define st0 :: warp_vars where
    "st0 = \<lparr>lane_active = (\<lambda>l. l = 0), iterator = (\<lambda>_. NULL_ITERATOR ctx1),
            found_mask = (\<lambda>_. False), prev_work_queue = 0, curr_slab_ptr = HEAD_SLAB_PTR ctx1\<rparr>"
  define wq where "wq = ballot_sync ACTIVE_LANES_MASK (\<lambda>l::nat. l = 0)"
  have wz: "wq \<noteq> 0" by (simp add: wq_def lane_0_ballot)
  have s0: "lowest_active (lane_active st0) = Some 0" by (simp add: st0_def lane_0_lowest)
  have c0: "HEAD_SLAB_PTR ctx1 =
      (if prev_work_queue st0 \<noteq> ballot_sync ACTIVE_LANES_MASK (lane_active st0)
       then HEAD_SLAB_PTR ctx1 else curr_slab_ptr st0)"
    by (simp add: st0_def)
  have hd: "bucket_list_head dD 0 j = bucket_list_head table_hole 0 j" for j
    by (simp add: dD_def Free_def table_hole_head)
  have pd: "pair_data dD p = (if p = 0 then (5, 51) else pair_data table_hole p)" for p
    by (simp add: dD_def Free_def)
  have su: "slab_units dD = slab_units table_hole" by (simp add: dD_def Free_def)
  have m0: "lowest_match dD 5 (read_unit_data ctx1 dD (HEAD_SLAB_PTR ctx1) 0) = None"
    by (rule head_no_match)
       (simp add: hd table_hole_head, simp add: pd table_hole_pairs word32_of_nat_pair
          word32_of_nat_lane)
  have n0: "read_unit_data ctx1 dD (HEAD_SLAB_PTR ctx1) 0 31 = 0"
    by (simp add: table_full_head hd table_hole_head)
  define st1 where "st1 = st0\<lparr>prev_work_queue := wq, curr_slab_ptr := 0\<rparr>"
  have L1: "Search_loop ctx1 (\<lambda>l. 0) (\<lambda>l. 5) [] st0 dD = Search_loop ctx1 (\<lambda>l. 0) (\<lambda>l. 5) [] st1 dD"
    using Search_loop_not_found_alone[where key="\<lambda>l. 5" and bucket_id="\<lambda>l. 0" and d=dD, OF s0 c0] m0
    by (simp add: st1_def wq_def st0_def n0 EMPTY_SLAB_PTR_def)
  have s1: "lowest_active (lane_active st1) = Some 0" by (simp add: st1_def st0_def lane_0_lowest)
  have c1: "0 = (if prev_work_queue st1 \<noteq> ballot_sync ACTIVE_LANES_MASK (lane_active st1)
       then HEAD_SLAB_PTR ctx1 else curr_slab_ptr st1)"
    by (simp add: st1_def st0_def wq_def)
  have m1: "lowest_match dD 5 (read_unit_data ctx1 dD 0 0) = Some 0"
    by (rule lowest_match_eqI)
       (simp_all add: slot_matches_def slab_0_units su table_hole_slab_0 pd table_hole_pairs
          EMPTY_PAIR_PTR_def)
  define st2 where "st2 = st1\<lparr>lane_active := (lane_active st1)(0 := False),
               iterator := (iterator st1)(0 := 40),
               found_mask := (found_mask st1)(0 := True),
               prev_work_queue := wq, curr_slab_ptr := 0\<rparr>"
  have L2: "Search_loop ctx1 (\<lambda>l. 0) (\<lambda>l. 5) [] st1 dD = Search_loop ctx1 (\<lambda>l. 0) (\<lambda>l. 5) [] st2 dD"
    using Search_loop_found_alone[where key="\<lambda>l. 5" and bucket_id="\<lambda>l. 0", OF s1 c1 m1]
    by (simp add: st2_def wq_def st1_def st0_def slab_0_units su table_hole_slab_0)
  have s2: "lowest_active (lane_active st2) = None"
    by (simp add: lowest_active_None st2_def st1_def st0_def)
  have S: "st2 = \<lparr>lane_active = (\<lambda>l. False), iterator = (\<lambda>l. NULL_ITERATOR ctx1)(0 := 40),
          found_mask = (\<lambda>l. l = 0), prev_work_queue = wq, curr_slab_ptr = 0\<rparr>"
    by (auto simp add: st2_def st1_def st0_def fun_eq_iff)
  from L1 L2 Search_loop_done[OF s2, of ctx1 "\<lambda>l. 0" "\<lambda>l. 5" "[]" dD] S
  have "Search ctx1 (\<lambda>l. l = 0) (\<lambda>l. 0) (\<lambda>l. 5) [] dD =
        Some (\<lparr>lane_active = (\<lambda>l. False), iterator = (\<lambda>l. NULL_ITERATOR ctx1)(0 := 40),
          found_mask = (\<lambda>l. l = 0), prev_work_queue = wq, curr_slab_ptr = 0\<rparr>, [], dD)"
    by (simp add: Search_def st0_def)
  then show ?thesis unfolding dD_def wq_def .
qed

text \<open>
  C6. Insert, Remove, Search in a row. When the serviced lane of Remove reaches the end of
  its chain without a match, \<^verbatim>\<open>to_be_deleted = false\<close> is executed by every lane of the warp
  (Search has \<^verbatim>\<open>if (lane_id == src_lane)\<close> at this place), so the lanes behind it are
  retired with their keys untouched. The run: a warp inserts (1, 10) into \<open>table_empty\<close>;
  a warp removes the keys 4 and 1 with lanes 0 and 1: lane 0 finds nothing, lane 1 ends
  inactive with result false and the table is as before; Search then finds key 1 with
  value 10. With the two keys in the other order the same call removes key 1 and Search
  does not find it. The last part is the run on \<open>table_hole\<close>: Insert puts (5, 51) before
  the entry (5, 50) of the chain, Remove takes the first of the two away, and Search still
  finds key 5.
\<close>

theorem Remove_not_found_retires_every_lane:
  "(\<exists>sI. Insert ctx1 (\<lambda>l. l = 0) (\<lambda>l. 0) (\<lambda>l. 1) (\<lambda>l. 10) [] table_empty
            = Some (Inr (sI, [], table_1)) \<and> found_mask sI 0)
   \<and> (\<exists>sR. Remove ctx1 (\<lambda>l. l < 2) (\<lambda>l. 0) (\<lambda>l. if l = 0 then 4 else 1) [] table_1
            = Some (sR, [], table_1) \<and> \<not> lane_active sR 1 \<and> \<not> found_mask sR 1)
   \<and> (\<exists>sS. Search ctx1 (\<lambda>l. l = 0) (\<lambda>l. 0) (\<lambda>l. 1) [] table_1 = Some (sS, [], table_1)
            \<and> found_mask sS 0 \<and> pair_data table_1 (iterator sS 0) = (1, 10))
   \<and> (\<exists>sR dR. Remove ctx1 (\<lambda>l. l < 2) (\<lambda>l. 0) (\<lambda>l. if l = 0 then 1 else 4) [] table_1
            = Some (sR, [], dR) \<and> found_mask sR 0 \<and> \<not> found_mask sR 1
          \<and> (\<exists>sS. Search ctx1 (\<lambda>l. l = 0) (\<lambda>l. 0) (\<lambda>l. 1) [] dR = Some (sS, [], dR)
                 \<and> \<not> found_mask sS 0))
   \<and> (\<exists>sC dC sR dR sS.
          Insert ctx1 (\<lambda>l. l = 0) (\<lambda>l. 0) (\<lambda>l. 5) (\<lambda>l. 51) [] table_hole = Some (Inr (sC, [], dC))
          \<and> found_mask sC 0
          \<and> Remove ctx1 (\<lambda>l. l = 0) (\<lambda>l. 0) (\<lambda>l. 5) [] dC = Some (sR, [], dR) \<and> found_mask sR 0
          \<and> Search ctx1 (\<lambda>l. l = 0) (\<lambda>l. 0) (\<lambda>l. 5) [] dR = Some (sS, [], dR)
          \<and> found_mask sS 0 \<and> pair_data dR (iterator sS 0) = (5, 50))"
proof -
  have a: "\<exists>sI. Insert ctx1 (\<lambda>l. l = 0) (\<lambda>l. 0) (\<lambda>l. 1) (\<lambda>l. 10) [] table_empty
            = Some (Inr (sI, [], table_1)) \<and> found_mask sI 0"
    by (simp add: Insert_1_into_table_empty)
  have b: "\<exists>sR. Remove ctx1 (\<lambda>l. l < 2) (\<lambda>l. 0) (\<lambda>l. if l = 0 then 4 else 1) [] table_1
            = Some (sR, [], table_1) \<and> \<not> lane_active sR 1 \<and> \<not> found_mask sR 1"
    by (simp add: Remove_4_1_from_table_1)
  have c: "\<exists>sS. Search ctx1 (\<lambda>l. l = 0) (\<lambda>l. 0) (\<lambda>l. 1) [] table_1 = Some (sS, [], table_1)
            \<and> found_mask sS 0 \<and> pair_data table_1 (iterator sS 0) = (1, 10)"
    by (simp add: Search_1_in_table_1 table_1_pairs)
  have d: "\<exists>sR dR. Remove ctx1 (\<lambda>l. l < 2) (\<lambda>l. 0) (\<lambda>l. if l = 0 then 1 else 4) [] table_1
            = Some (sR, [], dR) \<and> found_mask sR 0 \<and> \<not> found_mask sR 1
          \<and> (\<exists>sS. Search ctx1 (\<lambda>l. l = 0) (\<lambda>l. 0) (\<lambda>l. 1) [] dR = Some (sS, [], dR)
                 \<and> \<not> found_mask sS 0)"
    by (simp add: Remove_1_4_from_table_1 Search_1_after_Remove del: store.simps)
  have e: "\<exists>sC dC sR dR sS.
          Insert ctx1 (\<lambda>l. l = 0) (\<lambda>l. 0) (\<lambda>l. 5) (\<lambda>l. 51) [] table_hole = Some (Inr (sC, [], dC))
          \<and> found_mask sC 0
          \<and> Remove ctx1 (\<lambda>l. l = 0) (\<lambda>l. 0) (\<lambda>l. 5) [] dC = Some (sR, [], dR) \<and> found_mask sR 0
          \<and> Search ctx1 (\<lambda>l. l = 0) (\<lambda>l. 0) (\<lambda>l. 5) [] dR = Some (sS, [], dR)
          \<and> found_mask sS 0 \<and> pair_data dR (iterator sS 0) = (5, 50)"
    by (simp add: Insert_5_into_table_hole Remove_5_after_second_Insert Search_5_after_Remove
        del: store.simps) (simp add: Free_def table_hole_pairs)
  from a b c d e show ?thesis by (intro conjI)
qed

section \<open>The load factor\<close>

lemma popc_ballot_pairs:
  "popc (ballot_sync PAIR_PTR_LANES_MASK p) = length (filter p [0..<31])"
proof -
  have "filter (bit (ballot_sync PAIR_PTR_LANES_MASK p)) [0..<32] = filter p [0..<31]"
  proof -
    have "[0..<32] = [0..<31] @ [31]" by (simp add: upt_rec)
    then have "filter (bit (ballot_sync PAIR_PTR_LANES_MASK p)) [0..<32] =
        filter (bit (ballot_sync PAIR_PTR_LANES_MASK p)) [0..<31]"
      by (simp add: bit_ballot_sync bit_PAIR_PTR_LANES_MASK)
    also have "\<dots> = filter p [0..<31]"
      by (rule filter_cong) (auto simp add: bit_ballot_sync bit_PAIR_PTR_LANES_MASK)
    finally show ?thesis .
  qed
  then show ?thesis by (simp add: popc_def)
qed

lemma bucket_count_loop_chain:
  "is_chain d next ss \<Longrightarrow>
   bucket_count_loop d count next =
   Some (count + of_nat (sum_list (map (\<lambda>s. count_pairs (slab_units d s)) ss)))"
proof (induction ss arbitrary: count "next")
  case Nil
  then show ?case by (subst bucket_count_loop.simps) simp
next
  case (Cons s ss)
  from Cons.prems have n: "next = s" "s \<noteq> EMPTY_SLAB_PTR"
    and c: "is_chain d (slab_units d s 31) ss" by simp_all
  show ?case
    by (subst bucket_count_loop.simps)
       (simp add: n Let_def popc_ballot_pairs shfl_sync_def get_unit_ptr_from_list_nodes_def
          Cons.IH[OF c] count_pairs_def add.assoc)
qed

lemma bucket_count_kernel_chain:
  assumes "wid < n_buckets" and "is_chain d (bucket_list_head d wid 31) ss"
  shows "bucket_count_kernel d c n_buckets wid =
         Some (c(unat wid := of_nat (bucket_elements d wid ss)))"
proof -
  from assms(1) have "\<not> n_buckets \<le> wid" by (simp add: not_le)
  then show ?thesis
  by (simp add: bucket_count_kernel_def Let_def popc_ballot_pairs shfl_sync_def
      get_unit_ptr_from_list_head_def bucket_count_loop_chain[OF assms(2)]
      bucket_elements_def count_pairs_def)
qed

lemma unat_of_nat_32: "n < 2 ^ 32 \<Longrightarrow> unat (of_nat n :: 32 word) = n"
  by (simp add: unat_of_nat)

lemma launch_bucket_count:
  assumes "\<forall>b. b < unat n_buckets \<longrightarrow> is_chain d (bucket_list_head d (of_nat b) 31) (nodes b)"
    and "n \<le> 2 ^ 32"
  shows "fold (\<lambda>wid r. case r of None \<Rightarrow> None
                        | Some c \<Rightarrow> bucket_count_kernel d c n_buckets (of_nat wid))
           [0..<n] (Some c0) =
         Some (\<lambda>b. if b < min n (unat n_buckets)
                    then of_nat (bucket_elements d (of_nat b) (nodes b)) else c0 b)"
  using assms(2)
proof (induction n)
  case 0
  then show ?case by simp
next
  case (Suc n)
  then have n: "n < 2 ^ 32" and IH: "fold (\<lambda>wid r. case r of None \<Rightarrow> None
                        | Some c \<Rightarrow> bucket_count_kernel d c n_buckets (of_nat wid))
           [0..<n] (Some c0) =
         Some (\<lambda>b. if b < min n (unat n_buckets)
                    then of_nat (bucket_elements d (of_nat b) (nodes b)) else c0 b)"
    by simp_all
  have u: "unat (of_nat n :: 32 word) = n" using n by (rule unat_of_nat_32)
  show ?case
  proof (cases "n < unat n_buckets")
    case True
    then have lt: "(of_nat n :: 32 word) < n_buckets" by (simp add: word_less_nat_alt u)
    from assms(1) True have ch: "is_chain d (bucket_list_head d (of_nat n) 31) (nodes n)" by simp
    show ?thesis
      using True
      by (simp add: IH bucket_count_kernel_chain[OF lt ch] u fun_eq_iff min_def)
  next
    case False
    then have ge: "n_buckets \<le> (of_nat n :: 32 word)" by (simp add: word_le_nat_alt u)
    have k: "bucket_count_kernel d c n_buckets (of_nat n) = Some c" for c
      by (simp add: bucket_count_kernel_def ge)
    show ?thesis
      using False by (simp add: IH k fun_eq_iff min_def)
  qed
qed

lemma fold_total:
  assumes "\<forall>i. i < n \<longrightarrow> h i = (of_nat (e i) :: 32 word)"
  shows "fold (\<lambda>i t. t + h i) [0..<n] t0 = t0 + of_nat (sum_list (map e [0..<n]))"
  using assms by (induction n) (simp_all add: add.assoc)

lemma compute_stats_thread:
  assumes "tid < NUM_MEM_BLOCKS_PER_SUPER_BLOCK a * 32"
  shows "compute_stats_allocators a c tid =
         (\<lambda>i. if i < unat (num_super_blocks a) then c i + of_nat (popc (bitmap a i (unat tid)))
               else c i)"
proof -
  have f: "fold (\<lambda>i c. c(i := c i + x i)) [0..<n] c = (\<lambda>i. if i < n then c i + x i else c i)"
    for n and x :: "nat \<Rightarrow> 32 word" and c
    by (induction n) (auto simp add: fun_eq_iff)
  from assms have "\<not> NUM_MEM_BLOCKS_PER_SUPER_BLOCK a * 32 \<le> tid" by (simp add: not_le)
  then show ?thesis by (simp add: compute_stats_allocators_def Let_def f)
qed

lemma launch_compute_stats:
  assumes "n \<le> 2 ^ 32"
  shows "fold (\<lambda>tid c. compute_stats_allocators a c (of_nat tid)) [0..<n] c0 =
         (\<lambda>i. if i < unat (num_super_blocks a)
               then c0 i + of_nat (set_bits a (min n (unat (NUM_MEM_BLOCKS_PER_SUPER_BLOCK a * 32))) i)
               else c0 i)"
  using assms
proof (induction n)
  case 0
  then show ?case by (simp add: set_bits_def fun_eq_iff)
next
  case (Suc n)
  then have n: "n < 2 ^ 32" and IH: "fold (\<lambda>tid c. compute_stats_allocators a c (of_nat tid)) [0..<n] c0 =
         (\<lambda>i. if i < unat (num_super_blocks a)
               then c0 i + of_nat (set_bits a (min n (unat (NUM_MEM_BLOCKS_PER_SUPER_BLOCK a * 32))) i)
               else c0 i)"
    by simp_all
  have u: "unat (of_nat n :: 32 word) = n" using n by (rule unat_of_nat_32)
  show ?case
  proof (cases "n < unat (NUM_MEM_BLOCKS_PER_SUPER_BLOCK a * 32)")
    case True
    then have lt: "(of_nat n :: 32 word) < NUM_MEM_BLOCKS_PER_SUPER_BLOCK a * 32"
      by (simp add: word_less_nat_alt u)
    from True have m: "min (Suc n) (unat (NUM_MEM_BLOCKS_PER_SUPER_BLOCK a * 32)) = Suc n"
      "min n (unat (NUM_MEM_BLOCKS_PER_SUPER_BLOCK a * 32)) = n" by simp_all
    show ?thesis
      by (simp add: IH compute_stats_thread[OF lt] u m set_bits_def fun_eq_iff add.assoc)
  next
    case False
    then have ge: "NUM_MEM_BLOCKS_PER_SUPER_BLOCK a * 32 \<le> (of_nat n :: 32 word)"
      by (simp add: word_le_nat_alt u)
    from False have m: "min (Suc n) (unat (NUM_MEM_BLOCKS_PER_SUPER_BLOCK a * 32)) =
      min n (unat (NUM_MEM_BLOCKS_PER_SUPER_BLOCK a * 32))" by simp
    have k: "compute_stats_allocators a c (of_nat n) = c" for c
      by (simp add: compute_stats_allocators_def ge)
    show ?thesis
      by (simp only: upt_Suc_append[OF le0] fold_append comp_apply fold.simps id_apply IH k m)
  qed
qed

lemma grid_covers:
  fixes x :: "32 word"
  assumes "unat x + 127 < 2 ^ 32"
  shows "unat x \<le> unat ((x + 128 - 1) div 128) * 128" and "unat ((x + 128 - 1) div 128) * 128 \<le> 2 ^ 32"
proof -
  have a: "unat (x + 128 - 1) = unat x + 127"
  proof -
    have e: "x + 128 - 1 = x + 127" by simp
    have "unat x + unat (127 :: 32 word) < 2 ^ LENGTH(32)" using assms by simp
    then have "unat (x + 127) = unat x + unat (127 :: 32 word)" by (rule unat_add_lem[THEN iffD1])
    then show ?thesis by (simp only: e) simp
  qed
  have d: "unat ((x + 128 - 1) div 128) = (unat x + 127) div 128"
    by (simp only: unat_div a) simp
  show "unat x \<le> unat ((x + 128 - 1) div 128) * 128" unfolding d by arith
  show "unat ((x + 128 - 1) div 128) * 128 \<le> 2 ^ 32" unfolding d using assms by simp
qed

lemma scast_of_nat_32_64:
  assumes "n < 2 ^ 31"
  shows "(scast (of_nat n :: 32 word) :: 64 word) = of_nat n"
proof -
  have "signed_take_bit 31 (int n) = int n"
    using assms by (intro signed_take_bit_int_eq_self) simp_all
  then show ?thesis by (simp add: signed_of_nat)
qed

lemma ucast_of_nat_32_64:
  assumes "n < 2 ^ 32"
  shows "(ucast (of_nat n :: 32 word) :: 64 word) = of_nat n"
  using assms by (simp add: unsigned_of_nat take_bit_nat_eq_self)

lemma table_full_5_slab_0:
  "slab_units table_full_5 0 l = (if l = 0 then 40 else 0xFFFFFFFF)"
  by (simp add: table_full_5_def table_full_def)

lemma table_full_5_elements: "total_elements table_full_5 1 (\<lambda>b. [0]) = 32"
proof -
  have "filter (\<lambda>l. bucket_list_head table_full_5 0 l \<noteq> EMPTY_PAIR_PTR) [0..<31] = [0..<31]"
    by (rule filter_True) (simp add: table_full_5_head EMPTY_PAIR_PTR_def word32_of_nat_lane)
  then have h: "count_pairs (bucket_list_head table_full_5 0) = 31"
    by (simp add: count_pairs_def)
  have "[0..<31] = 0 # [1..<31]" by (simp add: upt_rec)
  moreover have "filter (\<lambda>l. slab_units table_full_5 0 l \<noteq> EMPTY_PAIR_PTR) [1..<31] = []"
    by (simp add: table_full_5_slab_0 EMPTY_PAIR_PTR_def)
  ultimately have s: "count_pairs (slab_units table_full_5 0) = 1"
    by (simp add: count_pairs_def table_full_5_slab_0 EMPTY_PAIR_PTR_def)
  show ?thesis by (simp add: total_elements_def bucket_elements_def h s)
qed

lemma alloc_one_slabs: "total_slabs alloc_one 1 = 2"
proof -
  have p1: "popc 1 = 1"
  proof -
    have "[0..<32] = 0 # [1..<32]" by (simp add: upt_rec)
    moreover have "filter (bit (1 :: 32 word)) [1..<32] = []" by (simp add: bit_1_iff)
    ultimately show ?thesis by (simp add: popc_def)
  qed
  have p0: "popc 0 = 0" by (simp add: popc_def)
  have "[0..<32] = 0 # [1..<32]" by (simp add: upt_rec)
  moreover have "map (\<lambda>tid. popc (bitmap alloc_one 0 tid)) [1..<32] = map (\<lambda>tid. 0) [1..<32]"
    by (rule map_cong) (simp_all add: alloc_one_def p0)
  ultimately have "set_bits alloc_one 32 0 = 1"
    by (simp add: set_bits_def alloc_one_def p1 sum_list_0 del: upt_Suc)
  then show ?thesis by (simp add: total_slabs_def alloc_one_def)
qed

lemma ComputeLoadFactor_words:
  assumes "unat n_buckets * 32 + 127 < 2 ^ 32"
    and "\<forall>b. b < unat n_buckets \<longrightarrow> is_chain d (bucket_list_head d (of_nat b) 31) (nodes b)"
    and "unat (NUM_MEM_BLOCKS_PER_SUPER_BLOCK a) * 32 + 127 < 2 ^ 32"
  shows "ComputeLoadFactor to_double fdiv sizeof_Key sizeof_Value n_buckets a d =
         Some (fdiv (to_double (scast (of_nat (total_elements d n_buckets nodes) :: 32 word)
                                  * of_nat (sizeof_Key + sizeof_Value)))
                    (to_double (ucast ((of_nat (total_slabs a n_buckets) :: 32 word)
                                         * of_nat WARP_WIDTH) * of_nat 4)))"
proof -
  define num_blocks where "num_blocks = (n_buckets * 32 + 128 - 1) div (128 :: 32 word)"
  define num_cuda_blocks where
    "num_cuda_blocks = (NUM_MEM_BLOCKS_PER_SUPER_BLOCK a * 32 + 128 - 1) div (128 :: 32 word)"
  \<comment> \<open>the grid of \<open>bucket_count_kernel\<close> has a warp for every bucket\<close>
  have "unat n_buckets * unat (32 :: 32 word) < 2 ^ LENGTH(32)" using assms(1) by simp
  then have "unat (n_buckets * 32) = unat n_buckets * unat (32 :: 32 word)"
    by (rule unat_mult_lem[THEN iffD1])
  then have nb32: "unat (n_buckets * 32) = unat n_buckets * 32" by simp
  from grid_covers[of "n_buckets * 32"] assms(1)
  have g1: "unat n_buckets * 32 \<le> unat num_blocks * 128" "unat num_blocks * 128 \<le> 2 ^ 32"
    by (simp_all add: nb32 num_blocks_def)
  then have g1': "unat num_blocks * 4 \<le> 2 ^ 32" "min (unat num_blocks * 4) (unat n_buckets) = unat n_buckets"
    by simp_all
  have B: "fold (\<lambda>wid r. case r of None \<Rightarrow> None
                        | Some c \<Rightarrow> bucket_count_kernel d c n_buckets (of_nat wid))
             [0..<unat num_blocks * 4] (Some (\<lambda>_. 0)) =
           Some (\<lambda>b. if b < unat n_buckets
                      then of_nat (bucket_elements d (of_nat b) (nodes b)) else 0)"
    by (simp only: launch_bucket_count[OF assms(2) g1'(1)] g1'(2))
  have E: "fold (\<lambda>i t. t + (if i < unat n_buckets
                      then of_nat (bucket_elements d (of_nat i) (nodes i)) else 0))
             [0..<unat n_buckets] (0 :: 32 word) = of_nat (total_elements d n_buckets nodes)"
    by (subst fold_total[where e="\<lambda>b. bucket_elements d (of_nat b) (nodes b)"])
       (simp_all add: total_elements_def)
  \<comment> \<open>the grid of \<open>compute_stats_allocators\<close> has a thread for every bitmap\<close>
  have "unat (NUM_MEM_BLOCKS_PER_SUPER_BLOCK a) * unat (32 :: 32 word) < 2 ^ LENGTH(32)"
    using assms(3) by simp
  then have "unat (NUM_MEM_BLOCKS_PER_SUPER_BLOCK a * 32) =
      unat (NUM_MEM_BLOCKS_PER_SUPER_BLOCK a) * unat (32 :: 32 word)"
    by (rule unat_mult_lem[THEN iffD1])
  then have nm32: "unat (NUM_MEM_BLOCKS_PER_SUPER_BLOCK a * 32) =
      unat (NUM_MEM_BLOCKS_PER_SUPER_BLOCK a) * 32" by simp
  from grid_covers[of "NUM_MEM_BLOCKS_PER_SUPER_BLOCK a * 32"] assms(3)
  have g2: "unat (NUM_MEM_BLOCKS_PER_SUPER_BLOCK a * 32) \<le> unat num_cuda_blocks * 128"
    "unat num_cuda_blocks * 128 \<le> 2 ^ 32"
    by (simp_all add: nm32 num_cuda_blocks_def)
  then have g2': "min (unat num_cuda_blocks * 128) (unat (NUM_MEM_BLOCKS_PER_SUPER_BLOCK a * 32)) =
      unat (NUM_MEM_BLOCKS_PER_SUPER_BLOCK a * 32)" by simp
  have C: "fold (\<lambda>tid c. compute_stats_allocators a c (of_nat tid))
             [0..<unat num_cuda_blocks * 128] (\<lambda>_. 0) =
           (\<lambda>i. if i < unat (num_super_blocks a)
                 then of_nat (set_bits a (unat (NUM_MEM_BLOCKS_PER_SUPER_BLOCK a * 32)) i) else 0)"
    by (simp only: launch_compute_stats[OF g2(2)] g2' add_0)
  have S: "fold (\<lambda>i t. t + (if i < unat (num_super_blocks a)
                 then of_nat (set_bits a (unat (NUM_MEM_BLOCKS_PER_SUPER_BLOCK a * 32)) i) else 0))
             [0..<unat (num_super_blocks a)] n_buckets = (of_nat (total_slabs a n_buckets) :: 32 word)"
    by (subst fold_total[where e="set_bits a (unat (NUM_MEM_BLOCKS_PER_SUPER_BLOCK a * 32))"])
       (simp_all add: total_slabs_def)
  show ?thesis
    unfolding ComputeLoadFactor_def Let_def
    by (simp only: num_blocks_def[symmetric] num_cuda_blocks_def[symmetric] B option.case E C S)
qed

lemma ComputeLoadFactor_no_blocks:
  assumes "(n_buckets * 32 + 128 - 1) div (128 :: 32 word) = 0"
    and "unat (NUM_MEM_BLOCKS_PER_SUPER_BLOCK a) * 32 + 127 < 2 ^ 32"
  shows "ComputeLoadFactor to_double fdiv sizeof_Key sizeof_Value n_buckets a d =
         Some (fdiv (to_double 0)
                    (to_double (ucast ((of_nat (total_slabs a n_buckets) :: 32 word)
                                         * of_nat WARP_WIDTH) * of_nat 4)))"
proof -
  define num_cuda_blocks where
    "num_cuda_blocks = (NUM_MEM_BLOCKS_PER_SUPER_BLOCK a * 32 + 128 - 1) div (128 :: 32 word)"
  have B: "fold (\<lambda>wid r. case r of None \<Rightarrow> None
                        | Some c \<Rightarrow> bucket_count_kernel d c n_buckets (of_nat wid))
             [0..<unat (0 :: 32 word) * 4] (Some (\<lambda>_. 0)) = Some (\<lambda>_. 0)"
    by simp
  have E: "fold (\<lambda>i t. t + (0 :: 32 word)) [0..<unat n_buckets] (0 :: 32 word) = 0"
    by (subst fold_total[where e="\<lambda>_. 0"]) (simp_all add: sum_list_0)
  have "unat (NUM_MEM_BLOCKS_PER_SUPER_BLOCK a) * unat (32 :: 32 word) < 2 ^ LENGTH(32)"
    using assms(2) by simp
  then have "unat (NUM_MEM_BLOCKS_PER_SUPER_BLOCK a * 32) =
      unat (NUM_MEM_BLOCKS_PER_SUPER_BLOCK a) * unat (32 :: 32 word)"
    by (rule unat_mult_lem[THEN iffD1])
  then have nm32: "unat (NUM_MEM_BLOCKS_PER_SUPER_BLOCK a * 32) =
      unat (NUM_MEM_BLOCKS_PER_SUPER_BLOCK a) * 32" by simp
  from grid_covers[of "NUM_MEM_BLOCKS_PER_SUPER_BLOCK a * 32"] assms(2)
  have g2: "unat (NUM_MEM_BLOCKS_PER_SUPER_BLOCK a * 32) \<le> unat num_cuda_blocks * 128"
    "unat num_cuda_blocks * 128 \<le> 2 ^ 32"
    by (simp_all add: nm32 num_cuda_blocks_def)
  then have g2': "min (unat num_cuda_blocks * 128) (unat (NUM_MEM_BLOCKS_PER_SUPER_BLOCK a * 32)) =
      unat (NUM_MEM_BLOCKS_PER_SUPER_BLOCK a * 32)" by simp
  have C: "fold (\<lambda>tid c. compute_stats_allocators a c (of_nat tid))
             [0..<unat num_cuda_blocks * 128] (\<lambda>_. 0) =
           (\<lambda>i. if i < unat (num_super_blocks a)
                 then of_nat (set_bits a (unat (NUM_MEM_BLOCKS_PER_SUPER_BLOCK a * 32)) i) else 0)"
    by (simp only: launch_compute_stats[OF g2(2)] g2' add_0)
  have S: "fold (\<lambda>i t. t + (if i < unat (num_super_blocks a)
                 then of_nat (set_bits a (unat (NUM_MEM_BLOCKS_PER_SUPER_BLOCK a * 32)) i) else 0))
             [0..<unat (num_super_blocks a)] n_buckets = (of_nat (total_slabs a n_buckets) :: 32 word)"
    by (subst fold_total[where e="set_bits a (unat (NUM_MEM_BLOCKS_PER_SUPER_BLOCK a * 32))"])
       (simp_all add: total_slabs_def)
  have Z: "(scast (0 :: 32 word) :: 64 word) * of_nat (sizeof_Key + sizeof_Value) = 0" by simp
  show ?thesis
    unfolding ComputeLoadFactor_def Let_def
    by (simp only: assms(1) num_cuda_blocks_def[symmetric] B option.case E C S Z)
qed

text \<open>
  C8. \<^verbatim>\<open>ComputeLoadFactor\<close> returns the quotient, in \<^verbatim>\<open>double\<close>, of two integers. The
  numerator is the total number of stored elements times \<open>sizeof(key) + sizeof(value)\<close>,
  where the stored elements are the non-empty pair slots (lanes 0..30) of the slabs of
  every bucket's chain, summed over the buckets. The denominator is the total number of
  slabs times 32 times 4, where the slabs are the \<open>num_buckets\<close> head slabs plus the set
  bits of the allocator bitmaps of every super block. This holds for a table within the
  sizes the 32-bit counters of the code can hold: every chain ends, \<open>num_buckets * 32 + 127\<close>
  and \<open>NUM_MEM_BLOCKS_PER_SUPER_BLOCK_ * 32 + 127\<close> are below \<open>2 ^ 32\<close>, there are fewer than
  \<open>2 ^ 31\<close> stored elements, and the slab total times 32 is below \<open>2 ^ 31\<close>. Both products
  are taken in 64 bits.
\<close>

theorem ComputeLoadFactor_formula:
  assumes "unat n_buckets * 32 + 127 < 2 ^ 32"
    and "\<forall>b. b < unat n_buckets \<longrightarrow> is_chain d (bucket_list_head d (of_nat b) 31) (nodes b)"
    and "total_elements d n_buckets nodes < 2 ^ 31"
    and "unat (NUM_MEM_BLOCKS_PER_SUPER_BLOCK a) * 32 + 127 < 2 ^ 32"
    and "total_slabs a n_buckets * 32 < 2 ^ 31"
  shows "ComputeLoadFactor to_double fdiv sizeof_Key sizeof_Value n_buckets a d =
         Some (fdiv (to_double (of_nat (total_elements d n_buckets nodes
                                          * (sizeof_Key + sizeof_Value))))
                    (to_double (of_nat (total_slabs a n_buckets * 32 * 4))))"
proof -
  have n1: "(scast (of_nat (total_elements d n_buckets nodes) :: 32 word) :: 64 word)
              * of_nat (sizeof_Key + sizeof_Value)
            = of_nat (total_elements d n_buckets nodes * (sizeof_Key + sizeof_Value))"
    by (simp add: scast_of_nat_32_64[OF assms(3)])
  have "total_slabs a n_buckets * 32 < 2 ^ 32" using assms(5) by simp
  then have n2: "(ucast ((of_nat (total_slabs a n_buckets) :: 32 word) * of_nat WARP_WIDTH) :: 64 word)
              * of_nat 4 = of_nat (total_slabs a n_buckets * 32 * 4)"
    using ucast_of_nat_32_64[of "total_slabs a n_buckets * 32"]
    by (simp add: WARP_WIDTH_def)
  show ?thesis
    by (simp only: ComputeLoadFactor_words[OF assms(1,2,4)] n1 n2)
qed

theorem ComputeLoadFactor_formula_witness:
  "unat (1 :: 32 word) * 32 + 127 < 2 ^ 32
   \<and> is_chain table_full_5 (bucket_list_head table_full_5 0 31) [0]
   \<and> total_elements table_full_5 1 (\<lambda>b. [0]) = 32
   \<and> unat (NUM_MEM_BLOCKS_PER_SUPER_BLOCK alloc_one) * 32 + 127 < 2 ^ 32
   \<and> total_slabs alloc_one 1 = 2
   \<and> ComputeLoadFactor (\<lambda>w. [unat w]) (@) 4 4 1 alloc_one table_full_5 = Some [256, 256]"
proof -
  have h1: "unat (1 :: 32 word) * 32 + 127 < 2 ^ 32" by simp
  have c: "is_chain table_full_5 (bucket_list_head table_full_5 0 31) [0]"
    by (simp add: table_full_5_head table_full_5_slab_0 EMPTY_SLAB_PTR_def)
  then have h2: "\<forall>b. b < unat (1 :: 32 word) \<longrightarrow>
      is_chain table_full_5 (bucket_list_head table_full_5 (of_nat b) 31) ((\<lambda>b. [0]) b)"
    by simp
  have h3: "total_elements table_full_5 1 (\<lambda>b. [0]) < 2 ^ 31" by (simp add: table_full_5_elements)
  have h4: "unat (NUM_MEM_BLOCKS_PER_SUPER_BLOCK alloc_one) * 32 + 127 < 2 ^ 32"
    by (simp add: alloc_one_def)
  have h5: "total_slabs alloc_one 1 * 32 < 2 ^ 31" by (simp add: alloc_one_slabs)
  from ComputeLoadFactor_formula[OF h1 h2 h3 h4 h5, of "\<lambda>w. [unat w]" "(@)" 4 4]
  have "ComputeLoadFactor (\<lambda>w. [unat w]) (@) 4 4 1 alloc_one table_full_5 = Some [256, 256]"
    by (simp add: table_full_5_elements alloc_one_slabs)
  with h1 c h4 show ?thesis by (simp add: table_full_5_elements alloc_one_slabs)
qed

lemma table_full_elements: "total_elements table_full n no_nodes = unat n * 31"
proof -
  have "filter (\<lambda>l. bucket_list_head table_full b l \<noteq> EMPTY_PAIR_PTR) [0..<31] = [0..<31]" for b
    by (rule filter_True) (simp add: table_full_def EMPTY_PAIR_PTR_def word32_of_nat_lane)
  then have "bucket_elements table_full b (no_nodes k) = 31" for b k
    by (simp add: bucket_elements_def count_pairs_def no_nodes_def)
  then show ?thesis by (simp add: total_elements_def sum_list_triv)
qed

lemma table_full_chains:
  "is_chain table_full (bucket_list_head table_full b 31) (no_nodes k)"
  by (simp add: no_nodes_def table_full_def EMPTY_SLAB_PTR_def)

lemma alloc_one_total_slabs: "total_slabs alloc_one n = unat n + 1"
proof -
  have p1: "popc 1 = 1"
  proof -
    have "[0..<32] = 0 # [1..<32]" by (simp add: upt_rec)
    moreover have "filter (bit (1 :: 32 word)) [1..<32] = []" by (simp add: bit_1_iff)
    ultimately show ?thesis by (simp add: popc_def)
  qed
  have p0: "popc 0 = 0" by (simp add: popc_def)
  have "[0..<32] = 0 # [1..<32]" by (simp add: upt_rec)
  moreover have "map (\<lambda>tid. popc (bitmap alloc_one 0 tid)) [1..<32] = map (\<lambda>tid. 0) [1..<32]"
    by (rule map_cong) (simp_all add: alloc_one_def p0)
  ultimately have "set_bits alloc_one 32 0 = 1"
    by (simp add: set_bits_def alloc_one_def p1 sum_list_0 del: upt_Suc)
  then show ?thesis by (simp add: total_slabs_def alloc_one_def)
qed

lemma wrap_27: "ComputeLoadFactor operand (@) 4 4 134217728 alloc_one table_full = Some [0, 128]"
proof -
  have z: "((134217728 :: 32 word) * 32 + 128 - 1) div (128 :: 32 word) = 0" by simp
  have nm: "unat (NUM_MEM_BLOCKS_PER_SUPER_BLOCK alloc_one) * 32 + 127 < 2 ^ 32"
    by (simp add: alloc_one_def)
  have s: "total_slabs alloc_one 134217728 = 134217729" by (simp add: alloc_one_total_slabs)
  show ?thesis
    by (simp add: ComputeLoadFactor_no_blocks[OF z nm] s WARP_WIDTH_def operand_def)
qed

lemma wrap_int: "ComputeLoadFactor operand (@) 4 4 100000000 alloc_one table_full =
    Some [18446744064149813248, 12800000128]"
proof -
  have nb: "unat (100000000 :: 32 word) * 32 + 127 < 2 ^ 32" by simp
  have ch: "\<forall>b. b < unat (100000000 :: 32 word) \<longrightarrow>
      is_chain table_full (bucket_list_head table_full (of_nat b) 31) (no_nodes b)"
    by (simp add: table_full_chains)
  have nm: "unat (NUM_MEM_BLOCKS_PER_SUPER_BLOCK alloc_one) * 32 + 127 < 2 ^ 32"
    by (simp add: alloc_one_def)
  have e: "total_elements table_full 100000000 no_nodes = 3100000000"
    by (simp add: table_full_elements)
  have s: "total_slabs alloc_one 100000000 = 100000001" by (simp add: alloc_one_total_slabs)
  have sc: "(scast (3100000000 :: 32 word) :: 64 word) = 18446744072514584320"
    by (simp add: scast_eq)
  show ?thesis
    by (simp add: ComputeLoadFactor_words[OF nb ch nm] e s sc WARP_WIDTH_def operand_def)
qed

text \<open>
  Without the bounds the formula fails. With \<open>2 ^ 27\<close> buckets \<^verbatim>\<open>num_buckets_ * 32\<close> is 0 in
  32 bits, \<^verbatim>\<open>bucket_count_kernel\<close> is launched with no block and the numerator is 0
  whatever the table holds; the slab total times 32 wraps as well. With \<open>10 ^ 8\<close> buckets
  of 31 elements the \<^verbatim>\<open>int\<close> total is negative and the numerator is its 64-bit
  conversion.
\<close>

theorem ComputeLoadFactor_wraps:
  "is_chain table_full (bucket_list_head table_full 0 31) (no_nodes 0)
   \<and> total_elements table_full 134217728 no_nodes = 4160749568
   \<and> total_slabs alloc_one 134217728 = 134217729
   \<and> ComputeLoadFactor operand (@) 4 4 134217728 alloc_one table_full = Some [0, 128]
   \<and> ComputeLoadFactor operand (@) 4 4 134217728 alloc_one table_full \<noteq>
       Some (operand (of_nat (total_elements table_full 134217728 no_nodes * (4 + 4)))
             @ operand (of_nat (total_slabs alloc_one 134217728 * 32 * 4)))
   \<and> total_elements table_full 100000000 no_nodes = 3100000000
   \<and> total_slabs alloc_one 100000000 = 100000001
   \<and> ComputeLoadFactor operand (@) 4 4 100000000 alloc_one table_full =
       Some [18446744064149813248, 12800000128]
   \<and> ComputeLoadFactor operand (@) 4 4 100000000 alloc_one table_full \<noteq>
       Some (operand (of_nat (total_elements table_full 100000000 no_nodes * (4 + 4)))
             @ operand (of_nat (total_slabs alloc_one 100000000 * 32 * 4)))"
proof -
  have e1: "total_elements table_full 134217728 no_nodes = 4160749568"
    by (simp add: table_full_elements)
  have s1: "total_slabs alloc_one 134217728 = 134217729" by (simp add: alloc_one_total_slabs)
  have e2: "total_elements table_full 100000000 no_nodes = 3100000000"
    by (simp add: table_full_elements)
  have s2: "total_slabs alloc_one 100000000 = 100000001" by (simp add: alloc_one_total_slabs)
  have n1: "ComputeLoadFactor operand (@) 4 4 134217728 alloc_one table_full \<noteq>
       Some (operand (of_nat (total_elements table_full 134217728 no_nodes * (4 + 4)))
             @ operand (of_nat (total_slabs alloc_one 134217728 * 32 * 4)))"
    by (simp add: wrap_27 e1 s1 operand_def)
  have n2: "ComputeLoadFactor operand (@) 4 4 100000000 alloc_one table_full \<noteq>
       Some (operand (of_nat (total_elements table_full 100000000 no_nodes * (4 + 4)))
             @ operand (of_nat (total_slabs alloc_one 100000000 * 32 * 4)))"
    by (simp add: wrap_int e2 s2 operand_def)
  from table_full_chains e1 s1 wrap_27 n1 e2 s2 wrap_int n2 show ?thesis by (intro conjI)
qed

section \<open>Single branches of Remove and Insert\<close>

lemma table_1_match_1:
  "lowest_match table_1 1 (read_unit_data ctx1 table_1 (HEAD_SLAB_PTR ctx1) 0) = Some 0"
  by (rule lowest_match_eqI)
     (simp_all add: slot_matches_def table_full_head table_1_head table_1_pairs EMPTY_PAIR_PTR_def)

lemma table_1_no_match_4:
  "lowest_match table_1 4 (read_unit_data ctx1 table_1 (HEAD_SLAB_PTR ctx1) 0) = None"
  by (rule head_no_match) (simp add: table_1_head table_1_pairs EMPTY_PAIR_PTR_def)

text \<open>
  X1. Remove, the branch of a found key. Whatever the other warps do, the serviced lane
  ends the iteration inactive: it makes no second pass. With no other warp in between,
  the slot that matched is set to \<open>EMPTY_PAIR_PTR\<close>, the pair index read from it is freed
  once, the result of the lane is true, and no other lane changes.
\<close>

theorem Remove_found_branch:
  assumes "lowest_active (lane_active st) = Some s"
    and "wq = ballot_sync ACTIVE_LANES_MASK (lane_active st)"
    and "c = (if prev_work_queue st \<noteq> wq then HEAD_SLAB_PTR ctx else curr_slab_ptr st)"
    and "lowest_match d (key s) (read_unit_data ctx d c (bucket_id s)) = Some l"
  shows "\<not> lane_active (fst (Remove_body ctx bucket_id key wq es st d)) s
       \<and> Remove_body ctx bucket_id key wq [] st d =
           (st\<lparr>lane_active := (lane_active st)(s := False),
               found_mask := (found_mask st)(s := True),
               prev_work_queue := wq, curr_slab_ptr := c\<rparr>, [],
            Free (read_unit_data ctx d c (bucket_id s) l)
              (store d (unit_ptr_of ctx c (bucket_id s) l) EMPTY_PAIR_PTR))"
proof
  show "\<not> lane_active (fst (Remove_body ctx bucket_id key wq es st d)) s"
    by (simp add: Remove_body_found[where key=key and bucket_id=bucket_id, OF assms] Let_def split_beta)
  show "Remove_body ctx bucket_id key wq [] st d =
           (st\<lparr>lane_active := (lane_active st)(s := False),
               found_mask := (found_mask st)(s := True),
               prev_work_queue := wq, curr_slab_ptr := c\<rparr>, [],
            Free (read_unit_data ctx d c (bucket_id s) l)
              (store d (unit_ptr_of ctx c (bucket_id s) l) EMPTY_PAIR_PTR))"
    by (simp add: Remove_body_found[where key=key and bucket_id=bucket_id, OF assms] Let_def)
qed

theorem Remove_found_branch_witness:
  "lowest_active (\<lambda>l. l = 0) = Some 0
   \<and> lowest_match table_1 1 (read_unit_data ctx1 table_1 (HEAD_SLAB_PTR ctx1) 0) = Some 0
   \<and> Remove_body ctx1 (\<lambda>l. 0) (\<lambda>l. 1) (ballot_sync ACTIVE_LANES_MASK (\<lambda>l. l = 0)) []
        \<lparr>lane_active = (\<lambda>l. l = 0), iterator = (\<lambda>l. 0xFFFFFFFF), found_mask = (\<lambda>l. False),
         prev_work_queue = 0, curr_slab_ptr = HEAD_SLAB_PTR ctx1\<rparr> table_1 =
       (\<lparr>lane_active = (\<lambda>l. l = 0)(0 := False), iterator = (\<lambda>l. 0xFFFFFFFF),
         found_mask = (\<lambda>l. False)(0 := True),
         prev_work_queue = ballot_sync ACTIVE_LANES_MASK (\<lambda>l. l = 0),
         curr_slab_ptr = HEAD_SLAB_PTR ctx1\<rparr>, [],
        Free 0 (store table_1 (list_head_unit 0 0) EMPTY_PAIR_PTR))"
proof -
  define st :: warp_vars where
    "st = \<lparr>lane_active = (\<lambda>l. l = 0), iterator = (\<lambda>l. 0xFFFFFFFF), found_mask = (\<lambda>l. False),
           prev_work_queue = 0, curr_slab_ptr = HEAD_SLAB_PTR ctx1\<rparr>"
  have s: "lowest_active (lane_active st) = Some 0" by (simp add: st_def lane_0_lowest)
  have w: "ballot_sync ACTIVE_LANES_MASK (\<lambda>l::nat. l = 0) = ballot_sync ACTIVE_LANES_MASK (lane_active st)"
    by (simp add: st_def)
  have c: "HEAD_SLAB_PTR ctx1 =
     (if prev_work_queue st \<noteq> ballot_sync ACTIVE_LANES_MASK (\<lambda>l::nat. l = 0)
      then HEAD_SLAB_PTR ctx1 else curr_slab_ptr st)"
    by (simp add: st_def)
  from Remove_found_branch[where key="\<lambda>l. 1" and bucket_id="\<lambda>l. 0", OF s w c table_1_match_1,
      THEN conjunct2]
  have "Remove_body ctx1 (\<lambda>l. 0) (\<lambda>l. 1) (ballot_sync ACTIVE_LANES_MASK (\<lambda>l. l = 0)) [] st table_1 =
       (st\<lparr>lane_active := (lane_active st)(0 := False), found_mask := (found_mask st)(0 := True),
           prev_work_queue := ballot_sync ACTIVE_LANES_MASK (\<lambda>l. l = 0),
           curr_slab_ptr := HEAD_SLAB_PTR ctx1\<rparr>, [],
        Free 0 (store table_1 (list_head_unit 0 0) EMPTY_PAIR_PTR))"
    by (simp add: table_full_head table_1_head ctx1_unit_ptrs del: store.simps)
  then show ?thesis
    by (simp add: st_def lane_0_lowest table_1_match_1 del: store.simps)
qed

text \<open>
  X2. Insert, Branch 1. When the slab at hand has a pair slot with the key of the
  serviced lane, the lane ends the iteration inactive, its pre-allocated pair record is
  given back to the allocator, its result stays false, and no slot of the table is
  written.
\<close>

theorem Insert_duplicate_branch:
  assumes "lowest_active (lane_active st) = Some s"
    and "wq = ballot_sync ACTIVE_LANES_MASK (lane_active st)"
    and "c = (if prev_work_queue st \<noteq> wq then HEAD_SLAB_PTR ctx else curr_slab_ptr st)"
    and "lowest_match d (key s) (read_unit_data ctx d c (bucket_id s)) = Some l"
  shows "Insert_body ctx bucket_id key pre wq [] st d =
           Inr (st\<lparr>lane_active := (lane_active st)(s := False),
                   prev_work_queue := wq, curr_slab_ptr := c\<rparr>, [], Free (pre s) d)
         \<and> deref (Free (pre s) d) q = deref d q"
proof -
  have "deref (Free (pre s) d) q = deref d q" by (cases q) (simp_all add: Free_def)
  then show ?thesis
    by (simp add: Insert_body_duplicate[where key=key and bucket_id=bucket_id, OF assms])
qed

theorem Insert_duplicate_branch_witness:
  "lowest_active (\<lambda>l. l = 0) = Some 0
   \<and> lowest_match table_1 1 (read_unit_data ctx1 table_1 (HEAD_SLAB_PTR ctx1) 0) = Some 0
   \<and> Insert_body ctx1 (\<lambda>l. 0) (\<lambda>l. 1) (\<lambda>l. 2) (ballot_sync ACTIVE_LANES_MASK (\<lambda>l. l = 0)) []
        \<lparr>lane_active = (\<lambda>l. l = 0), iterator = (\<lambda>l. 0xFFFFFFFF), found_mask = (\<lambda>l. False),
         prev_work_queue = 0, curr_slab_ptr = HEAD_SLAB_PTR ctx1\<rparr> table_1 =
       Inr (\<lparr>lane_active = (\<lambda>l. l = 0)(0 := False), iterator = (\<lambda>l. 0xFFFFFFFF),
             found_mask = (\<lambda>l. False),
             prev_work_queue = ballot_sync ACTIVE_LANES_MASK (\<lambda>l. l = 0),
             curr_slab_ptr = HEAD_SLAB_PTR ctx1\<rparr>, [], Free 2 table_1)"
proof -
  define st :: warp_vars where
    "st = \<lparr>lane_active = (\<lambda>l. l = 0), iterator = (\<lambda>l. 0xFFFFFFFF), found_mask = (\<lambda>l. False),
           prev_work_queue = 0, curr_slab_ptr = HEAD_SLAB_PTR ctx1\<rparr>"
  have s: "lowest_active (lane_active st) = Some 0" by (simp add: st_def lane_0_lowest)
  have w: "ballot_sync ACTIVE_LANES_MASK (\<lambda>l::nat. l = 0) = ballot_sync ACTIVE_LANES_MASK (lane_active st)"
    by (simp add: st_def)
  have c: "HEAD_SLAB_PTR ctx1 =
     (if prev_work_queue st \<noteq> ballot_sync ACTIVE_LANES_MASK (\<lambda>l::nat. l = 0)
      then HEAD_SLAB_PTR ctx1 else curr_slab_ptr st)"
    by (simp add: st_def)
  from Insert_duplicate_branch[where key="\<lambda>l. 1" and bucket_id="\<lambda>l. 0" and pre="\<lambda>l. 2",
      OF s w c table_1_match_1, THEN conjunct1]
  show ?thesis
    by (simp add: st_def lane_0_lowest table_1_match_1)
qed

text \<open>
  X3. Remove, the branch of a key that is not in the slab at hand. The table and the
  results of all lanes stay as they are. When the slab has a next slab the warp moves
  on to it and no lane retires; at the end of the chain every lane of the warp is
  retired, not only the serviced one.
\<close>

theorem Remove_not_found_branch:
  assumes "lowest_active (lane_active st) = Some s"
    and "wq = ballot_sync ACTIVE_LANES_MASK (lane_active st)"
    and "c = (if prev_work_queue st \<noteq> wq then HEAD_SLAB_PTR ctx else curr_slab_ptr st)"
    and "lowest_match d (key s) (read_unit_data ctx d c (bucket_id s)) = None"
  shows "Remove_body ctx bucket_id key wq es st d =
         (if read_unit_data ctx d c (bucket_id s) 31 = EMPTY_SLAB_PTR
          then (st\<lparr>lane_active := (\<lambda>_. False), prev_work_queue := wq, curr_slab_ptr := c\<rparr>, es, d)
          else (st\<lparr>prev_work_queue := wq,
                   curr_slab_ptr := read_unit_data ctx d c (bucket_id s) 31\<rparr>, es, d))"
  by (rule Remove_body_not_found[where key=key and bucket_id=bucket_id, OF assms])

theorem Remove_not_found_branch_witness:
  "lowest_active (\<lambda>l. l < 2) = Some 0
   \<and> lowest_match table_1 4 (read_unit_data ctx1 table_1 (HEAD_SLAB_PTR ctx1) 0) = None
   \<and> Remove_body ctx1 (\<lambda>l. 0) (\<lambda>l. if l = 0 then 4 else 1)
        (ballot_sync ACTIVE_LANES_MASK (\<lambda>l. l < 2)) []
        \<lparr>lane_active = (\<lambda>l. l < 2), iterator = (\<lambda>l. 0xFFFFFFFF), found_mask = (\<lambda>l. False),
         prev_work_queue = 0, curr_slab_ptr = HEAD_SLAB_PTR ctx1\<rparr> table_1 =
       (\<lparr>lane_active = (\<lambda>l. False), iterator = (\<lambda>l. 0xFFFFFFFF), found_mask = (\<lambda>l. False),
         prev_work_queue = ballot_sync ACTIVE_LANES_MASK (\<lambda>l. l < 2),
         curr_slab_ptr = HEAD_SLAB_PTR ctx1\<rparr>, [], table_1)"
proof -
  define st :: warp_vars where
    "st = \<lparr>lane_active = (\<lambda>l. l < 2), iterator = (\<lambda>l. 0xFFFFFFFF), found_mask = (\<lambda>l. False),
           prev_work_queue = 0, curr_slab_ptr = HEAD_SLAB_PTR ctx1\<rparr>"
  have s: "lowest_active (lane_active st) = Some 0" by (simp add: st_def lanes_0_1_lowest)
  have w: "ballot_sync ACTIVE_LANES_MASK (\<lambda>l::nat. l < 2) = ballot_sync ACTIVE_LANES_MASK (lane_active st)"
    by (simp add: st_def)
  have c: "HEAD_SLAB_PTR ctx1 =
     (if prev_work_queue st \<noteq> ballot_sync ACTIVE_LANES_MASK (\<lambda>l::nat. l < 2)
      then HEAD_SLAB_PTR ctx1 else curr_slab_ptr st)"
    by (simp add: st_def)
  have m: "lowest_match table_1 ((\<lambda>l::nat. if l = 0 then 4 else 1) 0)
             (read_unit_data ctx1 table_1 (HEAD_SLAB_PTR ctx1) ((\<lambda>l. 0) (0::nat))) = None"
    by (simp add: table_1_no_match_4)
  have n: "read_unit_data ctx1 table_1 (HEAD_SLAB_PTR ctx1) 0 31 = EMPTY_SLAB_PTR"
    by (simp add: table_full_head table_1_head EMPTY_SLAB_PTR_def)
  from Remove_not_found_branch[where key="\<lambda>l. if l = 0 then 4 else 1" and bucket_id="\<lambda>l. 0"
      and es="[]", OF s w c m]
  show ?thesis
    by (simp add: st_def lanes_0_1_lowest table_1_no_match_4 n)
qed

end
